theory Spec2Isabelle
  imports Complex_Main "HOL-Library.List_Lexorder"
begin

unbundle bit_operations_syntax

section \<open>JavaScript values and arrays\<close>

text \<open>
  The values a trait field can hold. Only the comparison \<^verbatim>\<open>!==\<close> is ever applied to
  them by the accessors, so a finite number is any rational (every finite double is one),
  with the three numbers whose comparison is special kept apart: \<open>JNum 0\<close> is +0,
  \<open>JNegZero\<close> is -0 and \<open>JNaN\<close> is NaN. Objects, functions and symbols are references,
  compared by identity.
\<close>

datatype jsval =
    JUndefined
  | JNull
  | JBool bool
  | JNum rat
  | JNegZero
  | JNaN
  | JPosInf
  | JNegInf
  | JStr string
  | JRef nat

text \<open>\<^verbatim>\<open>a === b\<close>: NaN is equal to nothing, not even itself; +0 and -0 are equal.\<close>

fun strict_eq :: "jsval \<Rightarrow> jsval \<Rightarrow> bool" where
  "strict_eq JNaN b = False"
| "strict_eq a JNaN = False"
| "strict_eq JNegZero (JNum y) = (y = 0)"
| "strict_eq (JNum x) JNegZero = (x = 0)"
| "strict_eq a b = (a = b)"

text \<open>\<^verbatim>\<open>a !== b\<close>\<close>

definition strict_neq :: "jsval \<Rightarrow> jsval \<Rightarrow> bool" where
  "strict_neq a b = (\<not> strict_eq a b)"

text \<open>
  The same value up to the sign of zero (what \<^verbatim>\<open>Array.prototype.includes\<close> uses):
  \<^verbatim>\<open>===\<close>, except that NaN is the same as NaN.
\<close>

definition same_value_zero :: "jsval \<Rightarrow> jsval \<Rightarrow> bool" where
  "same_value_zero a b = (strict_eq a b \<or> (a = JNaN \<and> b = JNaN))"

text \<open>
  A JavaScript array read and written by a row index. Reading past the end gives
  \<^verbatim>\<open>undefined\<close>; writing past the end extends the array, and the slots in between
  read as \<^verbatim>\<open>undefined\<close>.
\<close>

type_synonym column = "jsval list"

definition arr_get :: "column \<Rightarrow> nat \<Rightarrow> jsval" where
  "arr_get xs i = (if i < length xs then xs ! i else JUndefined)"

definition arr_set :: "column \<Rightarrow> nat \<Rightarrow> jsval \<Rightarrow> column" where
  "arr_set xs i v =
     (if i < length xs then xs[i := v]
      else xs @ replicate (i - length xs) JUndefined @ [v])"

section \<open>Generated accessors (trait/utils/create-accessors.ts)\<close>

text \<open>
  A schema is an object. \<^verbatim>\<open>Object.keys\<close> lists its own keys: the integer-like keys first,
  in ascending order, then the other strings in insertion order. A schema is given here by
  its entries in insertion order; an integer-like key is not an identifier name, so for the
  schemas whose accessors are modelled (see \<open>new_Function\<close> below) \<^verbatim>\<open>Object.keys\<close> is the
  list of the keys as they were inserted.

  A store is its property lookup at the schema keys: \<open>store k = Some col\<close> when
  \<^verbatim>\<open>store.k\<close> is the array \<open>col\<close> (the column store allocates one dense array per field),
  and \<open>store k = None\<close> when \<^verbatim>\<open>store.k\<close> is \<^verbatim>\<open>undefined\<close>, and indexing it throws a
  TypeError. A value object is its property lookup too: \<open>k \<in> dom value\<close> is
  \<^verbatim>\<open>'k' in value\<close>, and \<^verbatim>\<open>value.k\<close> of an absent key is \<^verbatim>\<open>undefined\<close>.
\<close>

type_synonym key = string
type_synonym schema = "(key \<times> jsval) list"
type_synonym store = "key \<rightharpoonup> column"
type_synonym props = "key \<rightharpoonup> jsval"

datatype error = TypeError

definition Object_keys :: "schema \<Rightarrow> key list" where
  "Object_keys schema = map fst schema"

definition get_prop :: "props \<Rightarrow> key \<Rightarrow> jsval" where
  "get_prop val k = (case val k of None \<Rightarrow> JUndefined | Some x \<Rightarrow> x)"

text \<open>
  Each accessor is compiled by \<^verbatim>\<open>new Function\<close> from a text into which the keys are
  spliced: between quotes (\<^verbatim>\<open>'k' in value\<close>), after a dot (\<^verbatim>\<open>store.k\<close>, \<^verbatim>\<open>value.k\<close>) and
  as a property name of an object literal (\<^verbatim>\<open>{ k: ... }\<close>). When the key is an identifier
  name, all three refer to the property \<open>k\<close>, with one exception: in an object literal,
  \<^verbatim>\<open>__proto__: v\<close> sets the prototype and defines no property. For any other key the
  text is another program: \<^verbatim>\<open>new Function\<close> throws a SyntaxError (for a key such as
  \<^verbatim>\<open>a-b\<close>, or one that starts with a digit), or the text compiles and addresses another
  property (for a key such as \<^verbatim>\<open>a.b\<close>, or one that starts with a space).

  \<open>new_Function keys body\<close> is the function compiled from the text generated for \<open>keys\<close>:
  it is \<open>body\<close>, the function that the statements of the text describe, when every key is
  an identifier name other than \<^verbatim>\<open>__proto__\<close>, and \<open>None\<close> otherwise: those texts are not
  modelled. Identifier names are taken over ASCII: a letter, \<^verbatim>\<open>$\<close> or \<^verbatim>\<open>_\<close>, followed by
  letters, digits, \<^verbatim>\<open>$\<close> and \<^verbatim>\<open>_\<close>; a reserved word is an identifier name, and may follow
  a dot and name a property.
\<close>

definition identifier_start :: "char \<Rightarrow> bool" where
  "identifier_start c =
     (c \<in> set ''abcdefghijklmnopqrstuvwxyzABCDEFGHIJKLMNOPQRSTUVWXYZ$_'')"

definition identifier_part :: "char \<Rightarrow> bool" where
  "identifier_part c = (identifier_start c \<or> c \<in> set ''0123456789'')"

fun identifier_name :: "string \<Rightarrow> bool" where
  "identifier_name [] = False"
| "identifier_name (c # cs) = (identifier_start c \<and> list_all identifier_part cs)"

definition plain_key :: "key \<Rightarrow> bool" where
  "plain_key k = (identifier_name k \<and> k \<noteq> ''__proto__'')"

definition new_Function :: "key list \<Rightarrow> 'f \<Rightarrow> 'f option" where
  "new_Function keys body = (if list_all plain_key keys then Some body else None)"

text \<open>
  The body of the text generated by \<^verbatim>\<open>createSetFunction\<close>, one statement per key:
  \<^verbatim>\<open>if ('k' in value) store.k[index] = value.k;\<close>
  The store is mutated in place, so the store is returned also when a statement throws.
\<close>

fun set_body :: "key list \<Rightarrow> nat \<Rightarrow> store \<Rightarrow> props \<Rightarrow> (error + unit) \<times> store" where
  "set_body [] index store val = (Inr (), store)"
| "set_body (k # ks) index store val =
     (if k \<in> dom val then
        (case store k of
           None \<Rightarrow> (Inl TypeError, store)
         | Some col \<Rightarrow> set_body ks index (store(k \<mapsto> arr_set col index (get_prop val k))) val)
      else set_body ks index store val)"

definition createSetFunction ::
  "schema \<Rightarrow> (nat \<Rightarrow> store \<Rightarrow> props \<Rightarrow> (error + unit) \<times> store) option" where
  "createSetFunction schema =
     (let keys = Object_keys schema
      in new_Function keys (\<lambda>index store val. set_body keys index store val))"

text \<open>\<^verbatim>\<open>createFastSetFunction\<close>: \<^verbatim>\<open>store.k[index] = value.k;\<close> for every key.\<close>

fun fast_set_body :: "key list \<Rightarrow> nat \<Rightarrow> store \<Rightarrow> props \<Rightarrow> (error + unit) \<times> store" where
  "fast_set_body [] index store val = (Inr (), store)"
| "fast_set_body (k # ks) index store val =
     (case store k of
        None \<Rightarrow> (Inl TypeError, store)
      | Some col \<Rightarrow> fast_set_body ks index (store(k \<mapsto> arr_set col index (get_prop val k))) val)"

definition createFastSetFunction ::
  "schema \<Rightarrow> (nat \<Rightarrow> store \<Rightarrow> props \<Rightarrow> (error + unit) \<times> store) option" where
  "createFastSetFunction schema =
     (let keys = Object_keys schema
      in new_Function keys (\<lambda>index store val. fast_set_body keys index store val))"

text \<open>
  \<^verbatim>\<open>createFastSetWithChangeDetectionFunction\<close>: \<^verbatim>\<open>let changed = false;\<close>, then for
  every key
  \<^verbatim>\<open>if (store.k[index] !== value.k) { store.k[index] = value.k; changed = true; }\<close>
  and \<^verbatim>\<open>return changed;\<close>
\<close>

fun change_body ::
  "key list \<Rightarrow> nat \<Rightarrow> store \<Rightarrow> props \<Rightarrow> bool \<Rightarrow> (error + bool) \<times> store" where
  "change_body [] index store val changed = (Inr changed, store)"
| "change_body (k # ks) index store val changed =
     (case store k of
        None \<Rightarrow> (Inl TypeError, store)
      | Some col \<Rightarrow>
          if strict_neq (arr_get col index) (get_prop val k)
          then change_body ks index (store(k \<mapsto> arr_set col index (get_prop val k))) val True
          else change_body ks index store val changed)"

definition createFastSetWithChangeDetectionFunction ::
  "schema \<Rightarrow> (nat \<Rightarrow> store \<Rightarrow> props \<Rightarrow> (error + bool) \<times> store) option" where
  "createFastSetWithChangeDetectionFunction schema =
     (let keys = Object_keys schema
      in new_Function keys (\<lambda>index store val. change_body keys index store val False))"

text \<open>
  \<^verbatim>\<open>createGetFunction\<close>: \<^verbatim>\<open>return { k1: store.k1[index], k2: store.k2[index], ... };\<close>
  The properties of the literal are evaluated from left to right.
\<close>

fun get_fields :: "key list \<Rightarrow> nat \<Rightarrow> store \<Rightarrow> props \<Rightarrow> error + props" where
  "get_fields [] index store obj = Inr obj"
| "get_fields (k # ks) index store obj =
     (case store k of
        None \<Rightarrow> Inl TypeError
      | Some col \<Rightarrow> get_fields ks index store (obj(k \<mapsto> arr_get col index)))"

definition createGetFunction :: "schema \<Rightarrow> (nat \<Rightarrow> store \<Rightarrow> error + props) option" where
  "createGetFunction schema =
     (let keys = Object_keys schema
      in new_Function keys (\<lambda>index store. get_fields keys index store Map.empty))"

text \<open>The slot of field \<open>k\<close> at a row, as \<^verbatim>\<open>store.k[index]\<close> reads it.\<close>

definition slot :: "store \<Rightarrow> key \<Rightarrow> nat \<Rightarrow> jsval" where
  "slot store k index = (case store k of None \<Rightarrow> JUndefined | Some col \<Rightarrow> arr_get col index)"

section \<open>The world (world/world.ts)\<close>

subsection \<open>Types declared in other modules\<close>

text \<open>
  Modelled from the spec: the type \<^verbatim>\<open>Entity\<close> of \<^verbatim>\<open>entity/types\<close>. An entity is a number
  packing a generation, a world id and a row index; two entities are equal iff all three
  fields match.
\<close>

datatype entity = Entity (generation: nat) (worldId: nat) (rowIndex: nat)

text \<open>
  Modelled from the spec: the type \<^verbatim>\<open>Component\<close> of \<^verbatim>\<open>component/types\<close>. A trait is an
  immutable descriptor, a global value shared across worlds, with a field schema that may
  be empty (a tag); the schema gives each field its default value. Traits are compared by
  identity, here an id.
\<close>

datatype component = Component (cid: nat) (cschema: schema)

text \<open>
  Modelled from the spec: the constant \<^verbatim>\<open>IsExcluded\<close> of \<^verbatim>\<open>query/query\<close>, the hidden
  "excluded" tag that the world entity carries.
\<close>

definition IsExcluded :: component where
  "IsExcluded = Component 0 []"

text \<open>
  Modelled from the spec: the type \<^verbatim>\<open>ComponentOrWithParams\<close> of \<^verbatim>\<open>component/types\<close>, a
  trait or a trait with initial values.
\<close>

datatype componentOrWithParams =
    Comp component
  | WithParams component props

text \<open>An argument that is one value, or an array of them (\<^verbatim>\<open>Array.isArray\<close>).\<close>

datatype 'a one_or_many = One 'a | Many "'a list"

text \<open>
  Modelled from the spec: the type \<^verbatim>\<open>QueryParameter\<close> of \<^verbatim>\<open>query/types\<close>. A parameter
  requires a trait, any of a list of traits, or the absence of a trait, or it is one of the
  tracking modifiers \<open>Added\<close>, \<open>Removed\<close> and \<open>Changed\<close> made by a tracker, which is
  identified by its number.
\<close>

datatype queryParameter =
    All component
  | Any "component list"
  | Not component
  | Added nat component
  | Removed nat component
  | Changed nat component

text \<open>Modelled from the spec: the type \<^verbatim>\<open>RelationTarget\<close> of \<^verbatim>\<open>relation/types\<close>.\<close>

datatype relationTarget = Target entity | Wildcard

text \<open>
  Objects are referred to by their identity: a \<^verbatim>\<open>Query\<close>, a \<^verbatim>\<open>World\<close> and a callback
  function are numbers that name them.
\<close>

type_synonym qref = nat
type_synonym wref = nat
type_synonym callback = nat
type_synonym relation = nat

subsection \<open>The state of a world and of the universe\<close>

text \<open>
  \<^verbatim>\<open>this[$internal]\<close>, field by field. The entity index and the component records are
  values of types declared in other modules: \<open>'ei\<close> is \<^verbatim>\<open>EntityIndex\<close> and \<open>'rec\<close> is
  \<^verbatim>\<open>ComponentRecord\<close>. \<^verbatim>\<open>worldEntity\<close> is \<^verbatim>\<open>null\<close> before \<^verbatim>\<open>init\<close> and after
  \<^verbatim>\<open>destroy\<close>.
\<close>

record ('ei, 'rec) internal =
  entityIndex :: 'ei
  entityMasks :: "nat list list"
  entityComponents :: "entity \<rightharpoonup> component set"
  bitflag :: nat
  componentRecords :: "component \<rightharpoonup> 'rec"
  queries :: "qref set"
  queriesHashMap :: "string \<rightharpoonup> qref"
  notQueries :: "qref set"
  dirtyQueries :: "qref set"
  relationTargetEntities :: "relationTarget set"
  dirtyMasks :: "nat \<rightharpoonup> nat list list"
  trackingSnapshots :: "nat \<rightharpoonup> nat list list"
  changedMasks :: "nat \<rightharpoonup> nat list list"
  worldEntity :: "entity option"

text \<open>
  The process-wide \<^verbatim>\<open>universe\<close>: the world index (of type \<open>'wi\<close>), the array of worlds,
  which may have holes, and the cached queries, a \<^verbatim>\<open>Map\<close> in insertion order.
\<close>

record 'wi universe =
  worldIndex :: 'wi
  worlds :: "wref option list"
  cachedQueries :: "(string \<times> queryParameter list) list"

text \<open>
  Everything a function of another module can reach when it is handed the world: the
  internal state, the public \<^verbatim>\<open>components\<close> set, the universe, and the objects the other
  modules own (the queries, the tracking cursor), of type \<open>'h\<close>.
\<close>

record ('ei, 'rec, 'wi, 'h) shared =
  ctx :: "('ei, 'rec) internal"
  components :: "component set"
  universe :: "'wi universe"
  heap :: 'h

text \<open>
  The calls a method of \<^verbatim>\<open>World\<close> makes into the other modules are recorded in order,
  with their arguments and, for a constructor, the object it returned.
\<close>

datatype call =
    AllocateWorldId nat
  | ReleaseWorldId nat
  | CreateEntity "componentOrWithParams list" entity
  | DestroyEntity entity
  | NewQuery "queryParameter list" qref
  | RunQuery qref
  | SetTrackingMasks nat
  | EntityHas entity component
  | EntityAdd entity "componentOrWithParams list"
  | EntityRemove entity "component list"
  | EntityGet entity component
  | EntitySet entity component props
  | EntityDestroy entity
  | GetStore component
  | SetChanged entity component
  | GetRelationTargets relation entity
  | NewComponentRecord component

text \<open>
  A \<^verbatim>\<open>World\<close> object: its identity, the private fields \<^verbatim>\<open>#id\<close> and
  \<^verbatim>\<open>#isInitialized\<close>, which only the class itself can write, the shared state, and the
  calls made so far.
\<close>

record ('ei, 'rec, 'wi, 'h) world =
  self :: wref
  world_id :: nat
  isInitialized :: bool
  shared :: "('ei, 'rec, 'wi, 'h) shared"
  calls :: "call list"

subsection \<open>The imports of world.ts\<close>

text \<open>
  The functions that \<^verbatim>\<open>world.ts\<close> imports are parameters of the model. A function that is
  handed the world receives the world's id and the shared state and returns its result with
  the new shared state; \<^verbatim>\<open>releaseWorldId\<close> and \<^verbatim>\<open>allocateWorldId\<close> are handed the world
  index, the functions of the entity index are handed the index. \<open>Entity_has\<close> to
  \<open>Entity_destroy\<close> are the methods of an entity, \<open>Query_new\<close> is the constructor of
  \<^verbatim>\<open>Query\<close> and \<open>Query_run\<close> its method \<^verbatim>\<open>run\<close>; \<open>Query_subscriptions_add\<close> and
  \<open>changedSubscriptions_add\<close> add a callback to the subscription set of a query and of a
  component record.
\<close>

record ('ei, 'rec, 'wi, 'h) deps =
  allocateWorldId :: "'wi \<Rightarrow> nat \<times> 'wi"
  releaseWorldId :: "'wi \<Rightarrow> nat \<Rightarrow> 'wi"
  createEntityIndex :: "nat \<Rightarrow> 'ei"
  getAliveEntities :: "'ei \<Rightarrow> entity list"
  isEntityAlive :: "'ei \<Rightarrow> entity \<Rightarrow> bool"
  createEntity :: "nat \<Rightarrow> componentOrWithParams list \<Rightarrow> ('ei, 'rec, 'wi, 'h) shared
     \<Rightarrow> entity \<times> ('ei, 'rec, 'wi, 'h) shared"
  destroyEntity :: "nat \<Rightarrow> entity \<Rightarrow> ('ei, 'rec, 'wi, 'h) shared
     \<Rightarrow> unit \<times> ('ei, 'rec, 'wi, 'h) shared"
  Query_new :: "nat \<Rightarrow> queryParameter list \<Rightarrow> ('ei, 'rec, 'wi, 'h) shared
     \<Rightarrow> qref \<times> ('ei, 'rec, 'wi, 'h) shared"
  Query_run :: "qref \<Rightarrow> nat \<Rightarrow> ('ei, 'rec, 'wi, 'h) shared
     \<Rightarrow> entity list \<times> ('ei, 'rec, 'wi, 'h) shared"
  Query_subscriptions_add :: "qref \<Rightarrow> callback \<Rightarrow> 'h \<Rightarrow> 'h"
  createQueryHash :: "queryParameter list \<Rightarrow> string"
  getTrackingCursor :: "'h \<Rightarrow> nat"
  setTrackingMasks :: "nat \<Rightarrow> nat \<Rightarrow> ('ei, 'rec, 'wi, 'h) shared
     \<Rightarrow> unit \<times> ('ei, 'rec, 'wi, 'h) shared"
  Entity_has :: "entity \<Rightarrow> component \<Rightarrow> ('ei, 'rec, 'wi, 'h) shared
     \<Rightarrow> bool \<times> ('ei, 'rec, 'wi, 'h) shared"
  Entity_add :: "entity \<Rightarrow> componentOrWithParams list \<Rightarrow> ('ei, 'rec, 'wi, 'h) shared
     \<Rightarrow> unit \<times> ('ei, 'rec, 'wi, 'h) shared"
  Entity_remove :: "entity \<Rightarrow> component list \<Rightarrow> ('ei, 'rec, 'wi, 'h) shared
     \<Rightarrow> unit \<times> ('ei, 'rec, 'wi, 'h) shared"
  Entity_get :: "entity \<Rightarrow> component \<Rightarrow> ('ei, 'rec, 'wi, 'h) shared
     \<Rightarrow> props option \<times> ('ei, 'rec, 'wi, 'h) shared"
  Entity_set :: "entity \<Rightarrow> component \<Rightarrow> props \<Rightarrow> ('ei, 'rec, 'wi, 'h) shared
     \<Rightarrow> unit \<times> ('ei, 'rec, 'wi, 'h) shared"
  Entity_destroy :: "entity \<Rightarrow> ('ei, 'rec, 'wi, 'h) shared
     \<Rightarrow> unit \<times> ('ei, 'rec, 'wi, 'h) shared"
  getStore :: "nat \<Rightarrow> component \<Rightarrow> ('ei, 'rec, 'wi, 'h) shared
     \<Rightarrow> store \<times> ('ei, 'rec, 'wi, 'h) shared"
  setChanged :: "nat \<Rightarrow> entity \<Rightarrow> component \<Rightarrow> ('ei, 'rec, 'wi, 'h) shared
     \<Rightarrow> unit \<times> ('ei, 'rec, 'wi, 'h) shared"
  getRelationTargets :: "nat \<Rightarrow> relation \<Rightarrow> entity \<Rightarrow> ('ei, 'rec, 'wi, 'h) shared
     \<Rightarrow> relationTarget list \<times> ('ei, 'rec, 'wi, 'h) shared"
  ComponentRecord_new :: "nat \<Rightarrow> component \<Rightarrow> ('ei, 'rec, 'wi, 'h) shared
     \<Rightarrow> 'rec \<times> ('ei, 'rec, 'wi, 'h) shared"
  changedSubscriptions_add :: "callback \<Rightarrow> 'rec \<Rightarrow> 'rec"

subsection \<open>JavaScript arrays with holes\<close>

text \<open>
  \<^verbatim>\<open>xs[i] = v\<close> extends the array when \<open>i\<close> is past its end. \<^verbatim>\<open>xs.indexOf(x)\<close> is the
  first index that holds \<open>x\<close>, or -1. \<^verbatim>\<open>xs.splice(start, deleteCount)\<close> counts a negative
  \<open>start\<close> from the end of the array, so \<^verbatim>\<open>splice(-1, 1)\<close> removes the last element.
\<close>

definition array_put :: "'a option list \<Rightarrow> nat \<Rightarrow> 'a \<Rightarrow> 'a option list" where
  "array_put xs i v =
     (if i < length xs then xs[i := Some v]
      else xs @ replicate (i - length xs) None @ [Some v])"

fun indexOf_from :: "'a option list \<Rightarrow> 'a \<Rightarrow> int \<Rightarrow> int" where
  "indexOf_from [] x i = - 1"
| "indexOf_from (y # ys) x i = (if y = Some x then i else indexOf_from ys x (i + 1))"

definition indexOf :: "'a option list \<Rightarrow> 'a \<Rightarrow> int" where
  "indexOf xs x = indexOf_from xs x 0"

definition splice :: "'a list \<Rightarrow> int \<Rightarrow> nat \<Rightarrow> 'a list" where
  "splice xs start deleteCount =
     (let len = int (length xs);
          from = (if start < 0 then max (len + start) 0 else min start len)
      in take (nat from) xs @ drop (nat from + deleteCount) xs)"

subsection \<open>Calls into the other modules\<close>

text \<open>
  \<open>invoke label f\<close> runs \<open>f\<close> on the shared state and records the call; the private
  fields of the world are out of its reach.
\<close>

definition invoke ::
  "('a \<Rightarrow> call) \<Rightarrow> (('ei, 'rec, 'wi, 'h) shared \<Rightarrow> 'a \<times> ('ei, 'rec, 'wi, 'h) shared)
   \<Rightarrow> ('ei, 'rec, 'wi, 'h) world \<Rightarrow> 'a \<times> ('ei, 'rec, 'wi, 'h) world" where
  "invoke label f w =
     (let (r, sh) = f (shared w)
      in (r, w\<lparr>shared := sh, calls := calls w @ [label r]\<rparr>))"

definition on_ctx ::
  "(('ei, 'rec) internal \<Rightarrow> ('ei, 'rec) internal)
   \<Rightarrow> ('ei, 'rec, 'wi, 'h) world \<Rightarrow> ('ei, 'rec, 'wi, 'h) world" where
  "on_ctx f w = w\<lparr>shared := (shared w)\<lparr>ctx := f (ctx (shared w))\<rparr>\<rparr>"

definition on_universe ::
  "('wi universe \<Rightarrow> 'wi universe)
   \<Rightarrow> ('ei, 'rec, 'wi, 'h) world \<Rightarrow> ('ei, 'rec, 'wi, 'h) world" where
  "on_universe f w = w\<lparr>shared := (shared w)\<lparr>universe := f (universe (shared w))\<rparr>\<rparr>"


text \<open>The calls that \<^verbatim>\<open>world.ts\<close> makes, each recorded with its arguments.\<close>

definition call_createEntity ::
  "('ei, 'rec, 'wi, 'h) deps \<Rightarrow> nat \<Rightarrow> componentOrWithParams list
   \<Rightarrow> ('ei, 'rec, 'wi, 'h) world \<Rightarrow> entity \<times> ('ei, 'rec, 'wi, 'h) world" where
  "call_createEntity D i args = invoke (CreateEntity args) (createEntity D i args)"

definition call_destroyEntity ::
  "('ei, 'rec, 'wi, 'h) deps \<Rightarrow> nat \<Rightarrow> entity
   \<Rightarrow> ('ei, 'rec, 'wi, 'h) world \<Rightarrow> unit \<times> ('ei, 'rec, 'wi, 'h) world" where
  "call_destroyEntity D i entity = invoke (\<lambda>_. DestroyEntity entity) (destroyEntity D i entity)"

definition call_Query_new ::
  "('ei, 'rec, 'wi, 'h) deps \<Rightarrow> nat \<Rightarrow> queryParameter list
   \<Rightarrow> ('ei, 'rec, 'wi, 'h) world \<Rightarrow> qref \<times> ('ei, 'rec, 'wi, 'h) world" where
  "call_Query_new D i parameters = invoke (NewQuery parameters) (Query_new D i parameters)"

definition call_Query_run ::
  "('ei, 'rec, 'wi, 'h) deps \<Rightarrow> qref \<Rightarrow> nat
   \<Rightarrow> ('ei, 'rec, 'wi, 'h) world \<Rightarrow> entity list \<times> ('ei, 'rec, 'wi, 'h) world" where
  "call_Query_run D query i = invoke (\<lambda>_. RunQuery query) (Query_run D query i)"

definition call_setTrackingMasks ::
  "('ei, 'rec, 'wi, 'h) deps \<Rightarrow> nat \<Rightarrow> nat
   \<Rightarrow> ('ei, 'rec, 'wi, 'h) world \<Rightarrow> unit \<times> ('ei, 'rec, 'wi, 'h) world" where
  "call_setTrackingMasks D i n = invoke (\<lambda>_. SetTrackingMasks n) (setTrackingMasks D i n)"

definition call_Entity_has ::
  "('ei, 'rec, 'wi, 'h) deps \<Rightarrow> entity \<Rightarrow> component
   \<Rightarrow> ('ei, 'rec, 'wi, 'h) world \<Rightarrow> bool \<times> ('ei, 'rec, 'wi, 'h) world" where
  "call_Entity_has D e c = invoke (\<lambda>_. EntityHas e c) (Entity_has D e c)"

definition call_Entity_add ::
  "('ei, 'rec, 'wi, 'h) deps \<Rightarrow> entity \<Rightarrow> componentOrWithParams list
   \<Rightarrow> ('ei, 'rec, 'wi, 'h) world \<Rightarrow> unit \<times> ('ei, 'rec, 'wi, 'h) world" where
  "call_Entity_add D e cs = invoke (\<lambda>_. EntityAdd e cs) (Entity_add D e cs)"

definition call_Entity_remove ::
  "('ei, 'rec, 'wi, 'h) deps \<Rightarrow> entity \<Rightarrow> component list
   \<Rightarrow> ('ei, 'rec, 'wi, 'h) world \<Rightarrow> unit \<times> ('ei, 'rec, 'wi, 'h) world" where
  "call_Entity_remove D e cs = invoke (\<lambda>_. EntityRemove e cs) (Entity_remove D e cs)"

definition call_Entity_get ::
  "('ei, 'rec, 'wi, 'h) deps \<Rightarrow> entity \<Rightarrow> component
   \<Rightarrow> ('ei, 'rec, 'wi, 'h) world \<Rightarrow> props option \<times> ('ei, 'rec, 'wi, 'h) world" where
  "call_Entity_get D e c = invoke (\<lambda>_. EntityGet e c) (Entity_get D e c)"

definition call_Entity_set ::
  "('ei, 'rec, 'wi, 'h) deps \<Rightarrow> entity \<Rightarrow> component \<Rightarrow> props
   \<Rightarrow> ('ei, 'rec, 'wi, 'h) world \<Rightarrow> unit \<times> ('ei, 'rec, 'wi, 'h) world" where
  "call_Entity_set D e c v = invoke (\<lambda>_. EntitySet e c v) (Entity_set D e c v)"

definition call_Entity_destroy ::
  "('ei, 'rec, 'wi, 'h) deps \<Rightarrow> entity
   \<Rightarrow> ('ei, 'rec, 'wi, 'h) world \<Rightarrow> unit \<times> ('ei, 'rec, 'wi, 'h) world" where
  "call_Entity_destroy D e = invoke (\<lambda>_. EntityDestroy e) (Entity_destroy D e)"

definition call_getStore ::
  "('ei, 'rec, 'wi, 'h) deps \<Rightarrow> nat \<Rightarrow> component
   \<Rightarrow> ('ei, 'rec, 'wi, 'h) world \<Rightarrow> store \<times> ('ei, 'rec, 'wi, 'h) world" where
  "call_getStore D i c = invoke (\<lambda>_. GetStore c) (getStore D i c)"

definition call_setChanged ::
  "('ei, 'rec, 'wi, 'h) deps \<Rightarrow> nat \<Rightarrow> entity \<Rightarrow> component
   \<Rightarrow> ('ei, 'rec, 'wi, 'h) world \<Rightarrow> unit \<times> ('ei, 'rec, 'wi, 'h) world" where
  "call_setChanged D i e c = invoke (\<lambda>_. SetChanged e c) (setChanged D i e c)"

definition call_getRelationTargets ::
  "('ei, 'rec, 'wi, 'h) deps \<Rightarrow> nat \<Rightarrow> relation \<Rightarrow> entity
   \<Rightarrow> ('ei, 'rec, 'wi, 'h) world \<Rightarrow> relationTarget list \<times> ('ei, 'rec, 'wi, 'h) world" where
  "call_getRelationTargets D i r e = invoke (\<lambda>_. GetRelationTargets r e) (getRelationTargets D i r e)"

definition call_ComponentRecord_new ::
  "('ei, 'rec, 'wi, 'h) deps \<Rightarrow> nat \<Rightarrow> component
   \<Rightarrow> ('ei, 'rec, 'wi, 'h) world \<Rightarrow> 'rec \<times> ('ei, 'rec, 'wi, 'h) world" where
  "call_ComponentRecord_new D i c = invoke (\<lambda>_. NewComponentRecord c) (ComponentRecord_new D i c)"

subsection \<open>class World\<close>

text \<open>The getter \<^verbatim>\<open>entities\<close>.\<close>

definition World_entities :: "('ei, 'rec, 'wi, 'h) deps \<Rightarrow> ('ei, 'rec, 'wi, 'h) world \<Rightarrow> entity list" where
  "World_entities D w = getAliveEntities D (entityIndex (ctx (shared w)))"

text \<open>
  \<^verbatim>\<open>Array.isArray(components) ? components : [components]\<close>, with the default \<^verbatim>\<open>[]\<close> of
  a missing argument.
\<close>

definition componentsArray ::
  "componentOrWithParams one_or_many option \<Rightarrow> componentOrWithParams list" where
  "componentsArray comps =
     (case comps of
        None \<Rightarrow> []
      | Some (Many cs) \<Rightarrow> cs
      | Some (One c) \<Rightarrow> [c])"

text \<open>
  \<^verbatim>\<open>init\<close>. The loop over \<^verbatim>\<open>universe.cachedQueries\<close> runs over the entries the map has
  when the loop starts.
\<close>

definition World_init ::
  "('ei, 'rec, 'wi, 'h) deps \<Rightarrow> componentOrWithParams one_or_many option
   \<Rightarrow> ('ei, 'rec, 'wi, 'h) world \<Rightarrow> ('ei, 'rec, 'wi, 'h) world" where
  "World_init D comps w =
     (if isInitialized w then w
      else
        let w1 = w\<lparr>isInitialized := True\<rparr>;
            w2 = on_universe (\<lambda>u. u\<lparr>worlds := array_put (worlds u) (world_id w) (self w)\<rparr>) w1;
            cursor = getTrackingCursor D (heap (shared w2));
            w3 = fold (\<lambda>i. snd \<circ> call_setTrackingMasks D (world_id w) i)
                   [0..<cursor] w2;
            w4 = fold (\<lambda>(hash, parameters) w'.
                     let (query, w'') = call_Query_new D (world_id w) parameters w'
                     in on_ctx (\<lambda>c. c\<lparr>queriesHashMap := (queriesHashMap c)(hash \<mapsto> query)\<rparr>) w'')
                   (cachedQueries (universe (shared w3))) w3;
            args = Comp IsExcluded # componentsArray comps;
            (e, w5) = call_createEntity D (world_id w) args w4
        in on_ctx (\<lambda>c. c\<lparr>worldEntity := Some e\<rparr>) w5)"

definition World_spawn ::
  "('ei, 'rec, 'wi, 'h) deps \<Rightarrow> componentOrWithParams list
   \<Rightarrow> ('ei, 'rec, 'wi, 'h) world \<Rightarrow> entity \<times> ('ei, 'rec, 'wi, 'h) world" where
  "World_spawn D comps w =
     call_createEntity D (world_id w) comps w"

text \<open>
  A method called on \<^verbatim>\<open>this[$internal].worldEntity\<close>: the world entity is \<^verbatim>\<open>null\<close>
  after \<^verbatim>\<open>destroy\<close>, and a method call on \<^verbatim>\<open>null\<close> throws a TypeError.
\<close>

definition on_worldEntity ::
  "('ei, 'rec, 'wi, 'h) world
   \<Rightarrow> (entity \<Rightarrow> 'a \<times> ('ei, 'rec, 'wi, 'h) world)
   \<Rightarrow> (error + 'a) \<times> ('ei, 'rec, 'wi, 'h) world" where
  "on_worldEntity w method =
     (case worldEntity (ctx (shared w)) of
        None \<Rightarrow> (Inl TypeError, w)
      | Some e \<Rightarrow> (let (r, w') = method e in (Inr r, w')))"

text \<open>The argument of \<^verbatim>\<open>has\<close>: an entity is a number, a component is not.\<close>

datatype has_target = OfEntity entity | OfComponent component

definition World_has ::
  "('ei, 'rec, 'wi, 'h) deps \<Rightarrow> has_target
   \<Rightarrow> ('ei, 'rec, 'wi, 'h) world \<Rightarrow> (error + bool) \<times> ('ei, 'rec, 'wi, 'h) world" where
  "World_has D target w =
     (case target of
        OfEntity e \<Rightarrow> (Inr (isEntityAlive D (entityIndex (ctx (shared w))) e), w)
      | OfComponent c \<Rightarrow>
          on_worldEntity w (\<lambda>e. call_Entity_has D e c w))"

definition World_add ::
  "('ei, 'rec, 'wi, 'h) deps \<Rightarrow> componentOrWithParams list
   \<Rightarrow> ('ei, 'rec, 'wi, 'h) world \<Rightarrow> (error + unit) \<times> ('ei, 'rec, 'wi, 'h) world" where
  "World_add D comps w =
     on_worldEntity w (\<lambda>e. call_Entity_add D e comps w)"

definition World_remove ::
  "('ei, 'rec, 'wi, 'h) deps \<Rightarrow> component list
   \<Rightarrow> ('ei, 'rec, 'wi, 'h) world \<Rightarrow> (error + unit) \<times> ('ei, 'rec, 'wi, 'h) world" where
  "World_remove D comps w =
     on_worldEntity w (\<lambda>e. call_Entity_remove D e comps w)"

definition World_get ::
  "('ei, 'rec, 'wi, 'h) deps \<Rightarrow> component
   \<Rightarrow> ('ei, 'rec, 'wi, 'h) world \<Rightarrow> (error + props option) \<times> ('ei, 'rec, 'wi, 'h) world" where
  "World_get D component w =
     on_worldEntity w (\<lambda>e. call_Entity_get D e component w)"

definition World_set ::
  "('ei, 'rec, 'wi, 'h) deps \<Rightarrow> component \<Rightarrow> props
   \<Rightarrow> ('ei, 'rec, 'wi, 'h) world \<Rightarrow> (error + unit) \<times> ('ei, 'rec, 'wi, 'h) world" where
  "World_set D component val w =
     on_worldEntity w (\<lambda>e. call_Entity_set D e component val w)"

fun getStores ::
  "('ei, 'rec, 'wi, 'h) deps \<Rightarrow> component list
   \<Rightarrow> ('ei, 'rec, 'wi, 'h) world \<Rightarrow> store list \<times> ('ei, 'rec, 'wi, 'h) world" where
  "getStores D [] w = ([], w)"
| "getStores D (component # cs) w =
     (let (s, w1) = call_getStore D (world_id w) component w;
          (ss, w2) = getStores D cs w1
      in (s # ss, w2))"

definition World_getStore ::
  "('ei, 'rec, 'wi, 'h) deps \<Rightarrow> component list
   \<Rightarrow> ('ei, 'rec, 'wi, 'h) world \<Rightarrow> store one_or_many \<times> ('ei, 'rec, 'wi, 'h) world" where
  "World_getStore D comps w =
     (let (stores, w') = getStores D comps w
      in (if length comps = 1 then One (hd stores) else Many stores, w'))"

text \<open>
  \<^verbatim>\<open>reset\<close>. An array is truthy, so \<^verbatim>\<open>if (this.entities)\<close> always takes the branch; the
  entities it destroys are those of the entity index just created.
\<close>

definition World_reset ::
  "('ei, 'rec, 'wi, 'h) deps
   \<Rightarrow> ('ei, 'rec, 'wi, 'h) world \<Rightarrow> ('ei, 'rec, 'wi, 'h) world" where
  "World_reset D w =
     (let w1 = on_ctx (\<lambda>c. c\<lparr>entityIndex := createEntityIndex D (world_id w),
                              entityComponents := Map.empty,
                              notQueries := {},
                              entityMasks := [[]],
                              bitflag := 1\<rparr>) w;
          w2 = fold (\<lambda>entity. snd \<circ> call_Entity_destroy D entity)
                 (World_entities D w1) w1;
          w3 = on_ctx (\<lambda>c. c\<lparr>componentRecords := Map.empty\<rparr>) w2;
          w4 = w3\<lparr>shared := (shared w3)\<lparr>components := {}\<rparr>\<rparr>;
          w5 = on_ctx (\<lambda>c. c\<lparr>queries := {},
                              queriesHashMap := Map.empty,
                              dirtyQueries := {},
                              relationTargetEntities := {},
                              trackingSnapshots := Map.empty,
                              dirtyMasks := Map.empty,
                              changedMasks := Map.empty\<rparr>) w4;
          (e, w6) = call_createEntity D (world_id w) [Comp IsExcluded] w5
      in on_ctx (\<lambda>c. c\<lparr>worldEntity := Some e\<rparr>) w6)"

text \<open>
  \<^verbatim>\<open>destroy\<close>. \<^verbatim>\<open>forEach\<close> runs over the array the getter returned. The world entity is
  never \<^verbatim>\<open>null\<close> at the last call of \<^verbatim>\<open>destroyEntity\<close>, because \<^verbatim>\<open>reset\<close> has just set it.
\<close>

definition World_destroy ::
  "('ei, 'rec, 'wi, 'h) deps
   \<Rightarrow> ('ei, 'rec, 'wi, 'h) world \<Rightarrow> ('ei, 'rec, 'wi, 'h) world" where
  "World_destroy D w =
     (let w1 = fold (\<lambda>entity. snd \<circ> call_destroyEntity D (world_id w) entity)
                 (World_entities D w) w;
          w2 = World_reset D w1;
          w3 = w2\<lparr>isInitialized := False\<rparr>;
          w4 = (on_universe (\<lambda>u. u\<lparr>worldIndex := releaseWorldId D (worldIndex u) (world_id w)\<rparr>) w3)
                 \<lparr>calls := calls w3 @ [ReleaseWorldId (world_id w)]\<rparr>;
          w5 = on_universe (\<lambda>u. u\<lparr>worlds := splice (worlds u) (indexOf (worlds u) (self w)) 1\<rparr>) w4;
          w6 = (case worldEntity (ctx (shared w5)) of
                  None \<Rightarrow> w5
                | Some e \<Rightarrow> snd (call_destroyEntity D (world_id w) e w5))
      in on_ctx (\<lambda>c. c\<lparr>worldEntity := None\<rparr>) w6)"

definition World_getTargets ::
  "('ei, 'rec, 'wi, 'h) deps \<Rightarrow> relation \<Rightarrow> entity
   \<Rightarrow> ('ei, 'rec, 'wi, 'h) world \<Rightarrow> relationTarget list \<times> ('ei, 'rec, 'wi, 'h) world" where
  "World_getTargets D relation entity w =
     call_getRelationTargets D (world_id w) relation entity w"

text \<open>The arguments of \<^verbatim>\<open>query\<close>: a string key, or a list of parameters.\<close>

datatype query_args = Key string | Parameters "queryParameter list"

definition World_query ::
  "('ei, 'rec, 'wi, 'h) deps \<Rightarrow> query_args
   \<Rightarrow> ('ei, 'rec, 'wi, 'h) world \<Rightarrow> entity list \<times> ('ei, 'rec, 'wi, 'h) world" where
  "World_query D args w =
     (case args of
        Key key \<Rightarrow>
          (case queriesHashMap (ctx (shared w)) key of
             None \<Rightarrow> ([], w)
           | Some query \<Rightarrow> call_Query_run D query (world_id w) w)
      | Parameters parameters \<Rightarrow>
          (let hash = createQueryHash D parameters
           in case queriesHashMap (ctx (shared w)) hash of
                None \<Rightarrow>
                  (let (query, w1) = call_Query_new D (world_id w) parameters w;
                       w2 = on_ctx (\<lambda>c. c\<lparr>queriesHashMap := (queriesHashMap c)(hash \<mapsto> query)\<rparr>) w1
                   in call_Query_run D query (world_id w) w2)
              | Some query \<Rightarrow> call_Query_run D query (world_id w) w))"

text \<open>
  The closure a \<^verbatim>\<open>subscribe\<close> returns, represented by what it captures.
  \<^verbatim>\<open>query.subscribe\<close> is bound to a world by \<^verbatim>\<open>Object.assign(query, {...})\<close> on the one
  function \<^verbatim>\<open>query\<close> of the module, so it belongs to the world constructed last;
  \<open>World_query_subscribe\<close> is the call on that world.
\<close>

datatype unsubscribe = UnsubscribeQuery qref callback | UnsubscribeChanged component callback

definition World_query_subscribe ::
  "('ei, 'rec, 'wi, 'h) deps \<Rightarrow> queryParameter list \<Rightarrow> callback
   \<Rightarrow> ('ei, 'rec, 'wi, 'h) world \<Rightarrow> unsubscribe \<times> ('ei, 'rec, 'wi, 'h) world" where
  "World_query_subscribe D parameters callback w =
     (let hash = createQueryHash D parameters;
          (query, w2) =
            (case queriesHashMap (ctx (shared w)) hash of
               None \<Rightarrow>
                 (let (query, w1) = call_Query_new D (world_id w) parameters w
                  in (query, on_ctx (\<lambda>c. c\<lparr>queriesHashMap := (queriesHashMap c)(hash \<mapsto> query)\<rparr>) w1))
             | Some query \<Rightarrow> (query, w));
          w3 = w2\<lparr>shared := (shared w2)\<lparr>heap := Query_subscriptions_add D query callback (heap (shared w2))\<rparr>\<rparr>
      in (UnsubscribeQuery query callback, w3))"

definition World_changed ::
  "('ei, 'rec, 'wi, 'h) deps \<Rightarrow> entity \<Rightarrow> component
   \<Rightarrow> ('ei, 'rec, 'wi, 'h) world \<Rightarrow> ('ei, 'rec, 'wi, 'h) world" where
  "World_changed D entity component w =
     snd (call_setChanged D (world_id w) entity component w)"

definition World_changed_subscribe ::
  "('ei, 'rec, 'wi, 'h) deps \<Rightarrow> component \<Rightarrow> callback
   \<Rightarrow> ('ei, 'rec, 'wi, 'h) world \<Rightarrow> unsubscribe \<times> ('ei, 'rec, 'wi, 'h) world" where
  "World_changed_subscribe D component callback w =
     (let (rec, w1) =
            (case componentRecords (ctx (shared w)) component of
               None \<Rightarrow> call_ComponentRecord_new D (world_id w) component w
             | Some rec \<Rightarrow> (rec, w));
          w2 = on_ctx (\<lambda>c. c\<lparr>componentRecords :=
                 (componentRecords c)(component \<mapsto> changedSubscriptions_add D callback rec)\<rparr>) w1
      in (UnsubscribeChanged component callback, w2))"


text \<open>
  A new object of the class: the field initialisers (\<^verbatim>\<open>#id = allocateWorldId(...)\<close>, the
  internal state, \<^verbatim>\<open>#isInitialized = false\<close>, an empty \<^verbatim>\<open>components\<close> set), and then the
  constructor, which calls \<^verbatim>\<open>this.init(components)\<close>.
\<close>

definition World_fields ::
  "('ei, 'rec, 'wi, 'h) deps \<Rightarrow> wref \<Rightarrow> 'wi universe \<Rightarrow> 'h \<Rightarrow> ('ei, 'rec, 'wi, 'h) world" where
  "World_fields D this u h =
     (let (i, wi) = allocateWorldId D (worldIndex u)
      in \<lparr>self = this,
          world_id = i,
          isInitialized = False,
          shared =
            \<lparr>ctx =
               \<lparr>entityIndex = createEntityIndex D i,
                entityMasks = [[]],
                entityComponents = Map.empty,
                bitflag = 1,
                componentRecords = Map.empty,
                queries = {},
                queriesHashMap = Map.empty,
                notQueries = {},
                dirtyQueries = {},
                relationTargetEntities = {},
                dirtyMasks = Map.empty,
                trackingSnapshots = Map.empty,
                changedMasks = Map.empty,
                worldEntity = None\<rparr>,
             components = {},
             universe = u\<lparr>worldIndex := wi\<rparr>,
             heap = h\<rparr>,
          calls = [AllocateWorldId i]\<rparr>)"

definition World_new ::
  "('ei, 'rec, 'wi, 'h) deps \<Rightarrow> wref \<Rightarrow> componentOrWithParams one_or_many option
   \<Rightarrow> 'wi universe \<Rightarrow> 'h \<Rightarrow> ('ei, 'rec, 'wi, 'h) world" where
  "World_new D this comps u h = World_init D comps (World_fields D this u h)"

text \<open>\<^verbatim>\<open>createWorld(components)\<close> is \<^verbatim>\<open>new World(components)\<close>.\<close>

definition createWorld ::
  "('ei, 'rec, 'wi, 'h) deps \<Rightarrow> wref \<Rightarrow> componentOrWithParams one_or_many option
   \<Rightarrow> 'wi universe \<Rightarrow> 'h \<Rightarrow> ('ei, 'rec, 'wi, 'h) world" where
  "createWorld D this comps u h = World_new D this comps u h"

subsection \<open>The methods of a world as operations\<close>

datatype operation =
    Init "componentOrWithParams one_or_many option"
  | Spawn "componentOrWithParams list"
  | Has has_target
  | Add "componentOrWithParams list"
  | Remove "component list"
  | Get component
  | Set component props
  | GetStore "component list"
  | Destroy
  | Reset
  | GetTargets relation entity
  | Query query_args
  | Subscribe "queryParameter list" callback
  | ChangedCall entity component
  | ChangedSubscribe component callback

fun exec ::
  "('ei, 'rec, 'wi, 'h) deps \<Rightarrow> operation
   \<Rightarrow> ('ei, 'rec, 'wi, 'h) world \<Rightarrow> ('ei, 'rec, 'wi, 'h) world" where
  "exec D (Init comps) w = World_init D comps w"
| "exec D (Spawn comps) w = snd (World_spawn D comps w)"
| "exec D (Has target) w = snd (World_has D target w)"
| "exec D (Add comps) w = snd (World_add D comps w)"
| "exec D (Remove comps) w = snd (World_remove D comps w)"
| "exec D (Get component) w = snd (World_get D component w)"
| "exec D (Set component val) w = snd (World_set D component val w)"
| "exec D (GetStore comps) w = snd (World_getStore D comps w)"
| "exec D Destroy w = World_destroy D w"
| "exec D Reset w = World_reset D w"
| "exec D (GetTargets relation entity) w = snd (World_getTargets D relation entity w)"
| "exec D (Query args) w = snd (World_query D args w)"
| "exec D (Subscribe parameters callback) w = snd (World_query_subscribe D parameters callback w)"
| "exec D (ChangedCall entity component) w = World_changed D entity component w"
| "exec D (ChangedSubscribe component callback) w =
     snd (World_changed_subscribe D component callback w)"

subsection \<open>What is assumed of the other modules\<close>



definition keeps_universe ::
  "(('ei, 'rec, 'wi, 'h) shared \<Rightarrow> 'a \<times> ('ei, 'rec, 'wi, 'h) shared) \<Rightarrow> bool" where
  "keeps_universe f = (\<forall>s. universe (snd (f s)) = universe s)"

definition entities_keep_universe :: "('ei, 'rec, 'wi, 'h) deps \<Rightarrow> bool" where
  "entities_keep_universe D =
     ((\<forall>i cs. keeps_universe (createEntity D i cs))
    \<and> (\<forall>i e. keeps_universe (destroyEntity D i e))
    \<and> (\<forall>e. keeps_universe (Entity_destroy D e)))"

definition fresh_index_empty :: "('ei, 'rec, 'wi, 'h) deps \<Rightarrow> bool" where
  "fresh_index_empty D = (\<forall>i. getAliveEntities D (createEntityIndex D i) = [])"


text \<open>
  The state that the assignments and \<^verbatim>\<open>clear()\<close> calls of \<^verbatim>\<open>reset\<close> describe, before
  the new world entity is created: a fresh entity index, \<^verbatim>\<open>entityMasks = [[]]\<close>,
  \<^verbatim>\<open>bitflag = 1\<close>, every map and set of the world empty. The world's id, its
  initialisation flag, the universe and the objects of the other modules are as before.
\<close>

definition reset_cleared ::
  "('ei, 'rec, 'wi, 'h) deps
   \<Rightarrow> ('ei, 'rec, 'wi, 'h) world \<Rightarrow> ('ei, 'rec, 'wi, 'h) world" where
  "reset_cleared D w =
     w\<lparr>shared :=
         \<lparr>ctx =
            \<lparr>entityIndex = createEntityIndex D (world_id w),
             entityMasks = [[]],
             entityComponents = Map.empty,
             bitflag = 1,
             componentRecords = Map.empty,
             queries = {},
             queriesHashMap = Map.empty,
             notQueries = {},
             dirtyQueries = {},
             relationTargetEntities = {},
             dirtyMasks = Map.empty,
             trackingSnapshots = Map.empty,
             changedMasks = Map.empty,
             worldEntity = worldEntity (ctx (shared w))\<rparr>,
          components = {},
          universe = universe (shared w),
          heap = heap (shared w)\<rparr>\<rparr>"

section \<open>The other modules, modelled from the spec\<close>

text \<open>
  Modelled from the spec: the modules that \<^verbatim>\<open>world.ts\<close> imports, which are not part of
  the sources at hand. This section gives one instance of them, written from the
  specification: the entity index, the trait registry with its column stores, the mask
  layer and the query engine. Relations are left out of it: no trait of the instance is a
  relation pair. Subscribers are stored, and never called.
\<close>

subsection \<open>Arrays read and written with a default\<close>

text \<open>
  Modelled from the spec: the dense arrays of the entity index and of the mask layer,
  indexed by row. A slot that was never written reads as the default, and writing past the
  end extends the array.
\<close>

definition nth_or :: "'a \<Rightarrow> 'a list \<Rightarrow> nat \<Rightarrow> 'a" where
  "nth_or d xs i = (if i < length xs then xs ! i else d)"

definition put_at :: "'a \<Rightarrow> 'a list \<Rightarrow> nat \<Rightarrow> 'a \<Rightarrow> 'a list" where
  "put_at d xs i v =
     (if i < length xs then xs[i := v] else xs @ replicate (i - length xs) d @ [v])"

subsection \<open>The world index\<close>

text \<open>
  Modelled from the spec: the world index of \<^verbatim>\<open>world/utils/world-index\<close>. Worlds are
  numbered by a process-wide index with a free-list; releasing a world frees its id.
\<close>

record worldIndexRec =
  nextWorldId :: nat
  freeWorldIds :: "nat list"

definition spec_allocateWorldId :: "worldIndexRec \<Rightarrow> nat \<times> worldIndexRec" where
  "spec_allocateWorldId index =
     (case freeWorldIds index of
        [] \<Rightarrow> (nextWorldId index, index\<lparr>nextWorldId := nextWorldId index + 1\<rparr>)
      | i # rest \<Rightarrow> (i, index\<lparr>freeWorldIds := rest\<rparr>))"

definition spec_releaseWorldId :: "worldIndexRec \<Rightarrow> nat \<Rightarrow> worldIndexRec" where
  "spec_releaseWorldId index i = index\<lparr>freeWorldIds := i # freeWorldIds index\<rparr>"

subsection \<open>The entity index\<close>

text \<open>
  Modelled from the spec: the entity index of \<^verbatim>\<open>entity/utils/entity-index\<close>. Every row
  has a generation and is alive or dead; freed rows wait on a free-list.
  \<^item> allocate pops a free row if any, else appends a new one, records the row as alive and
    returns the entity with the row's current generation;
  \<^item> free validates the generation, marks the row dead, pushes it onto the free-list and
    increments the generation of the row;
  \<^item> an entity is alive when its generation matches and its row is marked alive;
  \<^item> the alive entities are listed in the order of their rows.
\<close>

record entityIndexRec =
  indexWorldId :: nat
  rows :: "(nat \<times> bool) list"
  freeRows :: "nat list"

definition spec_createEntityIndex :: "nat \<Rightarrow> entityIndexRec" where
  "spec_createEntityIndex i = \<lparr>indexWorldId = i, rows = [], freeRows = []\<rparr>"

definition allocateEntity :: "entityIndexRec \<Rightarrow> entity \<times> entityIndexRec" where
  "allocateEntity index =
     (case freeRows index of
        [] \<Rightarrow>
          (Entity 0 (indexWorldId index) (length (rows index)),
           index\<lparr>rows := rows index @ [(0, True)]\<rparr>)
      | r # rest \<Rightarrow>
          (let g = fst (nth_or (0, False) (rows index) r)
           in (Entity g (indexWorldId index) r,
               index\<lparr>rows := (rows index)[r := (g, True)], freeRows := rest\<rparr>)))"

definition spec_isEntityAlive :: "entityIndexRec \<Rightarrow> entity \<Rightarrow> bool" where
  "spec_isEntityAlive index e =
     (nth_or (0, False) (rows index) (rowIndex e) = (generation e, True))"

definition freeEntity :: "entityIndexRec \<Rightarrow> entity \<Rightarrow> entityIndexRec" where
  "freeEntity index e =
     (if spec_isEntityAlive index e
      then index\<lparr>rows := (rows index)[rowIndex e := (generation e + 1, False)],
                 freeRows := rowIndex e # freeRows index\<rparr>
      else index)"

definition spec_getAliveEntities :: "entityIndexRec \<Rightarrow> entity list" where
  "spec_getAliveEntities index =
     map (\<lambda>(r, g, alive). Entity g (indexWorldId index) r)
       (filter (\<lambda>(r, g, alive). alive) (enumerate 0 (rows index)))"

subsection \<open>The trait registry and the mask layer\<close>

text \<open>
  Modelled from the spec: the \<^verbatim>\<open>ComponentRecord\<close> of \<^verbatim>\<open>component/component-record\<close>, the
  registry entry of a trait in a world: the bitflag of the trait and the mask word it lies
  in, the column store, and the set of entities that carry the trait. The subscribers to
  changes of the trait are kept with it.
\<close>

record componentRecord =
  recBitflag :: nat
  recWord :: nat
  recStore :: store
  recEntities :: "entity set"
  changedSubscriptions :: "callback set"

text \<open>
  Modelled from the spec: the objects of class \<^verbatim>\<open>Query\<close> of \<^verbatim>\<open>query/query\<close> (a query
  holds its parameters and its subscription set) and the tracking cursor of
  \<^verbatim>\<open>query/utils/tracking-cursor\<close>, the number of trackers created so far.
\<close>

record queryObject =
  parameters :: "queryParameter list"
  subscriptions :: "callback set"

record heapRec =
  queryObjects :: "queryObject list"
  trackingCursor :: nat

type_synonym spec_shared = "(entityIndexRec, componentRecord, worldIndexRec, heapRec) shared"
type_synonym spec_world = "(entityIndexRec, componentRecord, worldIndexRec, heapRec) world"

text \<open>
  Modelled from the spec: the entity masks. A mask layer is \<^verbatim>\<open>number[][]\<close>, indexed by the
  mask word and then by the row of the entity; bit \<open>b\<close> set means that the entity carries the
  trait whose bitflag is \<open>b\<close>. A slot never written reads as 0.
\<close>

definition maskAt :: "nat list list \<Rightarrow> nat \<Rightarrow> nat \<Rightarrow> nat" where
  "maskAt masks word row = nth_or 0 (nth_or [] masks word) row"

definition putMask :: "nat list list \<Rightarrow> nat \<Rightarrow> nat \<Rightarrow> nat \<Rightarrow> nat list list" where
  "putMask masks word row m = put_at [] masks word (put_at 0 (nth_or [] masks word) row m)"

definition bitSet :: "nat list list \<Rightarrow> componentRecord \<Rightarrow> entity \<Rightarrow> bool" where
  "bitSet masks r e =
     (maskAt masks (recWord r) (rowIndex e) AND recBitflag r = recBitflag r)"

text \<open>
  Modelled from the spec: an entity carries a trait when the trait is registered in the
  world and its bit is set in the entity's mask.
\<close>

definition carries :: "spec_shared \<Rightarrow> entity \<Rightarrow> component \<Rightarrow> bool" where
  "carries sh e c =
     (case componentRecords (ctx sh) c of
        None \<Rightarrow> False
      | Some r \<Rightarrow> bitSet (entityMasks (ctx sh)) r e)"

text \<open>
  Modelled from the spec: the first use of a trait in a world. The trait gets the next free
  bitflag (1, 2, 4, ...); when the bitflags exhaust a 32-bit word, a new mask word is
  appended. One array per field of the schema is allocated, and the registry entry is
  recorded in the world's trait-to-record map and in its \<^verbatim>\<open>components\<close> set.
\<close>

definition newRecord :: "component \<Rightarrow> spec_shared \<Rightarrow> componentRecord" where
  "newRecord c sh =
     \<lparr>recBitflag = bitflag (ctx sh),
      recWord = length (entityMasks (ctx sh)) - 1,
      recStore = map_of (map (\<lambda>k. (k, [])) (Object_keys (cschema c))),
      recEntities = {},
      changedSubscriptions = {}\<rparr>"

definition registerComponent :: "component \<Rightarrow> spec_shared \<Rightarrow> spec_shared" where
  "registerComponent c sh =
     (let x = ctx sh;
          x1 = x\<lparr>componentRecords := (componentRecords x)(c \<mapsto> newRecord c sh)\<rparr>;
          x2 = (if 2 ^ 32 \<le> 2 * bitflag x
                then x1\<lparr>bitflag := 1, entityMasks := entityMasks x @ [[]]\<rparr>
                else x1\<lparr>bitflag := 2 * bitflag x\<rparr>)
      in sh\<lparr>ctx := x2, components := insert c (components sh)\<rparr>)"

text \<open>
  Modelled from the spec: marking the bit of a trait, at the row of an entity, in a layer
  (dirty or changed) of every tracker.
\<close>

definition markAll ::
  "nat \<Rightarrow> nat \<Rightarrow> nat \<Rightarrow> (nat \<rightharpoonup> nat list list) \<Rightarrow> (nat \<rightharpoonup> nat list list)" where
  "markAll word row flag layers =
     (\<lambda>t. map_option (\<lambda>masks. putMask masks word row (maskAt masks word row OR flag)) (layers t))"

text \<open>
  Modelled from the spec: \<^verbatim>\<open>set(entity, trait, partial)\<close>, a field-wise assignment with
  change detection; if a field changed, the bit of the trait is marked in the changed layer
  of every tracker. On an entity that does not carry the trait it does nothing. The
  accessors are those generated for the schema of the trait; a trait for whose schema no
  accessor is generated cannot be defined, and for such a schema nothing is read or
  written here.
\<close>

definition setComponent :: "entity \<Rightarrow> component \<Rightarrow> props \<Rightarrow> spec_shared \<Rightarrow> spec_shared" where
  "setComponent e c partial sh =
     (case componentRecords (ctx sh) c of
        None \<Rightarrow> sh
      | Some r \<Rightarrow>
          if \<not> carries sh e c then sh
          else
            (case (createGetFunction (cschema c),
                   createFastSetWithChangeDetectionFunction (cschema c)) of
               (Some get, Some setWithChangeDetection) \<Rightarrow>
                 (case get (rowIndex e) (recStore r) of
                    Inl err \<Rightarrow> sh
                  | Inr current \<Rightarrow>
                      (case setWithChangeDetection (rowIndex e) (recStore r) (current ++ partial) of
                         (Inl err, st) \<Rightarrow> sh
                       | (Inr changed, st) \<Rightarrow>
                           (let x = ctx sh
                            in sh\<lparr>ctx := x
                                 \<lparr>componentRecords := (componentRecords x)(c \<mapsto> r\<lparr>recStore := st\<rparr>),
                                  changedMasks :=
                                    (if changed
                                     then markAll (recWord r) (rowIndex e) (recBitflag r) (changedMasks x)
                                     else changedMasks x)\<rparr>\<rparr>)))
             | _ \<Rightarrow> sh))"

text \<open>
  Modelled from the spec: \<^verbatim>\<open>add(entity, trait, initial)\<close>. The trait is registered if
  needed. If the entity already carries it, the initial value is set and nothing else
  changes. Otherwise the bit is set, the entity joins the entities of the registry entry,
  the defaults overlaid by the initial values are written, and the bit is marked in the
  dirty layer of every tracker.
\<close>

definition addComponent :: "entity \<Rightarrow> component \<Rightarrow> props \<Rightarrow> spec_shared \<Rightarrow> spec_shared" where
  "addComponent e c initial sh =
     (let sh1 = (case componentRecords (ctx sh) c of
                   None \<Rightarrow> registerComponent c sh
                 | Some r \<Rightarrow> sh)
      in case componentRecords (ctx sh1) c of
           None \<Rightarrow> sh1
         | Some r \<Rightarrow>
             if carries sh1 e c then setComponent e c initial sh1
             else
               (let x = ctx sh1;
                    st = (case createFastSetFunction (cschema c) of
                            None \<Rightarrow> recStore r
                          | Some fastSet \<Rightarrow>
                              snd (fastSet (rowIndex e) (recStore r) (map_of (cschema c) ++ initial)))
                in sh1\<lparr>ctx := x
                     \<lparr>entityMasks :=
                        putMask (entityMasks x) (recWord r) (rowIndex e)
                          (maskAt (entityMasks x) (recWord r) (rowIndex e) OR recBitflag r),
                      entityComponents :=
                        (entityComponents x)
                          (e \<mapsto> insert c (case entityComponents x e of None \<Rightarrow> {} | Some cs \<Rightarrow> cs)),
                      componentRecords :=
                        (componentRecords x)
                          (c \<mapsto> r\<lparr>recStore := st, recEntities := insert e (recEntities r)\<rparr>),
                      dirtyMasks :=
                        markAll (recWord r) (rowIndex e) (recBitflag r) (dirtyMasks x)\<rparr>\<rparr>))"

fun addArgument :: "entity \<Rightarrow> componentOrWithParams \<Rightarrow> spec_shared \<Rightarrow> spec_shared" where
  "addArgument e (Comp c) sh = addComponent e c Map.empty sh"
| "addArgument e (WithParams c initial) sh = addComponent e c initial sh"

text \<open>
  Modelled from the spec: \<^verbatim>\<open>remove(entity, trait)\<close>. If the bit is unset it does nothing.
  Otherwise the bit is cleared, the entity leaves the entities of the registry entry, and
  the bit is marked in the dirty layer of every tracker.
\<close>

definition removeComponent :: "entity \<Rightarrow> component \<Rightarrow> spec_shared \<Rightarrow> spec_shared" where
  "removeComponent e c sh =
     (case componentRecords (ctx sh) c of
        None \<Rightarrow> sh
      | Some r \<Rightarrow>
          if \<not> carries sh e c then sh
          else
            (let x = ctx sh
             in sh\<lparr>ctx := x
                  \<lparr>entityMasks :=
                     putMask (entityMasks x) (recWord r) (rowIndex e)
                       (maskAt (entityMasks x) (recWord r) (rowIndex e) XOR recBitflag r),
                   entityComponents :=
                     (entityComponents x)
                       (e \<mapsto> (case entityComponents x e of None \<Rightarrow> {} | Some cs \<Rightarrow> cs) - {c}),
                   componentRecords :=
                     (componentRecords x)(c \<mapsto> r\<lparr>recEntities := recEntities r - {e}\<rparr>),
                   dirtyMasks :=
                     markAll (recWord r) (rowIndex e) (recBitflag r) (dirtyMasks x)\<rparr>\<rparr>))"

text \<open>
  Modelled from the spec: \<^verbatim>\<open>createEntity(world, ...traits)\<close> of \<^verbatim>\<open>entity/entity\<close>
  allocates an entity and adds the given traits to it, in order.
\<close>

definition spec_createEntity ::
  "nat \<Rightarrow> componentOrWithParams list \<Rightarrow> spec_shared \<Rightarrow> entity \<times> spec_shared" where
  "spec_createEntity i args sh =
     (let (e, index) = allocateEntity (entityIndex (ctx sh))
      in (e, fold (addArgument e) args (sh\<lparr>ctx := (ctx sh)\<lparr>entityIndex := index\<rparr>\<rparr>)))"

text \<open>
  Modelled from the spec: \<^verbatim>\<open>destroyEntity(world, entity)\<close> of \<^verbatim>\<open>entity/entity\<close>. Every
  trait in the mask of the entity is removed (its bit cleared, the entity dropped from the
  registry entry, the bit marked dirty), then the entity is freed in the index. A stale
  entity is left alone.
\<close>

definition clearRow :: "nat \<Rightarrow> nat list list \<Rightarrow> nat list list" where
  "clearRow row masks = map (\<lambda>column. if row < length column then column[row := 0] else column) masks"

definition markRow :: "nat list list \<Rightarrow> nat \<Rightarrow> nat list list \<Rightarrow> nat list list" where
  "markRow current row masks =
     fold (\<lambda>word ms. putMask ms word row (maskAt ms word row OR maskAt current word row))
       [0..<length current] masks"

definition destroyOne :: "entity \<Rightarrow> spec_shared \<Rightarrow> spec_shared" where
  "destroyOne e sh =
     (let x = ctx sh
      in if \<not> spec_isEntityAlive (entityIndex x) e then sh
         else sh\<lparr>ctx := x
                \<lparr>entityIndex := freeEntity (entityIndex x) e,
                 entityMasks := clearRow (rowIndex e) (entityMasks x),
                 entityComponents := (entityComponents x)(e := None),
                 componentRecords :=
                   (\<lambda>c. map_option (\<lambda>r. r\<lparr>recEntities := recEntities r - {e}\<rparr>)
                          (componentRecords x c)),
                 dirtyMasks :=
                   (\<lambda>t. map_option (markRow (entityMasks x) (rowIndex e)) (dirtyMasks x t))\<rparr>\<rparr>)"

definition spec_destroyEntity :: "nat \<Rightarrow> entity \<Rightarrow> spec_shared \<Rightarrow> unit \<times> spec_shared" where
  "spec_destroyEntity i e sh = ((), destroyOne e sh)"

subsection \<open>The methods of an entity\<close>

text \<open>
  Modelled from the spec: the entity-centric operations \<^verbatim>\<open>has\<close>, \<^verbatim>\<open>add\<close>, \<^verbatim>\<open>remove\<close>,
  \<^verbatim>\<open>get\<close>, \<^verbatim>\<open>set\<close> and \<^verbatim>\<open>destroy\<close>; \<^verbatim>\<open>get\<close> returns a snapshot record.
\<close>

definition spec_Entity_has :: "entity \<Rightarrow> component \<Rightarrow> spec_shared \<Rightarrow> bool \<times> spec_shared" where
  "spec_Entity_has e c sh = (carries sh e c, sh)"

definition spec_Entity_add ::
  "entity \<Rightarrow> componentOrWithParams list \<Rightarrow> spec_shared \<Rightarrow> unit \<times> spec_shared" where
  "spec_Entity_add e args sh = ((), fold (addArgument e) args sh)"

definition spec_Entity_remove ::
  "entity \<Rightarrow> component list \<Rightarrow> spec_shared \<Rightarrow> unit \<times> spec_shared" where
  "spec_Entity_remove e cs sh = ((), fold (removeComponent e) cs sh)"

definition spec_Entity_get ::
  "entity \<Rightarrow> component \<Rightarrow> spec_shared \<Rightarrow> props option \<times> spec_shared" where
  "spec_Entity_get e c sh =
     (case componentRecords (ctx sh) c of
        None \<Rightarrow> (None, sh)
      | Some r \<Rightarrow>
          if \<not> carries sh e c then (None, sh)
          else
            (case createGetFunction (cschema c) of
               None \<Rightarrow> (None, sh)
             | Some get \<Rightarrow>
                 (case get (rowIndex e) (recStore r) of
                    Inl err \<Rightarrow> (None, sh)
                  | Inr current \<Rightarrow> (Some current, sh))))"

definition spec_Entity_set ::
  "entity \<Rightarrow> component \<Rightarrow> props \<Rightarrow> spec_shared \<Rightarrow> unit \<times> spec_shared" where
  "spec_Entity_set e c partial sh = ((), setComponent e c partial sh)"

definition spec_Entity_destroy :: "entity \<Rightarrow> spec_shared \<Rightarrow> unit \<times> spec_shared" where
  "spec_Entity_destroy e sh = ((), destroyOne e sh)"

subsection \<open>The query engine\<close>

text \<open>
  Modelled from the spec: the parameter list is canonicalized and hashed to a string, so
  that two lists that differ only in the order of their parameters hash equal. A trait
  is identified by its id.
\<close>

fun string_of_nat :: "nat \<Rightarrow> string" where
  "string_of_nat n =
     (if n < 10 then [''0123456789'' ! n]
      else string_of_nat (n div 10) @ [''0123456789'' ! (n mod 10)])"

fun parameterKey :: "queryParameter \<Rightarrow> nat list" where
  "parameterKey (All c) = [0, cid c]"
| "parameterKey (Any cs) = 1 # sort (map cid cs)"
| "parameterKey (Not c) = [2, cid c]"
| "parameterKey (Added t c) = [3, t, cid c]"
| "parameterKey (Removed t c) = [4, t, cid c]"
| "parameterKey (Changed t c) = [5, t, cid c]"

definition spec_createQueryHash :: "queryParameter list \<Rightarrow> string" where
  "spec_createQueryHash ps =
     concat (map (\<lambda>k. concat (map (\<lambda>n. string_of_nat n @ '','') k) @ '';'')
               (sort (map parameterKey ps)))"

text \<open>
  Modelled from the spec: the constructor of \<^verbatim>\<open>Query\<close>. A query referencing an
  unregistered trait is constructible and registers nothing. The new query joins the
  queries of the world.
\<close>

definition spec_Query_new ::
  "nat \<Rightarrow> queryParameter list \<Rightarrow> spec_shared \<Rightarrow> qref \<times> spec_shared" where
  "spec_Query_new i ps sh =
     (let q = length (queryObjects (heap sh))
      in (q, sh\<lparr>ctx := (ctx sh)\<lparr>queries := insert q (queries (ctx sh))\<rparr>,
                heap := (heap sh)\<lparr>queryObjects :=
                          queryObjects (heap sh) @ [\<lparr>parameters = ps, subscriptions = {}\<rparr>]\<rparr>\<rparr>))"

definition spec_subscriptions_add :: "qref \<Rightarrow> callback \<Rightarrow> heapRec \<Rightarrow> heapRec" where
  "spec_subscriptions_add q cb h =
     (if q < length (queryObjects h)
      then h\<lparr>queryObjects :=
               (queryObjects h)
                 [q := (queryObjects h ! q)\<lparr>subscriptions := insert cb (subscriptions (queryObjects h ! q))\<rparr>]\<rparr>
      else h)"

text \<open>
  Modelled from the spec: the predicate of a parameter on an entity. \<open>All\<close> requires the
  bit set, \<open>Any\<close> at least one bit set (so \<open>Any []\<close> is false), \<open>Not\<close> the bit unset (so it
  holds of every entity for an unregistered trait); \<open>Added\<close> holds when the bit is set now
  and not in the tracker's snapshot, \<open>Removed\<close> when it is unset now and set in the
  snapshot, \<open>Changed\<close> when the bit is set in the tracker's changed layer.
\<close>

definition inLayer ::
  "(nat \<rightharpoonup> nat list list) \<Rightarrow> nat \<Rightarrow> spec_shared \<Rightarrow> entity \<Rightarrow> component \<Rightarrow> bool" where
  "inLayer layers t sh e c =
     (case layers t of
        None \<Rightarrow> False
      | Some masks \<Rightarrow>
          (case componentRecords (ctx sh) c of
             None \<Rightarrow> False
           | Some r \<Rightarrow> bitSet masks r e))"

fun matches :: "spec_shared \<Rightarrow> entity \<Rightarrow> queryParameter \<Rightarrow> bool" where
  "matches sh e (All c) = carries sh e c"
| "matches sh e (Any cs) = list_ex (carries sh e) cs"
| "matches sh e (Not c) = (\<not> carries sh e c)"
| "matches sh e (Added t c) =
     (carries sh e c \<and> \<not> inLayer (trackingSnapshots (ctx sh)) t sh e c)"
| "matches sh e (Removed t c) =
     (\<not> carries sh e c \<and> inLayer (trackingSnapshots (ctx sh)) t sh e c)"
| "matches sh e (Changed t c) = inLayer (changedMasks (ctx sh)) t sh e c"

text \<open>
  Modelled from the spec: a tracker's layers are created with the snapshot at the current
  masks and the dirty and changed layers clear (\<^verbatim>\<open>setTrackingMasks\<close>); a query with
  \<open>Added\<close> or \<open>Removed\<close> modifiers consumes on read: after a run, the snapshot of each such
  tracker is advanced to the current masks and its dirty and changed layers are cleared.
\<close>

definition resetTracker :: "nat \<Rightarrow> spec_shared \<Rightarrow> spec_shared" where
  "resetTracker t sh =
     (let x = ctx sh
      in sh\<lparr>ctx := x\<lparr>trackingSnapshots := (trackingSnapshots x)(t \<mapsto> entityMasks x),
                      dirtyMasks := (dirtyMasks x)(t \<mapsto> []),
                      changedMasks := (changedMasks x)(t \<mapsto> [])\<rparr>\<rparr>)"

definition spec_setTrackingMasks :: "nat \<Rightarrow> nat \<Rightarrow> spec_shared \<Rightarrow> unit \<times> spec_shared" where
  "spec_setTrackingMasks i t sh = ((), resetTracker t sh)"

fun consumed :: "queryParameter list \<Rightarrow> nat list" where
  "consumed [] = []"
| "consumed (Added t c # ps) = t # consumed ps"
| "consumed (Removed t c # ps) = t # consumed ps"
| "consumed (p # ps) = consumed ps"

text \<open>
  Modelled from the spec: \<^verbatim>\<open>run\<close>. The result of a query is the list of the live entities
  whose masks satisfy every parameter; entities that carry the excluded tag are left out of
  every result.
\<close>

definition spec_Query_run :: "qref \<Rightarrow> nat \<Rightarrow> spec_shared \<Rightarrow> entity list \<times> spec_shared" where
  "spec_Query_run q i sh =
     (if q < length (queryObjects (heap sh))
      then
        (let ps = parameters (queryObjects (heap sh) ! q)
         in (filter (\<lambda>e. \<not> carries sh e IsExcluded \<and> list_all (matches sh e) ps)
               (spec_getAliveEntities (entityIndex (ctx sh))),
             fold resetTracker (consumed ps) sh))
      else ([], sh))"

subsection \<open>The remaining imports\<close>

text \<open>
  Modelled from the spec: \<^verbatim>\<open>getStore\<close> gives the low-level view of a trait's column store,
  registering the trait on first use; \<^verbatim>\<open>setChanged\<close> marks the bit of a trait that the
  entity carries in the changed layer of every tracker; the constructor of
  \<^verbatim>\<open>ComponentRecord\<close> makes a registry entry at the next free bitflag. Relations are not
  part of this instance, so an entity has no targets.
\<close>

definition spec_getStore :: "nat \<Rightarrow> component \<Rightarrow> spec_shared \<Rightarrow> store \<times> spec_shared" where
  "spec_getStore i c sh =
     (case componentRecords (ctx sh) c of
        None \<Rightarrow> (recStore (newRecord c sh), registerComponent c sh)
      | Some r \<Rightarrow> (recStore r, sh))"

definition spec_setChanged ::
  "nat \<Rightarrow> entity \<Rightarrow> component \<Rightarrow> spec_shared \<Rightarrow> unit \<times> spec_shared" where
  "spec_setChanged i e c sh =
     (case componentRecords (ctx sh) c of
        None \<Rightarrow> ((), sh)
      | Some r \<Rightarrow>
          if \<not> carries sh e c then ((), sh)
          else ((), sh\<lparr>ctx := (ctx sh)\<lparr>changedMasks :=
                  markAll (recWord r) (rowIndex e) (recBitflag r) (changedMasks (ctx sh))\<rparr>\<rparr>))"

definition spec_getRelationTargets ::
  "nat \<Rightarrow> relation \<Rightarrow> entity \<Rightarrow> spec_shared \<Rightarrow> relationTarget list \<times> spec_shared" where
  "spec_getRelationTargets i r e sh = ([], sh)"

definition spec_ComponentRecord_new ::
  "nat \<Rightarrow> component \<Rightarrow> spec_shared \<Rightarrow> componentRecord \<times> spec_shared" where
  "spec_ComponentRecord_new i c sh = (newRecord c sh, sh)"

definition spec_changedSubscriptions_add :: "callback \<Rightarrow> componentRecord \<Rightarrow> componentRecord" where
  "spec_changedSubscriptions_add cb r = r\<lparr>changedSubscriptions := insert cb (changedSubscriptions r)\<rparr>"

text \<open>Modelled from the spec: the imports of \<^verbatim>\<open>world.ts\<close>, gathered.\<close>

definition spec_deps :: "(entityIndexRec, componentRecord, worldIndexRec, heapRec) deps" where
  "spec_deps =
     \<lparr>allocateWorldId = spec_allocateWorldId,
      releaseWorldId = spec_releaseWorldId,
      createEntityIndex = spec_createEntityIndex,
      getAliveEntities = spec_getAliveEntities,
      isEntityAlive = spec_isEntityAlive,
      createEntity = spec_createEntity,
      destroyEntity = spec_destroyEntity,
      Query_new = spec_Query_new,
      Query_run = spec_Query_run,
      Query_subscriptions_add = spec_subscriptions_add,
      createQueryHash = spec_createQueryHash,
      getTrackingCursor = trackingCursor,
      setTrackingMasks = spec_setTrackingMasks,
      Entity_has = spec_Entity_has,
      Entity_add = spec_Entity_add,
      Entity_remove = spec_Entity_remove,
      Entity_get = spec_Entity_get,
      Entity_set = spec_Entity_set,
      Entity_destroy = spec_Entity_destroy,
      getStore = spec_getStore,
      setChanged = spec_setChanged,
      getRelationTargets = spec_getRelationTargets,
      ComponentRecord_new = spec_ComponentRecord_new,
      changedSubscriptions_add = spec_changedSubscriptions_add\<rparr>"

subsection \<open>The excluded tag under the operations of a world\<close>

text \<open>
  The operations of a world that leave the excluded tag on the world entity: all of them
  but \<^verbatim>\<open>world.remove\<close> called with \<open>IsExcluded\<close> itself.
\<close>

fun leaves_tag :: "operation \<Rightarrow> bool" where
  "leaves_tag (Remove cs) = (IsExcluded \<notin> set cs)"
| "leaves_tag op = True"

text \<open>
  The invariant of the instance that keeps the tag in place. \<open>tag_safe\<close>: the excluded tag is
  registered, the next bitflag is a power of two, the bit of the tag is below the next
  bitflag when the tag lives in the last mask word, and no other registry entry of that
  word shares a bit with the tag. \<open>tag_ok\<close>: moreover the world entity, if there is one,
  carries the tag. \<open>same_registry\<close>: two worlds agree on the registry, the next bitflag and
  the masks.
\<close>

definition tag_safe :: "spec_shared \<Rightarrow> bool" where
  "tag_safe sh =
     (\<exists>r0 m. componentRecords (ctx sh) IsExcluded = Some r0
        \<and> bitflag (ctx sh) = 2 ^ m
        \<and> recWord r0 < length (entityMasks (ctx sh))
        \<and> (Suc (recWord r0) = length (entityMasks (ctx sh)) \<longrightarrow> recBitflag r0 < 2 ^ m)
        \<and> (\<forall>c r. c \<noteq> IsExcluded \<and> componentRecords (ctx sh) c = Some r \<and> recWord r = recWord r0
              \<longrightarrow> recBitflag r AND recBitflag r0 = 0))"

definition tag_ok :: "spec_shared \<Rightarrow> bool" where
  "tag_ok sh =
     (tag_safe sh
      \<and> (case worldEntity (ctx sh) of
           None \<Rightarrow> True
         | Some e \<Rightarrow> carries sh e IsExcluded))"

definition same_registry :: "spec_world \<Rightarrow> spec_world \<Rightarrow> bool" where
  "same_registry w' w =
     (componentRecords (ctx (shared w')) = componentRecords (ctx (shared w))
      \<and> bitflag (ctx (shared w')) = bitflag (ctx (shared w))
      \<and> entityMasks (ctx (shared w')) = entityMasks (ctx (shared w)))"

section \<open>Example data\<close>

text \<open>A trait with two numeric fields, a store with two rows, and three value objects.\<close>

definition ex_schema :: schema where
  "ex_schema = [(''x'', JNum 0), (''y'', JNum 0)]"

definition ex_store :: store where
  "ex_store = [''x'' \<mapsto> [JNum 1, JNum 2], ''y'' \<mapsto> [JNum 3, JNum 4]]"

definition ex_partial :: props where
  "ex_partial = [''x'' \<mapsto> JNum 9, ''z'' \<mapsto> JNum 7]"

definition ex_full :: props where
  "ex_full = [''x'' \<mapsto> JNum 9, ''y'' \<mapsto> JNum 4]"

definition ex_nan :: props where
  "ex_nan = [''x'' \<mapsto> JNaN, ''y'' \<mapsto> JNum 4]"

text \<open>
  A universe without worlds, and the first world made in it: an object with its fields
  initialised, and the same object after its constructor has run.
\<close>

definition ex_universe :: "worldIndexRec universe" where
  "ex_universe =
     \<lparr>worldIndex = \<lparr>nextWorldId = 0, freeWorldIds = []\<rparr>, worlds = [], cachedQueries = []\<rparr>"

definition ex_heap :: heapRec where
  "ex_heap = \<lparr>queryObjects = [], trackingCursor = 0\<rparr>"

definition ex_blank :: spec_world where
  "ex_blank = World_fields spec_deps 7 ex_universe ex_heap"

definition ex_world :: spec_world where
  "ex_world = createWorld spec_deps 7 None ex_universe ex_heap"

text \<open>A trait with a field, a query for it, and the world after that query has run once.\<close>

definition ex_trait :: component where
  "ex_trait = Component 1 [(''x'', JNum 0)]"


text \<open>
  The example world after an entity with the trait has been spawned, and after the query
  for the trait has then run once.
\<close>

definition ex_spawned :: spec_world where
  "ex_spawned = snd (World_spawn spec_deps [Comp ex_trait] ex_world)"


text \<open>The example world after \<^verbatim>\<open>world.add(trait)\<close>, which puts the trait on the world entity.\<close>

definition ex_added :: spec_world where
  "ex_added = fold (exec spec_deps) [Add [Comp ex_trait]] ex_world"

text \<open>The example world after \<^verbatim>\<open>world.remove(IsExcluded)\<close>.\<close>

definition ex_untagged :: spec_world where
  "ex_untagged = exec spec_deps (Remove [IsExcluded]) ex_world"

text \<open>
  A world in which every collection holds something: an entity with the trait has been
  spawned and a query with a tracking modifier has run; the three sets that the instance
  never fills are given an element.
\<close>

definition ex_tracked :: "queryParameter list" where
  "ex_tracked = [Added 0 ex_trait]"

definition ex_busy :: spec_world where
  "ex_busy =
     on_ctx (\<lambda>c. c\<lparr>notQueries := {0}, dirtyQueries := {0}, relationTargetEntities := {Wildcard}\<rparr>)
       (fold (exec spec_deps) [Query (Parameters ex_tracked)] ex_spawned)"



section \<open>Arrays and comparison\<close>

lemma arr_get_set_same: "arr_get (arr_set xs i v) i = v"
  by (simp add: arr_get_def arr_set_def nth_append)

lemma arr_get_set_other: "j \<noteq> i \<Longrightarrow> arr_get (arr_set xs i v) j = arr_get xs j"
  by (auto simp: arr_get_def arr_set_def nth_append)

lemma strict_eq_same: "strict_eq a a = (a \<noteq> JNaN)"
  by (cases a) simp_all

lemma strict_neq_same: "strict_neq a a = (a = JNaN)"
  by (simp add: strict_neq_def strict_eq_same)

lemma strict_neq_NaN_right: "strict_neq a JNaN"
  by (cases a) (simp_all add: strict_neq_def)

lemma not_strict_neq_same_value_zero: "\<not> strict_neq a b \<Longrightarrow> same_value_zero a b"
  by (simp add: strict_neq_def same_value_zero_def)

lemma slot_upd_same: "slot (st(k \<mapsto> arr_set col i v)) k i = v"
  by (simp add: slot_def arr_get_set_same)

lemma slot_upd_other_key: "k' \<noteq> k \<Longrightarrow> slot (st(k \<mapsto> c)) k' j = slot st k' j"
  by (simp add: slot_def)

lemma slot_upd_other_row:
  "st k = Some col \<Longrightarrow> j \<noteq> i \<Longrightarrow> slot (st(k \<mapsto> arr_set col i v)) k' j = slot st k' j"
  by (simp add: slot_def arr_get_set_other)

lemma set_body_dom: "dom (snd (set_body ks i st v)) = dom st"
proof (induction ks arbitrary: st)
  case Nil
  then show ?case by simp
next
  case (Cons a ks)
  have IH: "dom (snd (set_body ks i st' v)) = dom st'" for st'
    by (rule Cons.IH)
  show ?case
  proof (cases "st a")
    case None
    then show ?thesis by (simp add: IH)
  next
    case (Some col)
    then have "dom (st(a \<mapsto> arr_set col i (get_prop v a))) = dom st" by auto
    with Some show ?thesis by (simp add: IH)
  qed
qed

lemma set_body_ok: "set ks \<subseteq> dom st \<Longrightarrow> fst (set_body ks i st v) = Inr ()"
proof (induction ks arbitrary: st)
  case Nil
  then show ?case by simp
next
  case (Cons a ks)
  have IH: "set ks \<subseteq> dom st' \<Longrightarrow> fst (set_body ks i st' v) = Inr ()" for st'
    by (rule Cons.IH)
  from Cons.prems obtain col where col: "st a = Some col" by auto
  have "set ks \<subseteq> dom (st(a \<mapsto> arr_set col i (get_prop v a)))"
    using Cons.prems by auto
  moreover have "set ks \<subseteq> dom st" using Cons.prems by simp
  ultimately show ?case using col by (simp add: IH)
qed

lemma set_body_column_frame:
  "k \<notin> set ks \<or> k \<notin> dom v \<Longrightarrow> snd (set_body ks i st v) k = st k"
proof (induction ks arbitrary: st)
  case Nil
  then show ?case by simp
next
  case (Cons a ks)
  have tl: "k \<notin> set ks \<or> k \<notin> dom v" using Cons.prems by auto
  have IH: "snd (set_body ks i st' v) k = st' k" for st'
    using tl by (rule Cons.IH)
  show ?case
  proof (cases "a \<in> dom v")
    case False
    then show ?thesis by (simp add: IH)
  next
    case True
    with Cons.prems have "k \<noteq> a" by auto
    then show ?thesis by (simp add: IH split: option.split)
  qed
qed

lemma set_body_row_frame:
  "j \<noteq> i \<Longrightarrow> slot (snd (set_body ks i st v)) k j = slot st k j"
proof (induction ks arbitrary: st)
  case Nil
  then show ?case by simp
next
  case (Cons a ks)
  have IH: "slot (snd (set_body ks i st' v)) k j = slot st' k j" for st'
    using Cons.prems by (rule Cons.IH)
  show ?case
    using Cons.prems by (simp add: IH slot_upd_other_row split: option.split)
qed

lemma set_body_slot:
  "set ks \<subseteq> dom st \<Longrightarrow> k \<in> set ks \<Longrightarrow> k \<in> dom v \<Longrightarrow>
   slot (snd (set_body ks i st v)) k i = get_prop v k"
proof (induction ks arbitrary: st)
  case Nil
  then show ?case by simp
next
  case (Cons a ks)
  have IH: "set ks \<subseteq> dom st' \<Longrightarrow> k \<in> set ks \<Longrightarrow>
      slot (snd (set_body ks i st' v)) k i = get_prop v k" for st'
    using Cons.prems(3) by (simp add: Cons.IH)
  from Cons.prems obtain col where col: "st a = Some col" by auto
  let ?st = "st(a \<mapsto> arr_set col i (get_prop v a))"
  have dom: "set ks \<subseteq> dom ?st" using Cons.prems by auto
  have dom0: "set ks \<subseteq> dom st" using Cons.prems by auto
  show ?case
  proof (cases "k \<in> set ks")
    case True
    then show ?thesis using col dom dom0 by (simp add: IH)
  next
    case False
    with Cons.prems have ka: "k = a" by simp
    have "snd (set_body ks i ?st v) k = ?st k"
      using False by (simp add: set_body_column_frame)
    then have "slot (snd (set_body ks i ?st v)) k i = get_prop v k"
      using ka by (simp add: slot_def arr_get_set_same)
    with Cons.prems(3) ka col show ?thesis by simp
  qed
qed

lemma set_body_restrict: "set_body ks i st (v |` set ks) = set_body ks i st v"
proof -
  have "set ks \<subseteq> A \<Longrightarrow> set_body ks i st (v |` A) = set_body ks i st v" for A
    by (induction ks arbitrary: st) (auto split: option.splits simp: get_prop_def restrict_map_def)
  then show ?thesis by simp
qed

lemma get_fields_ok:
  "set ks \<subseteq> dom st \<Longrightarrow>
   get_fields ks i st obj = Inr (\<lambda>k. if k \<in> set ks then Some (slot st k i) else obj k)"
proof (induction ks arbitrary: obj)
  case Nil
  then show ?case by simp
next
  case (Cons a ks)
  then obtain col where col: "st a = Some col" by auto
  with Cons show ?case by (auto simp: slot_def fun_eq_iff)
qed


lemma same_value_zero_refl: "same_value_zero a a"
  by (simp add: same_value_zero_def strict_eq_same)

lemma change_body_True:
  "set ks \<subseteq> dom st \<Longrightarrow> fst (change_body ks i st v True) = Inr True"
proof (induction ks arbitrary: st)
  case Nil
  then show ?case by simp
next
  case (Cons a ks)
  have IH: "set ks \<subseteq> dom st' \<Longrightarrow> fst (change_body ks i st' v True) = Inr True" for st'
    by (rule Cons.IH)
  from Cons.prems obtain col where col: "st a = Some col" by auto
  have "set ks \<subseteq> dom (st(a \<mapsto> arr_set col i (get_prop v a)))"
    using Cons.prems by auto
  moreover have "set ks \<subseteq> dom st" using Cons.prems by simp
  ultimately show ?case using col by (simp add: IH)
qed

lemma change_body_result:
  "set ks \<subseteq> dom st \<Longrightarrow>
   fst (change_body ks i st v c) =
     Inr (c \<or> (\<exists>k\<in>set ks. strict_neq (slot st k i) (get_prop v k)))"
proof (induction ks arbitrary: c)
  case Nil
  then show ?case by simp
next
  case (Cons a ks)
  have IH: "fst (change_body ks i st v c') =
      Inr (c' \<or> (\<exists>k\<in>set ks. strict_neq (slot st k i) (get_prop v k)))" for c'
    using Cons.prems by (simp add: Cons.IH)
  from Cons.prems obtain col where col: "st a = Some col" by auto
  have sl: "slot st a i = arr_get col i" using col by (simp add: slot_def)
  show ?case
  proof (cases "strict_neq (arr_get col i) (get_prop v a)")
    case True
    have "set ks \<subseteq> dom (st(a \<mapsto> arr_set col i (get_prop v a)))"
      using Cons.prems by auto
    then show ?thesis using True col sl by (simp add: change_body_True)
  next
    case False
    then show ?thesis using col sl by (simp add: IH)
  qed
qed

lemma change_body_slot:
  "set ks \<subseteq> dom st \<Longrightarrow>
   slot (snd (change_body ks i st v c)) k j =
     (if j = i \<and> k \<in> set ks \<and> strict_neq (slot st k i) (get_prop v k)
      then get_prop v k else slot st k j)"
proof (induction ks arbitrary: st c)
  case Nil
  then show ?case by simp
next
  case (Cons a ks)
  have IH: "set ks \<subseteq> dom st' \<Longrightarrow> slot (snd (change_body ks i st' v c')) k j =
     (if j = i \<and> k \<in> set ks \<and> strict_neq (slot st' k i) (get_prop v k)
      then get_prop v k else slot st' k j)" for st' c'
    by (rule Cons.IH)
  from Cons.prems obtain col where col: "st a = Some col" by auto
  have sl: "slot st a i = arr_get col i" using col by (simp add: slot_def)
  have dom0: "set ks \<subseteq> dom st" using Cons.prems by simp
  show ?case
  proof (cases "strict_neq (arr_get col i) (get_prop v a)")
    case False
    then show ?thesis using col sl dom0 by (auto simp: IH)
  next
    case True
    let ?st = "st(a \<mapsto> arr_set col i (get_prop v a))"
    have dom: "set ks \<subseteq> dom ?st" using Cons.prems by auto
    have step: "change_body (a # ks) i st v c = change_body ks i ?st v True"
      using True col by simp
    have same: "slot ?st a i = get_prop v a" by (rule slot_upd_same)
    have okey: "k \<noteq> a \<Longrightarrow> slot ?st k j' = slot st k j'" for j'
      by (simp add: slot_def)
    have orow: "j \<noteq> i \<Longrightarrow> slot ?st k j = slot st k j"
      using col by (simp add: slot_upd_other_row)
    show ?thesis
      unfolding step
    proof (cases "k = a")
      case ka: True
      show "slot (snd (change_body ks i ?st v True)) k j =
         (if j = i \<and> k \<in> set (a # ks) \<and> strict_neq (slot st k i) (get_prop v k)
          then get_prop v k else slot st k j)"
      proof (cases "j = i")
        case True
        then show ?thesis
          using ka same sl \<open>strict_neq (arr_get col i) (get_prop v a)\<close> IH[OF dom, of True]
          by simp
      next
        case False
        then show ?thesis using orow IH[OF dom, of True] by simp
      qed
    next
      case False
      then show "slot (snd (change_body ks i ?st v True)) k j =
         (if j = i \<and> k \<in> set (a # ks) \<and> strict_neq (slot st k i) (get_prop v k)
          then get_prop v k else slot st k j)"
        using okey IH[OF dom, of True] by simp
    qed
  qed
qed

lemma change_body_unchanged:
  "\<forall>k\<in>set ks. \<not> strict_neq (slot st k i) (get_prop v k) \<Longrightarrow>
   snd (change_body ks i st v c) = st"
proof (induction ks arbitrary: c)
  case Nil
  then show ?case by simp
next
  case (Cons a ks)
  have IH: "snd (change_body ks i st v c') = st" for c'
    using Cons.prems by (simp add: Cons.IH)
  from Cons.prems have "\<not> strict_neq (slot st a i) (get_prop v a)" by simp
  then show ?case by (cases "st a") (simp_all add: IH slot_def)
qed

lemma change_body_dom: "dom (snd (change_body ks i st v c)) = dom st"
proof (induction ks arbitrary: st c)
  case Nil
  then show ?case by simp
next
  case (Cons a ks)
  have IH: "dom (snd (change_body ks i st' v c')) = dom st'" for st' c'
    by (rule Cons.IH)
  show ?case
  proof (cases "st a")
    case None
    then show ?thesis by simp
  next
    case (Some col)
    then have "dom (st(a \<mapsto> arr_set col i (get_prop v a))) = dom st" by auto
    with Some show ?thesis by (simp add: IH)
  qed
qed

section \<open>The accessors: claims C2, C3 and C4\<close>

lemma generated:
  "list_all plain_key (Object_keys schema) \<Longrightarrow>
   createSetFunction schema = Some (set_body (Object_keys schema))"
  "list_all plain_key (Object_keys schema) \<Longrightarrow>
   createFastSetFunction schema = Some (fast_set_body (Object_keys schema))"
  "list_all plain_key (Object_keys schema) \<Longrightarrow>
   createFastSetWithChangeDetectionFunction schema =
     Some (\<lambda>index store val. change_body (Object_keys schema) index store val False)"
  "list_all plain_key (Object_keys schema) \<Longrightarrow>
   createGetFunction schema =
     Some (\<lambda>index store. get_fields (Object_keys schema) index store Map.empty)"
  by (simp_all add: createSetFunction_def createFastSetFunction_def
      createFastSetWithChangeDetectionFunction_def createGetFunction_def new_Function_def Let_def)

lemma ex_schema_plain: "list_all plain_key (Object_keys ex_schema)"
  by (simp add: Object_keys_def ex_schema_def plain_key_def identifier_start_def)

text \<open>
  Claim C2, as amended. For a schema whose keys are identifier names and a store that has
  an array for every schema key, \<^verbatim>\<open>createFastSetWithChangeDetectionFunction\<close> makes a
  function, and that function returns true if and only if some schema field's stored value
  at the index is \<^verbatim>\<open>!==\<close> the value's field. After the call every schema field's slot at
  the index holds the value's field up to \<^verbatim>\<open>===\<close>, or both are NaN. When no schema field of
  the value is NaN, applying it again with the same value returns false and leaves the
  store as it is.
\<close>

theorem change_detection_amended:
  assumes "list_all plain_key (Object_keys schema)"
    and "set (Object_keys schema) \<subseteq> dom store"
  shows "\<exists>setter. createFastSetWithChangeDetectionFunction schema = Some setter
       \<and> fst (setter index store val) =
           Inr (\<exists>k\<in>set (Object_keys schema). strict_neq (slot store k index) (get_prop val k))
       \<and> (\<forall>k\<in>set (Object_keys schema).
            same_value_zero (slot (snd (setter index store val)) k index) (get_prop val k))
       \<and> ((\<forall>k\<in>set (Object_keys schema). get_prop val k \<noteq> JNaN) \<longrightarrow>
            setter index (snd (setter index store val)) val =
              (Inr False, snd (setter index store val)))"
proof -
  let ?ks = "Object_keys schema"
  let ?st' = "snd (change_body ?ks index store val False)"
  have res: "fst (change_body ?ks index store val False) =
      Inr (\<exists>k\<in>set ?ks. strict_neq (slot store k index) (get_prop val k))"
    using assms(2) by (simp add: change_body_result)
  have sl: "slot ?st' k index =
      (if k \<in> set ?ks \<and> strict_neq (slot store k index) (get_prop val k)
       then get_prop val k else slot store k index)" for k
    using assms(2) by (simp add: change_body_slot)
  have after: "\<forall>k\<in>set ?ks. same_value_zero (slot ?st' k index) (get_prop val k)"
    by (simp add: sl same_value_zero_refl not_strict_neq_same_value_zero)
  have dom': "set ?ks \<subseteq> dom ?st'" using assms(2) by (simp add: change_body_dom)
  have again: "change_body ?ks index ?st' val False = (Inr False, ?st')"
    if nonan: "\<forall>k\<in>set ?ks. get_prop val k \<noteq> JNaN"
  proof -
    have quiet: "\<forall>k\<in>set ?ks. \<not> strict_neq (slot ?st' k index) (get_prop val k)"
      using nonan by (simp add: sl strict_neq_same)
    have "fst (change_body ?ks index ?st' val False) = Inr False"
      using dom' quiet by (simp add: change_body_result)
    moreover have "snd (change_body ?ks index ?st' val False) = ?st'"
      using quiet by (rule change_body_unchanged)
    ultimately show ?thesis by (simp add: prod_eq_iff)
  qed
  show ?thesis
    unfolding generated(3) [OF assms(1)]
    using res after again by simp
qed

text \<open>
  The amended claim C2 at a concrete store: the first call reports a change, the second
  does not.
\<close>

theorem change_detection_amended_witness:
  "list_all plain_key (Object_keys ex_schema)
   \<and> set (Object_keys ex_schema) \<subseteq> dom ex_store
   \<and> (\<exists>setter. createFastSetWithChangeDetectionFunction ex_schema = Some setter
        \<and> fst (setter 1 ex_store ex_full) = Inr True
        \<and> setter 1 (snd (setter 1 ex_store ex_full)) ex_full =
            (Inr False, snd (setter 1 ex_store ex_full)))"
proof -
  have h: "set (Object_keys ex_schema) \<subseteq> dom ex_store"
    by (simp add: Object_keys_def ex_schema_def ex_store_def)
  have n: "\<forall>k\<in>set (Object_keys ex_schema). get_prop ex_full k \<noteq> JNaN"
    by (simp add: Object_keys_def ex_schema_def ex_full_def get_prop_def)
  have d: "\<exists>k\<in>set (Object_keys ex_schema). strict_neq (slot ex_store k 1) (get_prop ex_full k)"
    by (simp add: Object_keys_def ex_schema_def ex_full_def ex_store_def get_prop_def slot_def
        arr_get_def strict_neq_def)
  from change_detection_amended [OF ex_schema_plain h, of 1 ex_full] obtain setter where
    "createFastSetWithChangeDetectionFunction ex_schema = Some setter"
    "fst (setter 1 ex_store ex_full) =
       Inr (\<exists>k\<in>set (Object_keys ex_schema). strict_neq (slot ex_store k 1) (get_prop ex_full k))"
    "(\<forall>k\<in>set (Object_keys ex_schema). get_prop ex_full k \<noteq> JNaN) \<longrightarrow>
       setter 1 (snd (setter 1 ex_store ex_full)) ex_full =
         (Inr False, snd (setter 1 ex_store ex_full))"
    by blast
  with n d have "createFastSetWithChangeDetectionFunction ex_schema = Some setter
      \<and> fst (setter 1 ex_store ex_full) = Inr True
      \<and> setter 1 (snd (setter 1 ex_store ex_full)) ex_full =
          (Inr False, snd (setter 1 ex_store ex_full))"
    by simp
  then show ?thesis using ex_schema_plain h by blast
qed

text \<open>
  Claim C2 as stated fails on a NaN field. The keys \<open>x\<close> and \<open>y\<close> of the schema are
  identifier names, and the function is generated. After a first call every schema field's
  slot holds the value's field, so no field differs from the value any more, yet the second
  call with the same value returns true: \<^verbatim>\<open>NaN !== NaN\<close>.
\<close>

theorem change_detection_counterexample:
  "createFastSetWithChangeDetectionFunction ex_schema \<noteq> None
   \<and> slot (snd (the (createFastSetWithChangeDetectionFunction ex_schema) 1 ex_store ex_nan))
        ''x'' 1 = get_prop ex_nan ''x''
   \<and> slot (snd (the (createFastSetWithChangeDetectionFunction ex_schema) 1 ex_store ex_nan))
        ''y'' 1 = get_prop ex_nan ''y''
   \<and> fst (the (createFastSetWithChangeDetectionFunction ex_schema) 1
        (snd (the (createFastSetWithChangeDetectionFunction ex_schema) 1 ex_store ex_nan))
        ex_nan) = Inr True"
  unfolding generated(3) [OF ex_schema_plain]
  by (simp add: Object_keys_def ex_schema_def
      ex_store_def ex_nan_def get_prop_def slot_def arr_get_def arr_set_def strict_neq_def)

text \<open>
  Claim C3. For a schema whose keys are identifier names and a store that has an array for
  every schema key: \<^verbatim>\<open>createSetFunction\<close> and \<^verbatim>\<open>createGetFunction\<close> make a setter and a
  getter; the setter does not throw, and the record the getter returns afterwards is the
  record it returned before, merged with the schema fields of the value: field \<open>k\<close> is the
  value's \<open>k\<close> when \<open>k\<close> is present in the value, and the stored one otherwise.
\<close>

theorem get_after_set:
  assumes "list_all plain_key (Object_keys schema)"
    and "set (Object_keys schema) \<subseteq> dom store"
  shows "\<exists>setter getter r.
         createSetFunction schema = Some setter
       \<and> createGetFunction schema = Some getter
       \<and> getter index store = Inr r
       \<and> fst (setter index store val) = Inr ()
       \<and> getter index (snd (setter index store val)) =
           Inr (r ++ (val |` set (Object_keys schema)))
       \<and> dom r = set (Object_keys schema)
       \<and> (\<forall>k\<in>set (Object_keys schema).
            (r ++ (val |` set (Object_keys schema))) k =
              (if k \<in> dom val then Some (get_prop val k) else r k))"
proof -
  let ?ks = "Object_keys schema"
  let ?st' = "snd (set_body ?ks index store val)"
  let ?r = "\<lambda>k. if k \<in> set ?ks then Some (slot store k index) else None"
  have dom': "set ?ks \<subseteq> dom ?st'" using assms(2) by (simp add: set_body_dom)
  have g: "get_fields ?ks index store Map.empty = Inr ?r"
    using assms(2) by (simp add: get_fields_ok)
  have ok: "fst (set_body ?ks index store val) = Inr ()"
    using assms(2) by (simp add: set_body_ok)
  have sl: "k \<in> set ?ks \<Longrightarrow>
      slot ?st' k index = (if k \<in> dom val then get_prop val k else slot store k index)" for k
  proof (cases "k \<in> dom val")
    case True
    then show "k \<in> set ?ks \<Longrightarrow> ?thesis" using assms(2) by (simp add: set_body_slot)
  next
    case False
    then have "?st' k = store k" by (simp add: set_body_column_frame)
    with False show ?thesis by (simp add: slot_def)
  qed
  have merged: "(\<lambda>k. if k \<in> set ?ks then Some (slot ?st' k index) else None) =
      ?r ++ (val |` set ?ks)"
    by (auto simp: fun_eq_iff sl map_add_def restrict_map_def get_prop_def split: option.splits)
  have g': "get_fields ?ks index ?st' Map.empty = Inr (?r ++ (val |` set ?ks))"
    using dom' by (simp add: get_fields_ok merged)
  have d: "dom ?r = set ?ks" by (auto split: if_splits)
  have f: "\<forall>k\<in>set ?ks. (?r ++ (val |` set ?ks)) k =
      (if k \<in> dom val then Some (get_prop val k) else ?r k)"
    by (auto simp: map_add_def restrict_map_def get_prop_def split: option.splits)
  show ?thesis
    unfolding generated(1) [OF assms(1)] generated(4) [OF assms(1)]
    using g ok g' d f by blast
qed

text \<open>
  Claim C3 at a concrete store: setting \<open>x\<close> (and a key outside the schema) at row 1.
\<close>

theorem get_after_set_witness:
  "list_all plain_key (Object_keys ex_schema)
   \<and> set (Object_keys ex_schema) \<subseteq> dom ex_store
   \<and> (\<exists>setter getter.
         createSetFunction ex_schema = Some setter
       \<and> createGetFunction ex_schema = Some getter
       \<and> getter 1 ex_store = Inr [''x'' \<mapsto> JNum 2, ''y'' \<mapsto> JNum 4]
       \<and> fst (setter 1 ex_store ex_partial) = Inr ()
       \<and> getter 1 (snd (setter 1 ex_store ex_partial)) = Inr [''x'' \<mapsto> JNum 9, ''y'' \<mapsto> JNum 4])"
proof -
  have h: "set (Object_keys ex_schema) \<subseteq> dom ex_store"
    by (simp add: Object_keys_def ex_schema_def ex_store_def)
  from get_after_set [OF ex_schema_plain h, of 1 ex_partial] obtain setter getter r where
    s: "createSetFunction ex_schema = Some setter"
    and g: "createGetFunction ex_schema = Some getter"
    and r: "getter 1 ex_store = Inr r"
    and ok: "fst (setter 1 ex_store ex_partial) = Inr ()"
    and after: "getter 1 (snd (setter 1 ex_store ex_partial)) =
      Inr (r ++ (ex_partial |` set (Object_keys ex_schema)))"
    by blast
  from g have "getter = (\<lambda>index store. get_fields (Object_keys ex_schema) index store Map.empty)"
    by (simp add: generated(4) [OF ex_schema_plain])
  then have "getter 1 ex_store = Inr [''x'' \<mapsto> JNum 2, ''y'' \<mapsto> JNum 4]"
    by (simp add: Object_keys_def ex_schema_def ex_store_def arr_get_def)
  with r have r': "r = [''x'' \<mapsto> JNum 2, ''y'' \<mapsto> JNum 4]" by simp
  have m: "[''x'' \<mapsto> JNum 2, ''y'' \<mapsto> JNum 4] ++ (ex_partial |` set (Object_keys ex_schema)) =
      [''x'' \<mapsto> JNum 9, ''y'' \<mapsto> JNum 4]"
    by (auto simp: fun_eq_iff map_add_def restrict_map_def ex_partial_def Object_keys_def
        ex_schema_def)
  from s g r ok after have "createSetFunction ex_schema = Some setter
       \<and> createGetFunction ex_schema = Some getter
       \<and> getter 1 ex_store = Inr [''x'' \<mapsto> JNum 2, ''y'' \<mapsto> JNum 4]
       \<and> fst (setter 1 ex_store ex_partial) = Inr ()
       \<and> getter 1 (snd (setter 1 ex_store ex_partial)) = Inr [''x'' \<mapsto> JNum 9, ''y'' \<mapsto> JNum 4]"
    unfolding r' m by simp
  then show ?thesis using ex_schema_plain h by blast
qed

text \<open>
  Claim C4. For a schema whose keys are identifier names and a store that has an array for
  every schema key, \<^verbatim>\<open>createSetFunction\<close> makes a setter that raises no error, whatever
  keys the value has; the keys of the value outside the schema have no effect (the call on
  the value restricted to the schema keys is the same call); a store array whose key is not
  in the schema, or is a schema key absent from the value, is left as it is; and no slot at
  another row index changes.
\<close>

theorem set_frame:
  assumes "list_all plain_key (Object_keys schema)"
    and "set (Object_keys schema) \<subseteq> dom store"
  shows "\<exists>setter. createSetFunction schema = Some setter
       \<and> fst (setter index store val) = Inr ()
       \<and> setter index store (val |` set (Object_keys schema)) = setter index store val
       \<and> (\<forall>k. k \<notin> set (Object_keys schema) \<or> k \<notin> dom val \<longrightarrow>
            snd (setter index store val) k = store k)
       \<and> (\<forall>k j. j \<noteq> index \<longrightarrow>
            slot (snd (setter index store val)) k j = slot store k j)"
  unfolding generated(1) [OF assms(1)]
  using assms(2)
  by (simp add: set_body_ok set_body_restrict set_body_column_frame set_body_row_frame)

text \<open>
  Claim C4 at a concrete store: the value has \<open>x\<close> and the foreign key \<open>z\<close>, and not \<open>y\<close>.
\<close>

theorem set_frame_witness:
  "list_all plain_key (Object_keys ex_schema)
   \<and> set (Object_keys ex_schema) \<subseteq> dom ex_store
   \<and> (\<exists>setter. createSetFunction ex_schema = Some setter
       \<and> fst (setter 1 ex_store ex_partial) = Inr ()
       \<and> snd (setter 1 ex_store ex_partial) ''z'' = None
       \<and> snd (setter 1 ex_store ex_partial) ''y'' = Some [JNum 3, JNum 4]
       \<and> slot (snd (setter 1 ex_store ex_partial)) ''x'' 0 = JNum 1
       \<and> slot (snd (setter 1 ex_store ex_partial)) ''x'' 1 = JNum 9)"
proof -
  have h: "set (Object_keys ex_schema) \<subseteq> dom ex_store"
    by (simp add: Object_keys_def ex_schema_def ex_store_def)
  have z: "''z'' \<notin> set (Object_keys ex_schema)" "''y'' \<notin> dom ex_partial"
    by (simp_all add: Object_keys_def ex_schema_def ex_partial_def)
  have s: "ex_store ''z'' = None" "ex_store ''y'' = Some [JNum 3, JNum 4]"
    "slot ex_store ''x'' 0 = JNum 1"
    by (simp_all add: ex_store_def slot_def arr_get_def)
  from set_frame [OF ex_schema_plain h, of 1 ex_partial] obtain setter where
    g: "createSetFunction ex_schema = Some setter"
    and a: "fst (setter 1 ex_store ex_partial) = Inr ()"
    and c: "\<forall>k. k \<notin> set (Object_keys ex_schema) \<or> k \<notin> dom ex_partial \<longrightarrow>
        snd (setter 1 ex_store ex_partial) k = ex_store k"
    and r: "\<forall>k j. j \<noteq> 1 \<longrightarrow> slot (snd (setter 1 ex_store ex_partial)) k j = slot ex_store k j"
    by blast
  from g have "setter = set_body (Object_keys ex_schema)"
    by (simp add: generated(1) [OF ex_schema_plain])
  then have w: "slot (snd (setter 1 ex_store ex_partial)) ''x'' 1 = JNum 9"
    by (simp add: Object_keys_def ex_schema_def ex_store_def ex_partial_def get_prop_def slot_def
        arr_get_def arr_set_def)
  have "snd (setter 1 ex_store ex_partial) ''z'' = None"
    "snd (setter 1 ex_store ex_partial) ''y'' = Some [JNum 3, JNum 4]"
    "slot (snd (setter 1 ex_store ex_partial)) ''x'' 0 = JNum 1"
    using c r z s by simp_all
  with g a w ex_schema_plain h show ?thesis by blast
qed

section \<open>The world: claims C1 and C7 to C10\<close>

lemma invoke_fst: "fst (invoke l f w) = fst (f (shared w))"
  by (simp add: invoke_def split: prod.split)

lemma invoke_shared: "shared (snd (invoke l f w)) = snd (f (shared w))"
  by (simp add: invoke_def split: prod.split)

lemma invoke_calls: "calls (snd (invoke l f w)) = calls w @ [l (fst (f (shared w)))]"
  by (simp add: invoke_def split: prod.split)

lemma invoke_private:
  "world_id (snd (invoke l f w)) = world_id w"
  "isInitialized (snd (invoke l f w)) = isInitialized w"
  "self (snd (invoke l f w)) = self w"
  by (simp_all add: invoke_def split: prod.split)

lemma on_ctx_simps:
  "world_id (on_ctx g w) = world_id w"
  "isInitialized (on_ctx g w) = isInitialized w"
  "self (on_ctx g w) = self w"
  "calls (on_ctx g w) = calls w"
  "ctx (shared (on_ctx g w)) = g (ctx (shared w))"
  "universe (shared (on_ctx g w)) = universe (shared w)"
  "components (shared (on_ctx g w)) = components (shared w)"
  "heap (shared (on_ctx g w)) = heap (shared w)"
  by (simp_all add: on_ctx_def)

lemma on_universe_simps:
  "world_id (on_universe g w) = world_id w"
  "isInitialized (on_universe g w) = isInitialized w"
  "self (on_universe g w) = self w"
  "calls (on_universe g w) = calls w"
  "ctx (shared (on_universe g w)) = ctx (shared w)"
  "universe (shared (on_universe g w)) = g (universe (shared w))"
  "components (shared (on_universe g w)) = components (shared w)"
  "heap (shared (on_universe g w)) = heap (shared w)"
  by (simp_all add: on_universe_def)

lemma fold_invoke_private:
  "world_id (fold (\<lambda>x. snd \<circ> invoke (l x) (f x)) xs w) = world_id w"
  "isInitialized (fold (\<lambda>x. snd \<circ> invoke (l x) (f x)) xs w) = isInitialized w"
  "self (fold (\<lambda>x. snd \<circ> invoke (l x) (f x)) xs w) = self w"
  by (induction xs arbitrary: w) (simp_all add: invoke_private)

lemma fold_invoke_calls:
  "calls (fold (\<lambda>x. snd \<circ> invoke (\<lambda>_. l x) (f x)) xs w) = calls w @ map l xs"
  by (induction xs arbitrary: w) (simp_all add: invoke_calls)

lemma fold_invoke_universe:
  "(\<And>x. keeps_universe (f x)) \<Longrightarrow>
   universe (shared (fold (\<lambda>x. snd \<circ> invoke (l x) (f x)) xs w)) = universe (shared w)"
  by (induction xs arbitrary: w) (simp_all add: invoke_shared keeps_universe_def)

text \<open>
  Claim C9. If no query is stored in the world's query hash map under a string key, then
  \<^verbatim>\<open>world.query(key)\<close> returns the empty array and leaves the world as it is: no query is
  created, no call is made, and the query hash map is unchanged.
\<close>

theorem query_unknown_key:
  "queriesHashMap (ctx (shared w)) key = None \<Longrightarrow> World_query D (Key key) w = ([], w)"
  by (simp add: World_query_def)

text \<open>
  Claim C10. On a world that is already initialized, \<^verbatim>\<open>world.init(components)\<close> returns
  at once: the world is not registered again, no tracking masks and no cached queries are
  created, the world entity is not replaced, and the whole state of the world, the
  universe included, is unchanged.
\<close>

theorem init_again:
  "isInitialized w \<Longrightarrow> World_init D comps w = w"
  by (simp add: World_init_def)


lemmas call_defs =
  call_createEntity_def call_destroyEntity_def call_Query_new_def call_Query_run_def
  call_setTrackingMasks_def call_Entity_has_def call_Entity_add_def call_Entity_remove_def
  call_Entity_get_def call_Entity_set_def call_Entity_destroy_def call_getStore_def
  call_setChanged_def call_getRelationTargets_def call_ComponentRecord_new_def

text \<open>
  Claim C8. On a world with a world entity \<open>e\<close>, \<^verbatim>\<open>world.add\<close>, \<^verbatim>\<open>world.remove\<close>,
  \<^verbatim>\<open>world.get\<close>, \<^verbatim>\<open>world.set\<close> and \<^verbatim>\<open>world.has\<close> of a trait return what the method of
  the same name of \<open>e\<close> returns on the state of the world, with the same arguments, and
  leave the world in the state that method leaves; one call, of that method, is made. On a
  world whose world entity is \<^verbatim>\<open>null\<close> (before \<^verbatim>\<open>init\<close>, after \<^verbatim>\<open>destroy\<close>) each of them
  throws a TypeError and changes nothing. \<^verbatim>\<open>world.has\<close> of an entity returns whether the
  entity is alive in the world's entity index, and changes nothing.
\<close>

theorem world_entity_delegation:
  "(\<forall>e. worldEntity (ctx (shared w)) = Some e \<longrightarrow>
       World_add D cs w =
         (Inr (fst (Entity_add D e cs (shared w))),
          w\<lparr>shared := snd (Entity_add D e cs (shared w)), calls := calls w @ [EntityAdd e cs]\<rparr>)
     \<and> World_remove D rs w =
         (Inr (fst (Entity_remove D e rs (shared w))),
          w\<lparr>shared := snd (Entity_remove D e rs (shared w)),
            calls := calls w @ [EntityRemove e rs]\<rparr>)
     \<and> World_get D t w =
         (Inr (fst (Entity_get D e t (shared w))),
          w\<lparr>shared := snd (Entity_get D e t (shared w)), calls := calls w @ [EntityGet e t]\<rparr>)
     \<and> World_set D t v w =
         (Inr (fst (Entity_set D e t v (shared w))),
          w\<lparr>shared := snd (Entity_set D e t v (shared w)), calls := calls w @ [EntitySet e t v]\<rparr>)
     \<and> World_has D (OfComponent t) w =
         (Inr (fst (Entity_has D e t (shared w))),
          w\<lparr>shared := snd (Entity_has D e t (shared w)), calls := calls w @ [EntityHas e t]\<rparr>))
   \<and> (worldEntity (ctx (shared w)) = None \<longrightarrow>
       World_add D cs w = (Inl TypeError, w)
     \<and> World_remove D rs w = (Inl TypeError, w)
     \<and> World_get D t w = (Inl TypeError, w)
     \<and> World_set D t v w = (Inl TypeError, w)
     \<and> World_has D (OfComponent t) w = (Inl TypeError, w))
   \<and> World_has D (OfEntity x) w = (Inr (isEntityAlive D (entityIndex (ctx (shared w))) x), w)"
  by (simp add: World_add_def World_remove_def World_get_def World_set_def World_has_def
      on_worldEntity_def call_Entity_add_def call_Entity_remove_def call_Entity_get_def
      call_Entity_set_def call_Entity_has_def invoke_def split_beta)

lemma reset_cleared_eq:
  "on_ctx (\<lambda>c. c\<lparr>queries := {},
                  queriesHashMap := Map.empty,
                  dirtyQueries := {},
                  relationTargetEntities := {},
                  trackingSnapshots := Map.empty,
                  dirtyMasks := Map.empty,
                  changedMasks := Map.empty\<rparr>)
     ((on_ctx (\<lambda>c. c\<lparr>componentRecords := Map.empty\<rparr>)
        (on_ctx (\<lambda>c. c\<lparr>entityIndex := createEntityIndex D (world_id w),
                         entityComponents := Map.empty,
                         notQueries := {},
                         entityMasks := [[]],
                         bitflag := 1\<rparr>) w))
      \<lparr>shared := (shared (on_ctx (\<lambda>c. c\<lparr>componentRecords := Map.empty\<rparr>)
        (on_ctx (\<lambda>c. c\<lparr>entityIndex := createEntityIndex D (world_id w),
                         entityComponents := Map.empty,
                         notQueries := {},
                         entityMasks := [[]],
                         bitflag := 1\<rparr>) w)))\<lparr>components := {}\<rparr>\<rparr>)
   = reset_cleared D w"
proof -
  obtain a b c sh cl where w: "w = \<lparr>self = a, world_id = b, isInitialized = c, shared = sh, calls = cl\<rparr>"
    by (cases w) auto
  obtain x cs u h where sh: "sh = \<lparr>ctx = x, components = cs, universe = u, heap = h\<rparr>"
    by (cases sh) auto
  show ?thesis
    unfolding w sh by (cases x) (simp add: on_ctx_def reset_cleared_def)
qed

lemma reset_skip_destroy:
  assumes "fresh_index_empty D"
  shows "World_reset D w =
     (let (e, w') = call_createEntity D (world_id w) [Comp IsExcluded] (reset_cleared D w)
      in on_ctx (\<lambda>c. c\<lparr>worldEntity := Some e\<rparr>) w')"
proof -
  have "World_entities D (on_ctx (\<lambda>c. c\<lparr>entityIndex := createEntityIndex D (world_id w),
                              entityComponents := Map.empty,
                              notQueries := {},
                              entityMasks := [[]],
                              bitflag := 1\<rparr>) w) = []"
    using assms by (simp add: World_entities_def on_ctx_simps fresh_index_empty_def)
  then show ?thesis
    unfolding World_reset_def Let_def by (simp only: fold_simps reset_cleared_eq id_apply)
qed

lemma indexOf_from_eq:
  "indexOf_from xs x i =
     (if Some x \<in> set xs then i + int (length (takeWhile (\<lambda>y. y \<noteq> Some x) xs)) else - 1)"
  by (induction xs arbitrary: i) auto

lemma splice_indexOf_removes:
  assumes "count_list xs (Some x) \<le> 1"
  shows "Some x \<notin> set (splice xs (indexOf xs x) 1)"
proof (cases "Some x \<in> set xs")
  case False
  have "set (splice xs (- 1) 1) \<subseteq> set xs"
    by (auto simp: splice_def Let_def dest: in_set_takeD in_set_dropD)
  with False show ?thesis
    by (auto simp: indexOf_def indexOf_from_eq)
next
  case True
  define n where "n = length (takeWhile (\<lambda>y. y \<noteq> Some x) xs)"
  have idx: "indexOf xs x = int n"
    using True by (simp add: indexOf_def indexOf_from_eq n_def)
  have first: "a \<in> set ys \<Longrightarrow> length (takeWhile (\<lambda>y. y \<noteq> a) ys) < length ys
      \<and> ys ! length (takeWhile (\<lambda>y. y \<noteq> a) ys) = a" for a :: "'a option" and ys
    by (induction ys) auto
  have n: "n < length xs"
    using True first unfolding n_def by blast
  have tk: "take n xs = takeWhile (\<lambda>y. y \<noteq> Some x) xs"
    unfolding n_def by (rule takeWhile_eq_take [symmetric])
  have here: "xs ! n = Some x"
    using True first unfolding n_def by blast
  have split: "xs = take n xs @ Some x # drop (Suc n) xs"
    using n here by (metis id_take_nth_drop)
  have notin_take: "Some x \<notin> set (take n xs)"
    unfolding tk by (auto dest: set_takeWhileD)
  have "count_list xs (Some x) = count_list (take n xs) (Some x) + 1 + count_list (drop (Suc n) xs) (Some x)"
    by (subst split) simp
  with assms have "count_list (drop (Suc n) xs) (Some x) = 0" by simp
  then have notin_drop: "Some x \<notin> set (drop (Suc n) xs)"
    by (simp add: count_list_0_iff)
  have "splice xs (int n) 1 = take n xs @ drop (Suc n) xs"
    using n by (simp add: splice_def Let_def min_def)
  with notin_take notin_drop idx show ?thesis by simp
qed

lemma splice_indexOf_absent:
  assumes "Some x \<notin> set xs"
  shows "splice xs (indexOf xs x) 1 = butlast xs"
proof -
  have "indexOf xs x = - 1"
    using assms by (simp add: indexOf_def indexOf_from_eq)
  moreover have "nat (int (length xs) - 1) = length xs - 1" by simp
  ultimately show ?thesis
    by (cases "xs = []") (simp_all add: splice_def Let_def butlast_conv_take)
qed

lemma fold_invoke_shared:
  "shared (fold (\<lambda>x. snd \<circ> invoke (l x) (f x)) xs w) =
     fold (\<lambda>x sh. snd (f x sh)) xs (shared w)"
  by (induction xs arbitrary: w) (simp_all add: invoke_shared)

text \<open>
  Claim C7. \<^verbatim>\<open>world.destroy()\<close> applies \<^verbatim>\<open>destroyEntity\<close> to every entity that is alive
  when it starts, in order; then, through \<^verbatim>\<open>reset\<close>, it clears the state and creates a new
  world entity; it releases the world's id to the world index of the universe, removes the
  world from the universe's world list, and applies \<^verbatim>\<open>destroyEntity\<close> to the world entity.
  The state of the world afterwards is the state these calls leave, in this order, with the
  world entity set to \<^verbatim>\<open>null\<close>. Afterwards the world is not initialized, it has no world
  entity, its id has been released in the universe's world index, and the world is no
  longer in the universe's world list. This holds for a world that is in that list at most
  once, when creating and destroying an entity leaves the universe alone and a fresh entity
  index has no alive entity.
\<close>

theorem destroy_effects:
  assumes fresh: "fresh_index_empty D"
    and univ: "entities_keep_universe D"
    and once: "count_list (worlds (universe (shared w))) (Some (self w)) \<le> 1"
  shows "(let alive = getAliveEntities D (entityIndex (ctx (shared w)));
              sh1 = fold (\<lambda>entity sh. snd (destroyEntity D (world_id w) entity sh)) alive (shared w);
              (e, sh2) = createEntity D (world_id w) [Comp IsExcluded]
                           (shared (reset_cleared D (w\<lparr>shared := sh1\<rparr>)));
              u = universe sh2;
              sh3 = sh2\<lparr>ctx := (ctx sh2)\<lparr>worldEntity := Some e\<rparr>,
                        universe := u\<lparr>worldIndex := releaseWorldId D (worldIndex u) (world_id w),
                                      worlds := splice (worlds u) (indexOf (worlds u) (self w)) 1\<rparr>\<rparr>;
              sh4 = snd (destroyEntity D (world_id w) e sh3)
          in shared (World_destroy D w) = sh4\<lparr>ctx := (ctx sh4)\<lparr>worldEntity := None\<rparr>\<rparr>
           \<and> calls (World_destroy D w) =
               calls w @ map DestroyEntity alive
                 @ [CreateEntity [Comp IsExcluded] e, ReleaseWorldId (world_id w), DestroyEntity e])
       \<and> isInitialized (World_destroy D w) = False
       \<and> worldEntity (ctx (shared (World_destroy D w))) = None
       \<and> world_id (World_destroy D w) = world_id w
       \<and> worldIndex (universe (shared (World_destroy D w))) =
           releaseWorldId D (worldIndex (universe (shared w))) (world_id w)
       \<and> Some (self w) \<notin> set (worlds (universe (shared (World_destroy D w))))"
proof -
  have ku_c: "keeps_universe (createEntity D i cs)" for i cs
    using univ by (simp add: entities_keep_universe_def)
  have ku_d: "keeps_universe (destroyEntity D i e)" for i e
    using univ by (simp add: entities_keep_universe_def)
  define alive where "alive = getAliveEntities D (entityIndex (ctx (shared w)))"
  define sh1 where "sh1 = fold (\<lambda>entity sh. snd (destroyEntity D (world_id w) entity sh)) alive (shared w)"
  define w1 where "w1 = fold (\<lambda>entity. snd \<circ> call_destroyEntity D (world_id w) entity)
                 (World_entities D w) w"
  define cl where "cl = reset_cleared D w1"
  define e where "e = fst (createEntity D (world_id w) [Comp IsExcluded] (shared cl))"
  define sh2 where "sh2 = snd (createEntity D (world_id w) [Comp IsExcluded] (shared cl))"
  define w2 where "w2 = World_reset D w1"
  define w3 where "w3 = w2\<lparr>isInitialized := False\<rparr>"
  define w4 where "w4 = (on_universe (\<lambda>u. u\<lparr>worldIndex := releaseWorldId D (worldIndex u) (world_id w)\<rparr>) w3)
                 \<lparr>calls := calls w3 @ [ReleaseWorldId (world_id w)]\<rparr>"
  define w5 where "w5 = on_universe (\<lambda>u. u\<lparr>worlds := splice (worlds u) (indexOf (worlds u) (self w)) 1\<rparr>) w4"
  define w6 where "w6 = snd (call_destroyEntity D (world_id w) e w5)"
  define sh3 where "sh3 = sh2\<lparr>ctx := (ctx sh2)\<lparr>worldEntity := Some e\<rparr>,
      universe := (universe sh2)\<lparr>worldIndex := releaseWorldId D (worldIndex (universe sh2)) (world_id w),
         worlds := splice (worlds (universe sh2)) (indexOf (worlds (universe sh2)) (self w)) 1\<rparr>\<rparr>"
  define sh4 where "sh4 = snd (destroyEntity D (world_id w) e sh3)"
  have w1_priv: "world_id w1 = world_id w" "self w1 = self w"
    unfolding w1_def call_destroyEntity_def by (simp_all add: fold_invoke_private)
  have w1_calls: "calls w1 = calls w @ map DestroyEntity alive"
    unfolding w1_def call_destroyEntity_def alive_def World_entities_def
    by (simp add: fold_invoke_calls)
  have w1_shared: "shared w1 = sh1"
    unfolding w1_def call_destroyEntity_def sh1_def alive_def World_entities_def
    by (rule fold_invoke_shared)
  have w1_univ: "universe (shared w1) = universe (shared w)"
    unfolding w1_def call_destroyEntity_def by (simp add: fold_invoke_universe ku_d)
  have cl_eq: "shared cl = shared (reset_cleared D (w\<lparr>shared := sh1\<rparr>))"
    unfolding cl_def by (simp add: reset_cleared_def w1_shared w1_priv)
  have cl_simps: "calls cl = calls w1" "universe (shared cl) = universe (shared w1)"
    "world_id cl = world_id w1" "self cl = self w1"
    unfolding cl_def by (simp_all add: reset_cleared_def)
  have w2_eq: "w2 = on_ctx (\<lambda>c. c\<lparr>worldEntity := Some e\<rparr>)
      (snd (call_createEntity D (world_id w) [Comp IsExcluded] cl))"
    unfolding w2_def reset_skip_destroy [OF fresh] cl_def e_def w1_priv
    by (simp add: call_createEntity_def invoke_def split: prod.split)
  have w2_shared: "shared w2 = sh2\<lparr>ctx := (ctx sh2)\<lparr>worldEntity := Some e\<rparr>\<rparr>"
    unfolding w2_eq sh2_def by (simp add: on_ctx_def call_createEntity_def invoke_shared)
  have w2_calls: "calls w2 = calls w1 @ [CreateEntity [Comp IsExcluded] e]"
    unfolding w2_eq by (simp add: on_ctx_simps call_createEntity_def invoke_calls cl_simps e_def)
  have sh2_univ: "universe sh2 = universe (shared w)"
    unfolding sh2_def using ku_c by (simp add: keeps_universe_def cl_simps w1_univ)
  have w2_id: "world_id w2 = world_id w"
    unfolding w2_eq by (simp add: on_ctx_simps call_createEntity_def invoke_private cl_simps w1_priv)
  have w5_shared: "shared w5 = sh3"
    unfolding w5_def w4_def w3_def sh3_def by (simp add: on_universe_def w2_shared)
  have w5_we: "worldEntity (ctx (shared w5)) = Some e"
    unfolding w5_shared sh3_def by simp
  have w5_calls: "calls w5 = calls w1 @ [CreateEntity [Comp IsExcluded] e, ReleaseWorldId (world_id w)]"
    unfolding w5_def w4_def w3_def using w2_calls by (simp add: on_universe_def)
  have w5_priv: "isInitialized w5 = False" "world_id w5 = world_id w"
    unfolding w5_def w4_def w3_def using w2_id by (simp_all add: on_universe_def)
  have "World_destroy D w = on_ctx (\<lambda>c. c\<lparr>worldEntity := None\<rparr>)
      (case worldEntity (ctx (shared w5)) of
         None \<Rightarrow> w5
       | Some e \<Rightarrow> snd (call_destroyEntity D (world_id w) e w5))"
    unfolding World_destroy_def Let_def w5_def w4_def w3_def w2_def w1_def ..
  then have final: "World_destroy D w = on_ctx (\<lambda>c. c\<lparr>worldEntity := None\<rparr>) w6"
    using w5_we by (simp add: w6_def)
  have w6_shared: "shared w6 = sh4"
    unfolding w6_def call_destroyEntity_def sh4_def by (simp add: invoke_shared w5_shared)
  have w6_calls: "calls w6 = calls w5 @ [DestroyEntity e]"
    unfolding w6_def call_destroyEntity_def by (simp add: invoke_calls)
  have sh4_univ: "universe sh4 = universe sh3"
    unfolding sh4_def using ku_d by (simp add: keeps_universe_def)
  have w6_priv: "isInitialized w6 = False" "world_id w6 = world_id w"
    unfolding w6_def call_destroyEntity_def using w5_priv by (simp_all add: invoke_private)
  have gone: "Some (self w) \<notin> set (splice (worlds (universe (shared w)))
      (indexOf (worlds (universe (shared w))) (self w)) 1)"
    using once by (rule splice_indexOf_removes)
  have st: "shared (World_destroy D w) = sh4\<lparr>ctx := (ctx sh4)\<lparr>worldEntity := None\<rparr>\<rparr>"
    unfolding final by (simp add: on_ctx_def w6_shared)
  have cs: "calls (World_destroy D w) =
           calls w @ map DestroyEntity alive
             @ [CreateEntity [Comp IsExcluded] e, ReleaseWorldId (world_id w), DestroyEntity e]"
    unfolding final by (simp add: on_ctx_simps w6_calls w5_calls w1_calls)
  have seq: "(let alive = getAliveEntities D (entityIndex (ctx (shared w)));
              sh1 = fold (\<lambda>entity sh. snd (destroyEntity D (world_id w) entity sh)) alive (shared w);
              (e, sh2) = createEntity D (world_id w) [Comp IsExcluded]
                           (shared (reset_cleared D (w\<lparr>shared := sh1\<rparr>)));
              u = universe sh2;
              sh3 = sh2\<lparr>ctx := (ctx sh2)\<lparr>worldEntity := Some e\<rparr>,
                        universe := u\<lparr>worldIndex := releaseWorldId D (worldIndex u) (world_id w),
                                      worlds := splice (worlds u) (indexOf (worlds u) (self w)) 1\<rparr>\<rparr>;
              sh4 = snd (destroyEntity D (world_id w) e sh3)
          in shared (World_destroy D w) = sh4\<lparr>ctx := (ctx sh4)\<lparr>worldEntity := None\<rparr>\<rparr>
           \<and> calls (World_destroy D w) =
               calls w @ map DestroyEntity alive
                 @ [CreateEntity [Comp IsExcluded] e, ReleaseWorldId (world_id w), DestroyEntity e])"
    using st cs
    unfolding Let_def split_beta alive_def [symmetric] sh1_def [symmetric] cl_eq [symmetric]
      e_def [symmetric] sh2_def [symmetric] sh3_def [symmetric] sh4_def [symmetric]
    by simp
  moreover have "isInitialized (World_destroy D w) = False"
    unfolding final by (simp add: on_ctx_simps w6_priv)
  moreover have "worldEntity (ctx (shared (World_destroy D w))) = None"
    unfolding final by (simp add: on_ctx_simps)
  moreover have "world_id (World_destroy D w) = world_id w"
    unfolding final by (simp add: on_ctx_simps w6_priv)
  moreover have "worldIndex (universe (shared (World_destroy D w))) =
           releaseWorldId D (worldIndex (universe (shared w))) (world_id w)"
    unfolding st by (simp add: sh4_univ sh3_def sh2_univ)
  moreover have "Some (self w) \<notin> set (worlds (universe (shared (World_destroy D w))))"
    unfolding st using gone by (simp add: sh4_univ sh3_def sh2_univ)
  ultimately show ?thesis by blast
qed





lemma query_first:
  assumes "queriesHashMap (ctx (shared w)) (createQueryHash D ps) = None"
  shows "World_query D (Parameters ps) w =
     call_Query_run D (fst (Query_new D (world_id w) ps (shared w))) (world_id w)
       (on_ctx (\<lambda>c. c\<lparr>queriesHashMap :=
            (queriesHashMap c)(createQueryHash D ps \<mapsto> fst (Query_new D (world_id w) ps (shared w)))\<rparr>)
          (snd (call_Query_new D (world_id w) ps w)))"
  using assms
  by (simp add: World_query_def Let_def split_beta call_Query_new_def invoke_fst)

lemma query_later:
  assumes "queriesHashMap (ctx (shared w)) (createQueryHash D ps) = Some q"
  shows "World_query D (Parameters ps) w = call_Query_run D q (world_id w) w"
  using assms by (simp add: World_query_def Let_def)





section \<open>The instance of the other modules\<close>

lemmas spec_defs =
  spec_deps_def spec_allocateWorldId_def spec_releaseWorldId_def spec_createEntityIndex_def
  spec_getAliveEntities_def spec_isEntityAlive_def spec_createEntity_def spec_destroyEntity_def
  spec_Query_new_def spec_Query_run_def spec_subscriptions_add_def spec_createQueryHash_def
  spec_setTrackingMasks_def spec_Entity_has_def spec_Entity_add_def spec_Entity_remove_def
  spec_Entity_get_def spec_Entity_set_def spec_Entity_destroy_def spec_getStore_def
  spec_setChanged_def spec_getRelationTargets_def spec_ComponentRecord_new_def
  spec_changedSubscriptions_add_def

lemma registerComponent_frame:
  "queriesHashMap (ctx (registerComponent c sh)) = queriesHashMap (ctx sh)"
  "universe (registerComponent c sh) = universe sh"
  "heap (registerComponent c sh) = heap sh"
  by (simp_all add: registerComponent_def Let_def)

lemma setComponent_frame:
  "queriesHashMap (ctx (setComponent e c p sh)) = queriesHashMap (ctx sh)"
  "universe (setComponent e c p sh) = universe sh"
  "heap (setComponent e c p sh) = heap sh"
  by (simp_all add: setComponent_def Let_def split: option.split sum.split prod.split)

lemma addComponent_frame:
  "queriesHashMap (ctx (addComponent e c p sh)) = queriesHashMap (ctx sh)"
  "universe (addComponent e c p sh) = universe sh"
  "heap (addComponent e c p sh) = heap sh"
  by (simp_all add: addComponent_def Let_def registerComponent_frame setComponent_frame
      split: option.split)

lemma addArgument_frame:
  "queriesHashMap (ctx (addArgument e a sh)) = queriesHashMap (ctx sh)"
  "universe (addArgument e a sh) = universe sh"
  "heap (addArgument e a sh) = heap sh"
  by (cases a; simp add: addComponent_frame)+

lemma fold_addArgument_frame:
  "queriesHashMap (ctx (fold (addArgument e) args sh)) = queriesHashMap (ctx sh)"
  "universe (fold (addArgument e) args sh) = universe sh"
  "heap (fold (addArgument e) args sh) = heap sh"
  by (induction args arbitrary: sh; simp add: addArgument_frame)+



lemma destroyOne_frame:
  "queriesHashMap (ctx (destroyOne e sh)) = queriesHashMap (ctx sh)"
  "universe (destroyOne e sh) = universe sh"
  by (simp_all add: destroyOne_def Let_def)



lemma spec_createEntity_frame:
  "queriesHashMap (ctx (snd (spec_createEntity i args sh))) = queriesHashMap (ctx sh)"
  "universe (snd (spec_createEntity i args sh)) = universe sh"
  by (simp_all add: spec_createEntity_def split_beta fold_addArgument_frame)


lemma spec_entities_keep_universe: "entities_keep_universe spec_deps"
  unfolding entities_keep_universe_def keeps_universe_def
  by (simp add: spec_deps_def spec_createEntity_frame spec_destroyEntity_def destroyOne_frame
      spec_Entity_destroy_def)

lemma spec_fresh_index_empty: "fresh_index_empty spec_deps"
  unfolding fresh_index_empty_def
  by (simp add: spec_deps_def spec_getAliveEntities_def spec_createEntityIndex_def enumerate_eq_zip)


lemma nth_or_put_at_same: "nth_or d (put_at d xs i v) i = v"
  by (simp add: nth_or_def put_at_def nth_append)

lemma nth_or_put_at_other: "j \<noteq> i \<Longrightarrow> nth_or d (put_at d xs i v) j = nth_or d xs j"
  by (auto simp: nth_or_def put_at_def nth_append)

lemma maskAt_putMask:
  "maskAt (putMask masks word row m) word' row' =
     (if word' = word \<and> row' = row then m else maskAt masks word' row')"
  by (cases "word' = word"; cases "row' = row")
    (simp_all add: maskAt_def putMask_def nth_or_put_at_same nth_or_put_at_other)

lemma maskAt_append_empty: "maskAt (masks @ [[]]) word row = maskAt masks word row"
  by (auto simp: maskAt_def nth_or_def nth_append)

lemma or_and_same: "((m::nat) OR b) AND b = b"
  by (rule bit_eqI) (auto simp: bit_and_iff bit_or_iff)

lemma or_keeps: "(m::nat) AND f = f \<Longrightarrow> (m OR b) AND f = f"
  by (metis or_and_same and.commute or.commute and.assoc)

lemma carries_cong:
  "componentRecords (ctx sh') c = componentRecords (ctx sh) c \<Longrightarrow>
   entityMasks (ctx sh') = entityMasks (ctx sh) \<Longrightarrow> carries sh' e c = carries sh e c"
  by (simp add: carries_def split: option.split)

lemma registerComponent_carries:
  "carries sh e' c' \<Longrightarrow> componentRecords (ctx sh) c = None \<Longrightarrow>
   carries (registerComponent c sh) e' c'"
  by (auto simp: carries_def registerComponent_def Let_def bitSet_def maskAt_append_empty
      split: option.splits)

lemma setComponent_carries: "carries (setComponent e c p sh) e' c' = carries sh e' c'"
  by (auto simp: setComponent_def carries_def bitSet_def Let_def
      split: option.split sum.split prod.split)

lemma addComponent_registered:
  "componentRecords (ctx sh) c = Some r \<Longrightarrow>
   addComponent e c p sh =
     (if carries sh e c then setComponent e c p sh
      else
        (let x = ctx sh;
             st = (case createFastSetFunction (cschema c) of
                     None \<Rightarrow> recStore r
                   | Some fastSet \<Rightarrow>
                       snd (fastSet (rowIndex e) (recStore r) (map_of (cschema c) ++ p)))
         in sh\<lparr>ctx := x
              \<lparr>entityMasks :=
                 putMask (entityMasks x) (recWord r) (rowIndex e)
                   (maskAt (entityMasks x) (recWord r) (rowIndex e) OR recBitflag r),
               entityComponents :=
                 (entityComponents x)
                   (e \<mapsto> insert c (case entityComponents x e of None \<Rightarrow> {} | Some cs \<Rightarrow> cs)),
               componentRecords :=
                 (componentRecords x)
                   (c \<mapsto> r\<lparr>recStore := st, recEntities := insert e (recEntities r)\<rparr>),
               dirtyMasks :=
                 markAll (recWord r) (rowIndex e) (recBitflag r) (dirtyMasks x)\<rparr>\<rparr>))"
  by (simp add: addComponent_def)

lemma addComponent_unregistered:
  "componentRecords (ctx sh) c = None \<Longrightarrow>
   addComponent e c p sh = addComponent e c p (registerComponent c sh)"
  by (simp add: addComponent_def registerComponent_def Let_def)

lemma registerComponent_registers:
  "componentRecords (ctx (registerComponent c sh)) c = Some (newRecord c sh)"
  by (simp add: registerComponent_def Let_def)

lemma addComponent_carries_registered:
  assumes "componentRecords (ctx sh) c = Some r"
  shows "carries (addComponent e c p sh) e c"
    and "carries sh e' c' \<Longrightarrow> carries (addComponent e c p sh) e' c'"
proof -
  show "carries (addComponent e c p sh) e c"
  proof (cases "carries sh e c")
    case True
    then show ?thesis
      unfolding addComponent_registered [OF assms] by (simp add: setComponent_carries)
  next
    case False
    then show ?thesis
      unfolding addComponent_registered [OF assms]
      by (simp add: Let_def carries_def bitSet_def maskAt_putMask or_and_same)
  qed
  show "carries (addComponent e c p sh) e' c'" if "carries sh e' c'"
  proof (cases "carries sh e c")
    case True
    then show ?thesis
      unfolding addComponent_registered [OF assms] using that by (simp add: setComponent_carries)
  next
    case False
    then show ?thesis
      unfolding addComponent_registered [OF assms]
      using assms that
      by (auto simp: Let_def carries_def bitSet_def maskAt_putMask or_keeps split: option.splits)
  qed
qed

lemma addComponent_carries: "carries (addComponent e c p sh) e c"
proof (cases "componentRecords (ctx sh) c")
  case None
  show ?thesis
    unfolding addComponent_unregistered [OF None]
    by (rule addComponent_carries_registered(1) [OF registerComponent_registers])
next
  case (Some r)
  then show ?thesis by (rule addComponent_carries_registered(1))
qed

lemma addComponent_keeps_carries:
  assumes "carries sh e' c'"
  shows "carries (addComponent e c p sh) e' c'"
proof (cases "componentRecords (ctx sh) c")
  case None
  have "carries (registerComponent c sh) e' c'"
    using assms None by (rule registerComponent_carries)
  then show ?thesis
    unfolding addComponent_unregistered [OF None]
    by (rule addComponent_carries_registered(2) [OF registerComponent_registers])
next
  case (Some r)
  then show ?thesis using assms by (rule addComponent_carries_registered(2))
qed

lemma addArgument_keeps_carries:
  "carries sh e' c' \<Longrightarrow> carries (addArgument e a sh) e' c'"
  by (cases a) (simp_all add: addComponent_keeps_carries)

lemma fold_addArgument_keeps_carries:
  "carries sh e' c' \<Longrightarrow> carries (fold (addArgument e) args sh) e' c'"
  by (induction args arbitrary: sh) (simp_all add: addArgument_keeps_carries)

lemma spec_createEntity_carries:
  "carries (snd (spec_createEntity i (Comp c # args) sh)) (fst (spec_createEntity i (Comp c # args) sh)) c"
  by (simp add: spec_createEntity_def split_beta fold_addArgument_keeps_carries addComponent_carries)

lemma spec_Query_run_excludes:
  "carries sh e IsExcluded \<Longrightarrow> e \<notin> set (fst (spec_Query_run q i sh))"
  by (simp add: spec_Query_run_def Let_def)

lemma spec_Query_new_carries:
  "carries (snd (spec_Query_new i ps sh)) e c = carries sh e c"
  by (rule carries_cong) (simp_all add: spec_Query_new_def Let_def)

lemma query_excludes:
  assumes "carries (shared w) e IsExcluded"
  shows "e \<notin> set (fst (World_query spec_deps args w))"
proof (cases args)
  case (Key key)
  then show ?thesis
    using assms
    by (simp add: World_query_def call_Query_run_def invoke_fst spec_deps_def
        spec_Query_run_excludes split: option.split)
next
  case (Parameters ps)
  show ?thesis
  proof (cases "queriesHashMap (ctx (shared w)) (createQueryHash spec_deps ps)")
    case (Some q)
    show ?thesis
      unfolding Parameters query_later [OF Some] call_Query_run_def
      using assms by (simp add: invoke_fst spec_deps_def spec_Query_run_excludes)
  next
    case None
    let ?w1 = "snd (call_Query_new spec_deps (world_id w) ps w)"
    let ?w2 = "on_ctx (\<lambda>c. c\<lparr>queriesHashMap := (queriesHashMap c)
              (createQueryHash spec_deps ps \<mapsto> fst (Query_new spec_deps (world_id w) ps (shared w)))\<rparr>)
            ?w1"
    have w1: "shared ?w1 = snd (spec_Query_new (world_id w) ps (shared w))"
      by (simp add: call_Query_new_def invoke_shared spec_deps_def)
    have "carries (shared ?w1) e IsExcluded"
      unfolding w1 using assms by (simp add: spec_Query_new_carries)
    moreover have "carries (shared ?w2) e IsExcluded = carries (shared ?w1) e IsExcluded"
      by (rule carries_cong) (simp_all add: on_ctx_simps)
    ultimately have "carries (shared ?w2) e IsExcluded" by simp
    then show ?thesis
      unfolding Parameters query_first [OF None] call_Query_run_def
      by (simp add: invoke_fst spec_deps_def spec_Query_run_excludes)
  qed
qed


lemma ex_blank_state:
  "ex_blank =
     \<lparr>self = 7, world_id = 0, isInitialized = False,
      shared =
        \<lparr>ctx =
           \<lparr>entityIndex = \<lparr>indexWorldId = 0, rows = [], freeRows = []\<rparr>,
            entityMasks = [[]],
            entityComponents = Map.empty,
            bitflag = 1,
            componentRecords = Map.empty,
            queries = {}, queriesHashMap = Map.empty, notQueries = {},
            dirtyQueries = {}, relationTargetEntities = {},
            dirtyMasks = Map.empty, trackingSnapshots = Map.empty,
            changedMasks = Map.empty, worldEntity = None\<rparr>,
         components = {},
         universe =
           \<lparr>worldIndex = \<lparr>nextWorldId = 1, freeWorldIds = []\<rparr>,
            worlds = [], cachedQueries = []\<rparr>,
         heap = \<lparr>queryObjects = [], trackingCursor = 0\<rparr>\<rparr>,
      calls = [AllocateWorldId 0]\<rparr>"
  by (simp add: ex_blank_def World_fields_def ex_universe_def ex_heap_def spec_deps_def
      spec_allocateWorldId_def spec_createEntityIndex_def)

lemma ex_world_init: "ex_world = World_init spec_deps None ex_blank"
  by (simp add: ex_world_def createWorld_def World_new_def ex_blank_def)

lemma IsExcluded_schema: "cschema IsExcluded = []"
  by (simp add: IsExcluded_def)

lemma ex_world_state:
  "ex_world =
     \<lparr>self = 7, world_id = 0, isInitialized = True,
      shared =
        \<lparr>ctx =
           \<lparr>entityIndex = \<lparr>indexWorldId = 0, rows = [(0, True)], freeRows = []\<rparr>,
            entityMasks = [[1]],
            entityComponents = [Entity 0 0 0 \<mapsto> {IsExcluded}],
            bitflag = 2,
            componentRecords =
              [IsExcluded \<mapsto>
                 \<lparr>recBitflag = 1, recWord = 0, recStore = Map.empty,
                  recEntities = {Entity 0 0 0}, changedSubscriptions = {}\<rparr>],
            queries = {}, queriesHashMap = Map.empty, notQueries = {},
            dirtyQueries = {}, relationTargetEntities = {},
            dirtyMasks = Map.empty, trackingSnapshots = Map.empty,
            changedMasks = Map.empty, worldEntity = Some (Entity 0 0 0)\<rparr>,
         components = {IsExcluded},
         universe =
           \<lparr>worldIndex = \<lparr>nextWorldId = 1, freeWorldIds = []\<rparr>,
            worlds = [Some 7], cachedQueries = []\<rparr>,
         heap = \<lparr>queryObjects = [], trackingCursor = 0\<rparr>\<rparr>,
      calls = [AllocateWorldId 0, CreateEntity [Comp IsExcluded] (Entity 0 0 0)]\<rparr>"
  unfolding ex_world_init ex_blank_state
  by (simp add: World_init_def
      spec_defs call_defs invoke_def on_ctx_def on_universe_def componentsArray_def
      allocateEntity_def addComponent_def registerComponent_def newRecord_def carries_def
      bitSet_def maskAt_def putMask_def nth_or_def put_at_def array_put_def markAll_def
      createFastSetFunction_def new_Function_def Object_keys_def Let_def IsExcluded_schema)


lemma created_world_entity:
  fixes w :: spec_world and i c args
  defines "r \<equiv> call_createEntity spec_deps i (Comp c # args) w"
  defines "w' \<equiv> on_ctx (\<lambda>x. x\<lparr>worldEntity := Some (fst r)\<rparr>) (snd r)"
  shows "worldEntity (ctx (shared w')) = Some (fst r)"
    and "last (calls w') = CreateEntity (Comp c # args) (fst r)"
    and "carries (shared w') (fst r) c"
proof -
  show "worldEntity (ctx (shared w')) = Some (fst r)"
    by (simp add: w'_def on_ctx_simps)
  show "last (calls w') = CreateEntity (Comp c # args) (fst r)"
    by (simp add: w'_def r_def on_ctx_simps call_createEntity_def invoke_calls invoke_fst)
  have "carries (shared (snd r)) (fst r) c"
    by (simp add: r_def call_createEntity_def invoke_shared invoke_fst spec_deps_def
        spec_createEntity_carries)
  moreover have "carries (shared w') (fst r) c = carries (shared (snd r)) (fst r) c"
    unfolding w'_def by (rule carries_cong) (simp_all add: on_ctx_simps)
  ultimately show "carries (shared w') (fst r) c" by simp
qed

lemma init_creates:
  assumes "\<not> isInitialized w"
  shows "\<exists>w4. World_init spec_deps comps w =
     on_ctx (\<lambda>x. x\<lparr>worldEntity := Some (fst (call_createEntity spec_deps (world_id w)
                      (Comp IsExcluded # componentsArray comps) w4))\<rparr>)
       (snd (call_createEntity spec_deps (world_id w) (Comp IsExcluded # componentsArray comps) w4))"
  using assms by (auto simp: World_init_def Let_def split_beta)

lemma reset_creates:
  "World_reset spec_deps w =
     on_ctx (\<lambda>x. x\<lparr>worldEntity := Some (fst (call_createEntity spec_deps (world_id w)
                      [Comp IsExcluded] (reset_cleared spec_deps w)))\<rparr>)
       (snd (call_createEntity spec_deps (world_id w) [Comp IsExcluded] (reset_cleared spec_deps w)))"
  unfolding reset_skip_destroy [OF spec_fresh_index_empty] by (simp add: split_beta)

section \<open>The excluded tag is kept\<close>

text \<open>
  \<open>tag_safe\<close> reads only the bitflags and words of the registry entries, the next bitflag
  and the number of mask words; it survives when the masks get longer.
\<close>

lemma tag_safe_mono:
  assumes "tag_safe sh"
    and "bitflag (ctx sh') = bitflag (ctx sh)"
    and "length (entityMasks (ctx sh)) \<le> length (entityMasks (ctx sh'))"
    and "\<And>c. map_option (\<lambda>r. (recBitflag r, recWord r)) (componentRecords (ctx sh') c) =
             map_option (\<lambda>r. (recBitflag r, recWord r)) (componentRecords (ctx sh) c)"
  shows "tag_safe sh'"
proof -
  from assms(1) obtain r0 m where
    r0: "componentRecords (ctx sh) IsExcluded = Some r0"
    and bf: "bitflag (ctx sh) = 2 ^ m"
    and wd: "recWord r0 < length (entityMasks (ctx sh))"
    and last: "Suc (recWord r0) = length (entityMasks (ctx sh)) \<longrightarrow> recBitflag r0 < 2 ^ m"
    and others: "\<And>c r. c \<noteq> IsExcluded \<Longrightarrow> componentRecords (ctx sh) c = Some r \<Longrightarrow>
        recWord r = recWord r0 \<Longrightarrow> recBitflag r AND recBitflag r0 = 0"
    unfolding tag_safe_def by blast
  from assms(4) [of IsExcluded] r0 obtain r0' where
    r0': "componentRecords (ctx sh') IsExcluded = Some r0'"
    and same0: "recBitflag r0' = recBitflag r0" "recWord r0' = recWord r0"
    by (cases "componentRecords (ctx sh') IsExcluded") auto
  have "\<And>c r'. c \<noteq> IsExcluded \<Longrightarrow> componentRecords (ctx sh') c = Some r' \<Longrightarrow>
        recWord r' = recWord r0' \<Longrightarrow> recBitflag r' AND recBitflag r0' = 0"
  proof -
    fix c r'
    assume c: "c \<noteq> IsExcluded" and r': "componentRecords (ctx sh') c = Some r'"
      and w: "recWord r' = recWord r0'"
    from assms(4) [of c] r' obtain r where
      r: "componentRecords (ctx sh) c = Some r" "recBitflag r' = recBitflag r" "recWord r' = recWord r"
      by (cases "componentRecords (ctx sh) c") auto
    with others [OF c r(1)] w same0 show "recBitflag r' AND recBitflag r0' = 0" by simp
  qed
  moreover have "recWord r0' < length (entityMasks (ctx sh'))"
    using wd assms(3) same0 by simp
  moreover have "Suc (recWord r0') = length (entityMasks (ctx sh')) \<longrightarrow> recBitflag r0' < 2 ^ m"
    using wd last assms(3) same0 by auto
  ultimately show ?thesis
    unfolding tag_safe_def using r0' bf assms(2) by auto
qed


lemma length_put_at: "length (put_at d xs i v) = max (length xs) (Suc i)"
  by (simp add: put_at_def)

lemma length_putMask: "length masks \<le> length (putMask masks word row m)"
  by (simp add: putMask_def length_put_at)

lemma setComponent_tag_safe: "tag_safe sh \<Longrightarrow> tag_safe (setComponent e c p sh)"
  by (erule tag_safe_mono)
    (auto simp: setComponent_def Let_def split: option.split sum.split prod.split)

lemma registerComponent_tag_safe:
  assumes "tag_safe sh" and "componentRecords (ctx sh) c = None"
  shows "tag_safe (registerComponent c sh)"
proof -
  from assms(1) obtain r0 m where
    r0: "componentRecords (ctx sh) IsExcluded = Some r0"
    and bf: "bitflag (ctx sh) = 2 ^ m"
    and wd: "recWord r0 < length (entityMasks (ctx sh))"
    and last: "Suc (recWord r0) = length (entityMasks (ctx sh)) \<longrightarrow> recBitflag r0 < 2 ^ m"
    and others: "\<And>c r. c \<noteq> IsExcluded \<Longrightarrow> componentRecords (ctx sh) c = Some r \<Longrightarrow>
        recWord r = recWord r0 \<Longrightarrow> recBitflag r AND recBitflag r0 = 0"
    unfolding tag_safe_def by blast
  from r0 assms(2) have ne: "c \<noteq> IsExcluded" by auto
  have new: "recWord (newRecord c sh) = recWord r0 \<Longrightarrow>
      recBitflag (newRecord c sh) AND recBitflag r0 = 0"
  proof -
    assume "recWord (newRecord c sh) = recWord r0"
    then have "Suc (recWord r0) = length (entityMasks (ctx sh))"
      using wd by (simp add: newRecord_def)
    with last have "recBitflag r0 < 2 ^ m" by simp
    then have "\<not> bit (recBitflag r0) m"
      by (simp add: bit_iff_odd)
    then have "(2 :: nat) ^ m AND recBitflag r0 = 0"
      by (simp add: and_exp_eq_0_iff_not_bit and.commute)
    then show ?thesis by (simp add: newRecord_def bf)
  qed
  show ?thesis
  proof (cases "(2 :: nat) ^ 32 \<le> 2 * bitflag (ctx sh)")
    case True
    show ?thesis
      unfolding tag_safe_def
      apply (rule exI [of _ r0], rule exI [of _ 0])
      using True r0 ne wd others new
      by (auto simp: registerComponent_def Let_def)
  next
    case False
    show ?thesis
      unfolding tag_safe_def
      apply (rule exI [of _ r0], rule exI [of _ "Suc m"])
      using False r0 ne wd others new last bf
      by (auto simp: registerComponent_def Let_def)
  qed
qed


lemma addComponent_tag_safe:
  assumes "tag_safe sh"
  shows "tag_safe (addComponent e c p sh)"
proof -
  have reg: "tag_safe (addComponent e c p sh')"
    if ts: "tag_safe sh'" and r: "componentRecords (ctx sh') c = Some r" for sh' r
  proof (cases "carries sh' e c")
    case True
    then show ?thesis
      unfolding addComponent_registered [OF r] using ts by (simp add: setComponent_tag_safe)
  next
    case False
    show ?thesis
      unfolding addComponent_registered [OF r]
      using ts
      by (rule tag_safe_mono) (use False r in \<open>auto simp: Let_def length_putMask\<close>)
  qed
  show ?thesis
  proof (cases "componentRecords (ctx sh) c")
    case None
    show ?thesis
      unfolding addComponent_unregistered [OF None]
      by (rule reg [OF registerComponent_tag_safe [OF assms None] registerComponent_registers])
  next
    case (Some r)
    then show ?thesis using assms by (simp add: reg)
  qed
qed

lemma addArgument_tag_safe: "tag_safe sh \<Longrightarrow> tag_safe (addArgument e a sh)"
  by (cases a) (simp_all add: addComponent_tag_safe)

lemma fold_addArgument_tag_safe: "tag_safe sh \<Longrightarrow> tag_safe (fold (addArgument e) args sh)"
  by (induction args arbitrary: sh) (simp_all add: addArgument_tag_safe)

lemma removeComponent_tag_safe: "tag_safe sh \<Longrightarrow> tag_safe (removeComponent e c sh)"
  by (erule tag_safe_mono)
    (auto simp: removeComponent_def Let_def length_putMask split: option.split)

lemma fold_removeComponent_tag_safe:
  "tag_safe sh \<Longrightarrow> tag_safe (fold (removeComponent e) cs sh)"
  by (induction cs arbitrary: sh) (simp_all add: removeComponent_tag_safe)

lemma destroyOne_tag_safe: "tag_safe sh \<Longrightarrow> tag_safe (destroyOne e sh)"
  by (erule tag_safe_mono)
    (auto simp: destroyOne_def Let_def clearRow_def option.map_comp comp_def)

lemma resetTracker_tag_safe: "tag_safe sh \<Longrightarrow> tag_safe (resetTracker t sh)"
  by (erule tag_safe_mono) (auto simp: resetTracker_def Let_def)

lemma fold_resetTracker_tag_safe: "tag_safe sh \<Longrightarrow> tag_safe (fold resetTracker ts sh)"
  by (induction ts arbitrary: sh) (simp_all add: resetTracker_tag_safe)

lemma xor_keeps_disjoint:
  assumes "(m :: nat) AND f = f" and "b AND f = 0"
  shows "(m XOR b) AND f = f"
proof (rule bit_eqI)
  fix n
  from assms(1) have m: "bit f n \<Longrightarrow> bit m n"
    by (metis bit_and_iff)
  have "\<not> bit (b AND f) n" using assms(2) by simp
  then have b: "bit f n \<Longrightarrow> \<not> bit b n"
    by (simp add: bit_and_iff)
  show "bit ((m XOR b) AND f) n = bit f n"
    using m b by (auto simp: bit_and_iff bit_xor_iff)
qed

lemma removeComponent_keeps_tag:
  assumes ts: "tag_safe sh" and ne: "c \<noteq> IsExcluded" and car: "carries sh e' IsExcluded"
  shows "carries (removeComponent e c sh) e' IsExcluded"
proof (cases "componentRecords (ctx sh) c")
  case None
  then show ?thesis using car by (simp add: removeComponent_def)
next
  case (Some r)
  show ?thesis
  proof (cases "carries sh e c")
    case False
    then show ?thesis using car Some by (simp add: removeComponent_def)
  next
    case True
    from car obtain r0 where r0: "componentRecords (ctx sh) IsExcluded = Some r0"
      and b0: "maskAt (entityMasks (ctx sh)) (recWord r0) (rowIndex e') AND recBitflag r0 = recBitflag r0"
      by (auto simp: carries_def bitSet_def split: option.splits)
    from ts r0 Some ne have dis: "recWord r = recWord r0 \<Longrightarrow> recBitflag r AND recBitflag r0 = 0"
      unfolding tag_safe_def by auto
    have "maskAt (putMask (entityMasks (ctx sh)) (recWord r) (rowIndex e)
            (maskAt (entityMasks (ctx sh)) (recWord r) (rowIndex e) XOR recBitflag r))
            (recWord r0) (rowIndex e') AND recBitflag r0 = recBitflag r0"
      using b0 dis by (auto simp: maskAt_putMask xor_keeps_disjoint)
    then show ?thesis
      using True Some r0 ne
      by (simp add: removeComponent_def Let_def carries_def bitSet_def)
  qed
qed

lemma fold_removeComponent_keeps_tag:
  "tag_safe sh \<Longrightarrow> IsExcluded \<notin> set cs \<Longrightarrow> carries sh e' IsExcluded \<Longrightarrow>
   carries (fold (removeComponent e) cs sh) e' IsExcluded"
proof (induction cs arbitrary: sh)
  case Nil
  then show ?case by simp
next
  case (Cons a cs)
  from Cons.prems have ne: "a \<noteq> IsExcluded" and rest: "IsExcluded \<notin> set cs" by auto
  have "tag_safe (removeComponent e a sh)"
    using Cons.prems(1) by (rule removeComponent_tag_safe)
  moreover have "carries (removeComponent e a sh) e' IsExcluded"
    using Cons.prems(1) ne Cons.prems(3) by (rule removeComponent_keeps_tag)
  ultimately show ?case using Cons.IH rest by simp
qed


lemma tag_safe_cong:
  "componentRecords (ctx sh') = componentRecords (ctx sh) \<Longrightarrow>
   bitflag (ctx sh') = bitflag (ctx sh) \<Longrightarrow>
   entityMasks (ctx sh') = entityMasks (ctx sh) \<Longrightarrow> tag_safe sh' = tag_safe sh"
  by (simp add: tag_safe_def)

lemma tag_ok_cong:
  "componentRecords (ctx sh') = componentRecords (ctx sh) \<Longrightarrow>
   bitflag (ctx sh') = bitflag (ctx sh) \<Longrightarrow>
   entityMasks (ctx sh') = entityMasks (ctx sh) \<Longrightarrow>
   worldEntity (ctx sh') = worldEntity (ctx sh) \<Longrightarrow> tag_ok sh' = tag_ok sh"
  by (simp add: tag_ok_def tag_safe_cong [of sh' sh] carries_cong [of sh' _ sh]
      split: option.split)

lemma tag_okI:
  assumes "tag_safe sh'" and "worldEntity (ctx sh') = worldEntity (ctx sh)"
    and "\<And>e. carries sh e IsExcluded \<Longrightarrow> carries sh' e IsExcluded"
    and "tag_ok sh"
  shows "tag_ok sh'"
  using assms by (auto simp: tag_ok_def split: option.splits)

lemma worldEntity_frame:
  "worldEntity (ctx (registerComponent c sh)) = worldEntity (ctx sh)"
  "worldEntity (ctx (setComponent e c p sh)) = worldEntity (ctx sh)"
  "worldEntity (ctx (removeComponent e c sh)) = worldEntity (ctx sh)"
  "worldEntity (ctx (destroyOne e sh)) = worldEntity (ctx sh)"
  "worldEntity (ctx (resetTracker t sh)) = worldEntity (ctx sh)"
  by (simp_all add: registerComponent_def setComponent_def removeComponent_def destroyOne_def
      resetTracker_def Let_def split: option.split sum.split prod.split)

lemma addComponent_worldEntity:
  "worldEntity (ctx (addComponent e c p sh)) = worldEntity (ctx sh)"
  by (simp add: addComponent_def Let_def worldEntity_frame split: option.split)

lemma fold_addArgument_worldEntity:
  "worldEntity (ctx (fold (addArgument e) args sh)) = worldEntity (ctx sh)"
proof (induction args arbitrary: sh)
  case Nil
  then show ?case by simp
next
  case (Cons a args)
  then show ?case by (cases a) (simp_all add: addComponent_worldEntity)
qed

lemma fold_removeComponent_worldEntity:
  "worldEntity (ctx (fold (removeComponent e) cs sh)) = worldEntity (ctx sh)"
  by (induction cs arbitrary: sh) (simp_all add: worldEntity_frame)

lemma fold_resetTracker_registry:
  "componentRecords (ctx (fold resetTracker ts sh)) = componentRecords (ctx sh)"
  "bitflag (ctx (fold resetTracker ts sh)) = bitflag (ctx sh)"
  "entityMasks (ctx (fold resetTracker ts sh)) = entityMasks (ctx sh)"
  "worldEntity (ctx (fold resetTracker ts sh)) = worldEntity (ctx sh)"
  by (induction ts arbitrary: sh; simp add: resetTracker_def Let_def)+

lemma tag_ok_add: "tag_ok sh \<Longrightarrow> tag_ok (fold (addArgument e) args sh)"
  by (rule tag_okI [where sh = sh])
    (simp_all add: fold_addArgument_tag_safe fold_addArgument_worldEntity
      fold_addArgument_keeps_carries tag_ok_def)

lemma tag_ok_remove:
  "tag_ok sh \<Longrightarrow> IsExcluded \<notin> set cs \<Longrightarrow> tag_ok (fold (removeComponent e) cs sh)"
  by (rule tag_okI [where sh = sh])
    (simp_all add: fold_removeComponent_tag_safe fold_removeComponent_worldEntity
      fold_removeComponent_keeps_tag tag_ok_def)

lemma tag_ok_set: "tag_ok sh \<Longrightarrow> tag_ok (setComponent e c p sh)"
  by (rule tag_okI [where sh = sh])
    (simp_all add: setComponent_tag_safe worldEntity_frame setComponent_carries tag_ok_def)

lemma tag_ok_register:
  "tag_ok sh \<Longrightarrow> componentRecords (ctx sh) c = None \<Longrightarrow> tag_ok (registerComponent c sh)"
  by (rule tag_okI [where sh = sh])
    (simp_all add: registerComponent_tag_safe worldEntity_frame registerComponent_carries
      tag_ok_def)

lemma tag_ok_resetTrackers: "tag_ok (fold resetTracker ts sh) = tag_ok sh"
  by (rule tag_ok_cong) (simp_all add: fold_resetTracker_registry)


lemma tag_ok_createEntity: "tag_ok sh \<Longrightarrow> tag_ok (snd (spec_createEntity i args sh))"
proof -
  assume ok: "tag_ok sh"
  obtain e index where a: "allocateEntity (entityIndex (ctx sh)) = (e, index)"
    by (cases "allocateEntity (entityIndex (ctx sh))")
  have "tag_ok (sh\<lparr>ctx := (ctx sh)\<lparr>entityIndex := index\<rparr>\<rparr>) = tag_ok sh"
    by (rule tag_ok_cong) simp_all
  with ok have "tag_ok (fold (addArgument e) args (sh\<lparr>ctx := (ctx sh)\<lparr>entityIndex := index\<rparr>\<rparr>))"
    by (simp add: tag_ok_add)
  then show ?thesis by (simp add: spec_createEntity_def a)
qed

lemma tag_safe_establish:
  assumes "componentRecords (ctx sh) = Map.empty" "bitflag (ctx sh) = 1" "entityMasks (ctx sh) = [[]]"
  shows "tag_safe (addComponent e IsExcluded p sh)"
proof -
  have "componentRecords (ctx sh) IsExcluded = None" using assms by simp
  have reg: "tag_safe (registerComponent IsExcluded sh)"
    unfolding tag_safe_def
    apply (rule exI [of _ "newRecord IsExcluded sh"], rule exI [of _ 1])
    using assms by (simp add: registerComponent_def Let_def newRecord_def)
  show ?thesis
    unfolding addComponent_unregistered [OF \<open>componentRecords (ctx sh) IsExcluded = None\<close>]
    using reg by (rule addComponent_tag_safe)
qed

lemma tag_safe_createEntity_fresh:
  assumes "componentRecords (ctx sh) = Map.empty" "bitflag (ctx sh) = 1" "entityMasks (ctx sh) = [[]]"
  shows "tag_safe (snd (spec_createEntity i (Comp IsExcluded # args) sh))"
proof -
  obtain e index where a: "allocateEntity (entityIndex (ctx sh)) = (e, index)"
    by (cases "allocateEntity (entityIndex (ctx sh))")
  have "tag_safe (addComponent e IsExcluded Map.empty (sh\<lparr>ctx := (ctx sh)\<lparr>entityIndex := index\<rparr>\<rparr>))"
    by (rule tag_safe_establish) (simp_all add: assms)
  then show ?thesis
    by (simp add: spec_createEntity_def a fold_addArgument_tag_safe)
qed

lemma tag_safe_createEntity:
  "tag_safe sh \<Longrightarrow> tag_safe (snd (spec_createEntity i args sh))"
proof -
  assume ts: "tag_safe sh"
  obtain e index where a: "allocateEntity (entityIndex (ctx sh)) = (e, index)"
    by (cases "allocateEntity (entityIndex (ctx sh))")
  have "tag_safe (sh\<lparr>ctx := (ctx sh)\<lparr>entityIndex := index\<rparr>\<rparr>) = tag_safe sh"
    by (rule tag_safe_cong) simp_all
  with ts show ?thesis by (simp add: spec_createEntity_def a fold_addArgument_tag_safe)
qed

text \<open>A world entity just created: the tag is safe and the new world entity carries it.\<close>

lemma tag_ok_created:
  fixes w :: spec_world and i args
  defines "r \<equiv> call_createEntity spec_deps i (Comp IsExcluded # args) w"
  assumes "tag_safe (shared (snd r))"
  shows "tag_ok (shared (on_ctx (\<lambda>x. x\<lparr>worldEntity := Some (fst r)\<rparr>) (snd r)))"
proof -
  let ?w' = "on_ctx (\<lambda>x. x\<lparr>worldEntity := Some (fst r)\<rparr>) (snd r)"
  have "carries (shared ?w') (fst r) IsExcluded"
    unfolding r_def by (rule created_world_entity)
  moreover have "tag_safe (shared ?w') = tag_safe (shared (snd r))"
    by (rule tag_safe_cong) (simp_all add: on_ctx_simps)
  moreover have "worldEntity (ctx (shared ?w')) = Some (fst r)"
    by (simp add: on_ctx_simps)
  ultimately show ?thesis using assms(2) by (simp add: tag_ok_def)
qed

lemma reset_tag_ok: "tag_ok (shared (World_reset spec_deps w))"
  unfolding reset_creates
proof (rule tag_ok_created)
  show "tag_safe (shared (snd (call_createEntity spec_deps (world_id w) [Comp IsExcluded]
      (reset_cleared spec_deps w))))"
    by (simp add: call_createEntity_def invoke_shared spec_deps_def reset_cleared_def
        tag_safe_createEntity_fresh)
qed


lemma same_registry_refl: "same_registry w w"
  by (simp add: same_registry_def)

lemma same_registry_trans:
  "same_registry w'' w' \<Longrightarrow> same_registry w' w \<Longrightarrow> same_registry w'' w"
  by (simp add: same_registry_def)

lemma fold_same_registry:
  assumes "\<And>a w. same_registry (f a w) w"
  shows "same_registry (fold f xs w) w"
proof (induction xs arbitrary: w)
  case Nil
  then show ?case by (simp add: same_registry_refl)
next
  case (Cons a xs)
  have "same_registry (fold f xs (f a w)) (f a w)" by (rule Cons.IH)
  moreover have "same_registry (f a w) w" by (rule assms)
  ultimately have "same_registry (fold f xs (f a w)) w" by (rule same_registry_trans)
  then show ?case by simp
qed

lemma tracking_loop_registry:
  "same_registry (fold (\<lambda>t. snd \<circ> call_setTrackingMasks spec_deps i t) ts w) w"
  by (rule fold_same_registry)
    (simp add: same_registry_def call_setTrackingMasks_def invoke_shared spec_deps_def
      spec_setTrackingMasks_def resetTracker_def Let_def)

lemma cached_loop_registry:
  "same_registry
     (fold (\<lambda>(hash, ps) w'.
              let (query, w'') = call_Query_new spec_deps i ps w'
              in on_ctx (\<lambda>c. c\<lparr>queriesHashMap := (queriesHashMap c)(hash \<mapsto> query)\<rparr>) w'')
        cq w) w"
  by (rule fold_same_registry)
    (simp add: same_registry_def on_ctx_simps call_Query_new_def invoke_shared spec_deps_def
      spec_Query_new_def Let_def split_beta)

lemma init_creates_registry:
  assumes "\<not> isInitialized w"
  shows "\<exists>w4. same_registry w4 w \<and> World_init spec_deps comps w =
     on_ctx (\<lambda>x. x\<lparr>worldEntity := Some (fst (call_createEntity spec_deps (world_id w)
                      (Comp IsExcluded # componentsArray comps) w4))\<rparr>)
       (snd (call_createEntity spec_deps (world_id w) (Comp IsExcluded # componentsArray comps) w4))"
proof -
  let ?w2 = "on_universe (\<lambda>u. u\<lparr>worlds := array_put (worlds u) (world_id w) (self w)\<rparr>)
      (w\<lparr>isInitialized := True\<rparr>)"
  let ?w3 = "fold (\<lambda>t. snd \<circ> call_setTrackingMasks spec_deps (world_id w) t)
      [0..<getTrackingCursor spec_deps (heap (shared ?w2))] ?w2"
  let ?w4 = "fold (\<lambda>(hash, ps) w'.
              let (query, w'') = call_Query_new spec_deps (world_id w) ps w'
              in on_ctx (\<lambda>c. c\<lparr>queriesHashMap := (queriesHashMap c)(hash \<mapsto> query)\<rparr>) w'')
        (cachedQueries (universe (shared ?w3))) ?w3"
  have "same_registry ?w2 w" by (simp add: same_registry_def on_universe_simps)
  moreover have "same_registry ?w3 ?w2" by (rule tracking_loop_registry)
  moreover have "same_registry ?w4 ?w3" by (rule cached_loop_registry)
  ultimately have "same_registry ?w4 w" by (blast intro: same_registry_trans)
  moreover have "World_init spec_deps comps w =
     on_ctx (\<lambda>x. x\<lparr>worldEntity := Some (fst (call_createEntity spec_deps (world_id w)
                      (Comp IsExcluded # componentsArray comps) ?w4))\<rparr>)
       (snd (call_createEntity spec_deps (world_id w) (Comp IsExcluded # componentsArray comps) ?w4))"
    using assms by (simp add: World_init_def Let_def split_beta)
  ultimately show ?thesis by blast
qed

lemma init_tag_ok:
  assumes "tag_ok (shared w)"
  shows "tag_ok (shared (World_init spec_deps comps w))"
proof (cases "isInitialized w")
  case True
  then show ?thesis using assms by (simp add: World_init_def)
next
  case False
  from init_creates_registry [OF False, of comps] obtain w4 where
    reg: "same_registry w4 w" and
    eq: "World_init spec_deps comps w =
      on_ctx (\<lambda>x. x\<lparr>worldEntity := Some (fst (call_createEntity spec_deps (world_id w)
                      (Comp IsExcluded # componentsArray comps) w4))\<rparr>)
       (snd (call_createEntity spec_deps (world_id w) (Comp IsExcluded # componentsArray comps) w4))"
    by blast
  have "tag_safe (shared w4) = tag_safe (shared w)"
    using reg by (intro tag_safe_cong) (simp_all add: same_registry_def)
  with assms have "tag_safe (shared w4)" by (simp add: tag_ok_def)
  then have "tag_safe (shared (snd (call_createEntity spec_deps (world_id w)
      (Comp IsExcluded # componentsArray comps) w4)))"
    by (simp add: call_createEntity_def invoke_shared spec_deps_def tag_safe_createEntity)
  then show ?thesis unfolding eq by (rule tag_ok_created)
qed

lemma createWorld_tag_ok: "tag_ok (shared (createWorld spec_deps this comps u h))"
proof -
  let ?w0 = "World_fields spec_deps this u h"
  have un: "\<not> isInitialized ?w0"
    by (simp add: World_fields_def split_beta)
  have fresh: "componentRecords (ctx (shared ?w0)) = Map.empty" "bitflag (ctx (shared ?w0)) = 1"
    "entityMasks (ctx (shared ?w0)) = [[]]"
    by (simp_all add: World_fields_def split_beta)
  from init_creates_registry [OF un, of comps] obtain w4 where
    reg: "same_registry w4 ?w0" and
    eq: "World_init spec_deps comps ?w0 =
      on_ctx (\<lambda>x. x\<lparr>worldEntity := Some (fst (call_createEntity spec_deps (world_id ?w0)
                      (Comp IsExcluded # componentsArray comps) w4))\<rparr>)
       (snd (call_createEntity spec_deps (world_id ?w0) (Comp IsExcluded # componentsArray comps) w4))"
    by blast
  have "tag_safe (shared (snd (call_createEntity spec_deps (world_id ?w0)
      (Comp IsExcluded # componentsArray comps) w4)))"
    using reg fresh
    by (simp add: call_createEntity_def invoke_shared spec_deps_def same_registry_def
        tag_safe_createEntity_fresh)
  then have "tag_ok (shared (World_init spec_deps comps ?w0))"
    unfolding eq by (rule tag_ok_created)
  then show ?thesis by (simp add: createWorld_def World_new_def)
qed


lemma on_worldEntity_tag_ok:
  assumes "tag_ok (shared w)" and "\<And>e. tag_ok (shared (snd (m e)))"
  shows "tag_ok (shared (snd (on_worldEntity w m)))"
  using assms by (simp add: on_worldEntity_def split_beta split: option.split)

lemma getStores_tag_ok:
  "tag_ok (shared w) \<Longrightarrow> tag_ok (shared (snd (getStores spec_deps cs w)))"
proof (induction cs arbitrary: w)
  case Nil
  then show ?case by simp
next
  case (Cons c cs)
  have "tag_ok (shared (snd (call_getStore spec_deps (world_id w) c w)))"
    using Cons.prems
    by (simp add: call_getStore_def invoke_shared spec_deps_def spec_getStore_def
        tag_ok_register split: option.split)
  from Cons.IH [OF this] show ?case by (simp add: split_beta Let_def)
qed

lemma fold_destroyEntity_tag_safe:
  "tag_safe (shared w) \<Longrightarrow>
   tag_safe (shared (fold (\<lambda>entity. snd \<circ> call_destroyEntity spec_deps i entity) es w))"
proof (induction es arbitrary: w)
  case Nil
  then show ?case by simp
next
  case (Cons e es)
  have "tag_safe (shared (snd (call_destroyEntity spec_deps i e w)))"
    using Cons.prems
    by (simp add: call_destroyEntity_def invoke_shared spec_deps_def spec_destroyEntity_def
        destroyOne_tag_safe)
  from Cons.IH [OF this] show ?case by simp
qed

lemma query_run_tag_ok:
  "tag_ok (shared w) \<Longrightarrow> tag_ok (shared (snd (call_Query_run spec_deps q i w)))"
  by (simp add: call_Query_run_def invoke_shared spec_deps_def spec_Query_run_def Let_def
      tag_ok_resetTrackers)

lemma query_new_tag_ok:
  "tag_ok (shared (on_ctx (\<lambda>c. c\<lparr>queriesHashMap := g c\<rparr>)
      (snd (call_Query_new spec_deps i ps w)))) = tag_ok (shared w)"
  by (rule tag_ok_cong)
    (simp_all add: on_ctx_simps call_Query_new_def invoke_shared spec_deps_def
      spec_Query_new_def Let_def)

lemma query_tag_ok:
  assumes "tag_ok (shared w)"
  shows "tag_ok (shared (snd (World_query spec_deps args w)))"
proof (cases args)
  case (Key key)
  then show ?thesis
    using assms by (simp add: World_query_def query_run_tag_ok split: option.split)
next
  case (Parameters ps)
  then show ?thesis
    using assms
    by (simp add: World_query_def Let_def split_beta query_run_tag_ok query_new_tag_ok
        split: option.split)
qed

lemma subscribe_tag_ok:
  assumes "tag_ok (shared w)"
  shows "tag_ok (shared (snd (World_query_subscribe spec_deps ps cb w)))"
proof -
  have "tag_ok (shared (snd (World_query_subscribe spec_deps ps cb w))) =
      tag_ok (shared w)"
    by (rule tag_ok_cong)
      (simp_all add: World_query_subscribe_def Let_def split_beta on_ctx_simps
        call_Query_new_def invoke_shared spec_deps_def spec_Query_new_def
        split: option.split)
  with assms show ?thesis by simp
qed

lemma changed_tag_ok:
  assumes "tag_ok (shared w)"
  shows "tag_ok (shared (World_changed spec_deps e c w))"
proof -
  have "tag_ok (shared (World_changed spec_deps e c w)) = tag_ok (shared w)"
    by (rule tag_ok_cong)
      (simp_all add: World_changed_def call_setChanged_def invoke_shared spec_deps_def
        spec_setChanged_def split: option.split)
  with assms show ?thesis by simp
qed


lemma changed_subscribe_shared:
  "shared (snd (World_changed_subscribe spec_deps c cb w)) =
     (shared w)\<lparr>ctx := (ctx (shared w))\<lparr>componentRecords :=
        (componentRecords (ctx (shared w)))
          (c \<mapsto> (case componentRecords (ctx (shared w)) c of
                     None \<Rightarrow> newRecord c (shared w) | Some r \<Rightarrow> r)
                  \<lparr>changedSubscriptions :=
                     insert cb (changedSubscriptions
                       (case componentRecords (ctx (shared w)) c of
                          None \<Rightarrow> newRecord c (shared w) | Some r \<Rightarrow> r))\<rparr>)\<rparr>\<rparr>"
  by (simp add: World_changed_subscribe_def Let_def split_beta on_ctx_def
      call_ComponentRecord_new_def invoke_shared invoke_fst spec_deps_def
      spec_ComponentRecord_new_def spec_changedSubscriptions_add_def
      split: option.split)

lemma subscribed_record_tag_ok:
  assumes ok: "tag_ok sh"
    and r: "r = (case componentRecords (ctx sh) c of None \<Rightarrow> newRecord c sh | Some r \<Rightarrow> r)"
  shows "tag_ok (sh\<lparr>ctx := (ctx sh)\<lparr>componentRecords :=
      (componentRecords (ctx sh))(c \<mapsto> r\<lparr>changedSubscriptions := X\<rparr>)\<rparr>\<rparr>)"
    (is "tag_ok ?sh'")
proof -
  from ok obtain r0 m where
    r0: "componentRecords (ctx sh) IsExcluded = Some r0"
    and bf: "bitflag (ctx sh) = 2 ^ m"
    and wd: "recWord r0 < length (entityMasks (ctx sh))"
    and last: "Suc (recWord r0) = length (entityMasks (ctx sh)) \<longrightarrow> recBitflag r0 < 2 ^ m"
    and others: "\<And>c r. c \<noteq> IsExcluded \<Longrightarrow> componentRecords (ctx sh) c = Some r \<Longrightarrow>
        recWord r = recWord r0 \<Longrightarrow> recBitflag r AND recBitflag r0 = 0"
    unfolding tag_ok_def tag_safe_def by blast
  have new: "recWord (newRecord c sh) = recWord r0 \<Longrightarrow>
      recBitflag (newRecord c sh) AND recBitflag r0 = 0"
  proof -
    assume "recWord (newRecord c sh) = recWord r0"
    then have "Suc (recWord r0) = length (entityMasks (ctx sh))"
      using wd by (simp add: newRecord_def)
    with last have "recBitflag r0 < 2 ^ m" by simp
    then have "\<not> bit (recBitflag r0) m"
      by (simp add: bit_iff_odd)
    then have "(2 :: nat) ^ m AND recBitflag r0 = 0"
      by (simp add: and_exp_eq_0_iff_not_bit and.commute)
    then show ?thesis by (simp add: newRecord_def bf)
  qed
  have disjoint: "c \<noteq> IsExcluded \<Longrightarrow> recWord r = recWord r0 \<Longrightarrow>
      recBitflag r AND recBitflag r0 = 0"
    using others [of c] new by (cases "componentRecords (ctx sh) c") (simp_all add: r)
  have same: "c = IsExcluded \<Longrightarrow> r = r0"
    using r0 by (simp add: r)
  have safe: "tag_safe ?sh'"
  proof (cases "c = IsExcluded")
    case True
    show ?thesis
      unfolding tag_safe_def
      apply (rule exI [of _ "r0\<lparr>changedSubscriptions := X\<rparr>"], rule exI [of _ m])
      using True same bf wd last others by auto
  next
    case False
    show ?thesis
      unfolding tag_safe_def
      apply (rule exI [of _ r0], rule exI [of _ m])
      using False r0 bf wd last others disjoint by auto
  qed
  have keep: "carries ?sh' e IsExcluded" if "carries sh e IsExcluded" for e
    using that r0 same by (auto simp: carries_def bitSet_def)
  from safe _ keep ok show ?thesis
    by (rule tag_okI) simp
qed

lemma changed_subscribe_tag_ok:
  assumes "tag_ok (shared w)"
  shows "tag_ok (shared (snd (World_changed_subscribe spec_deps c cb w)))"
  unfolding changed_subscribe_shared using assms by (rule subscribed_record_tag_ok) simp

lemma destroy_tag_ok:
  assumes "tag_ok (shared w)"
  shows "tag_ok (shared (World_destroy spec_deps w))"
proof -
  let ?w2 = "World_reset spec_deps
      (fold (\<lambda>entity. snd \<circ> call_destroyEntity spec_deps (world_id w) entity)
         (World_entities spec_deps w) w)"
  let ?w5 = "on_universe (\<lambda>u. u\<lparr>worlds := splice (worlds u) (indexOf (worlds u) (self w)) 1\<rparr>)
      ((on_universe (\<lambda>u. u\<lparr>worldIndex := releaseWorldId spec_deps (worldIndex u) (world_id w)\<rparr>)
          (?w2\<lparr>isInitialized := False\<rparr>))
        \<lparr>calls := calls (?w2\<lparr>isInitialized := False\<rparr>) @ [ReleaseWorldId (world_id w)]\<rparr>)"
  let ?w6 = "case worldEntity (ctx (shared ?w5)) of
               None \<Rightarrow> ?w5
             | Some e \<Rightarrow> snd (call_destroyEntity spec_deps (world_id w) e ?w5)"
  have "tag_safe (shared ?w2)"
    using reset_tag_ok by (simp add: tag_ok_def)
  moreover have "tag_safe (shared ?w5) = tag_safe (shared ?w2)"
    by (rule tag_safe_cong) (simp_all add: on_universe_def)
  ultimately have "tag_safe (shared ?w5)" by simp
  then have "tag_safe (shared ?w6)"
    by (simp add: call_destroyEntity_def invoke_shared spec_deps_def spec_destroyEntity_def
        destroyOne_tag_safe split: option.split)
  moreover have "tag_safe (shared (on_ctx (\<lambda>c. c\<lparr>worldEntity := None\<rparr>) ?w6)) =
      tag_safe (shared ?w6)"
    by (rule tag_safe_cong) (simp_all add: on_ctx_simps)
  ultimately have "tag_ok (shared (on_ctx (\<lambda>c. c\<lparr>worldEntity := None\<rparr>) ?w6))"
    by (simp add: tag_ok_def on_ctx_simps)
  then show ?thesis unfolding World_destroy_def Let_def .
qed

lemma exec_tag_ok:
  assumes "tag_ok (shared w)" and "leaves_tag op"
  shows "tag_ok (shared (exec spec_deps op w))"
proof (cases op)
  case (Init comps)
  then show ?thesis using assms by (simp add: init_tag_ok)
next
  case (Spawn comps)
  then show ?thesis
    using assms
    by (simp add: World_spawn_def call_createEntity_def invoke_shared spec_deps_def
        tag_ok_createEntity)
next
  case (Has target)
  then show ?thesis
    using assms
    by (cases target)
      (simp_all add: World_has_def on_worldEntity_tag_ok call_Entity_has_def invoke_shared
        spec_deps_def spec_Entity_has_def)
next
  case (Add comps)
  then show ?thesis
    using assms
    by (simp add: World_add_def on_worldEntity_tag_ok call_Entity_add_def invoke_shared
        spec_deps_def spec_Entity_add_def tag_ok_add)
next
  case (Remove cs)
  then show ?thesis
    using assms
    by (simp add: World_remove_def on_worldEntity_tag_ok call_Entity_remove_def invoke_shared
        spec_deps_def spec_Entity_remove_def tag_ok_remove)
next
  case (Get c)
  then show ?thesis
    using assms
    by (simp add: World_get_def on_worldEntity_tag_ok call_Entity_get_def invoke_shared
        spec_deps_def spec_Entity_get_def split: option.split sum.split)
next
  case (Set c val)
  then show ?thesis
    using assms
    by (simp add: World_set_def on_worldEntity_tag_ok call_Entity_set_def invoke_shared
        spec_deps_def spec_Entity_set_def tag_ok_set)
next
  case (GetStore cs)
  then show ?thesis
    using assms by (simp add: World_getStore_def split_beta Let_def getStores_tag_ok)
next
  case Destroy
  then show ?thesis using assms by (simp add: destroy_tag_ok)
next
  case Reset
  then show ?thesis by (simp add: reset_tag_ok)
next
  case (GetTargets r e)
  then show ?thesis
    using assms
    by (simp add: World_getTargets_def call_getRelationTargets_def invoke_shared spec_deps_def
        spec_getRelationTargets_def)
next
  case (Query args)
  then show ?thesis using assms by (simp add: query_tag_ok)
next
  case (Subscribe ps cb)
  then show ?thesis using assms by (simp add: subscribe_tag_ok)
next
  case (ChangedCall e c)
  then show ?thesis using assms by (simp add: changed_tag_ok)
next
  case (ChangedSubscribe c cb)
  then show ?thesis using assms by (simp add: changed_subscribe_tag_ok)
qed

lemma fold_exec_tag_ok:
  "tag_ok (shared w) \<Longrightarrow> list_all leaves_tag ops \<Longrightarrow>
   tag_ok (shared (fold (exec spec_deps) ops w))"
proof (induction ops arbitrary: w)
  case Nil
  then show ?case by simp
next
  case (Cons op ops)
  from Cons.prems have "tag_ok (shared (exec spec_deps op w))"
    by (simp add: exec_tag_ok)
  from Cons.IH [OF this] Cons.prems(2) show ?case by simp
qed

lemma world_entity_stays_excluded:
  assumes "list_all leaves_tag ops"
    and "worldEntity (ctx (shared (fold (exec spec_deps) ops
           (createWorld spec_deps this comps u h)))) = Some e"
  shows "e \<notin> set (fst (World_query spec_deps args
           (fold (exec spec_deps) ops (createWorld spec_deps this comps u h))))"
proof -
  have "tag_ok (shared (fold (exec spec_deps) ops (createWorld spec_deps this comps u h)))"
    using createWorld_tag_ok assms(1) by (rule fold_exec_tag_ok)
  with assms(2) have "carries (shared (fold (exec spec_deps) ops
      (createWorld spec_deps this comps u h))) e IsExcluded"
    by (simp add: tag_ok_def)
  then show ?thesis by (rule query_excludes)
qed

lemma entityIndex_frame:
  "entityIndex (ctx (registerComponent c sh)) = entityIndex (ctx sh)"
  "entityIndex (ctx (setComponent e c p sh)) = entityIndex (ctx sh)"
  by (simp_all add: registerComponent_def setComponent_def Let_def
      split: option.split sum.split prod.split)

lemma addComponent_entityIndex:
  "entityIndex (ctx (addComponent e c p sh)) = entityIndex (ctx sh)"
  by (simp add: addComponent_def Let_def entityIndex_frame split: option.split)

section \<open>Reset: claim C6\<close>

lemma markAll_empty: "markAll word row flag Map.empty = Map.empty"
  by (simp add: markAll_def fun_eq_iff)

lemma reset_world_entity_created:
  fixes w :: spec_world
  defines "cl \<equiv> shared (reset_cleared spec_deps w)"
  defines "e \<equiv> Entity 0 (world_id w) 0"
  shows "spec_createEntity (world_id w) [Comp IsExcluded] cl =
     (e, cl\<lparr>ctx := (ctx cl)
           \<lparr>entityIndex := \<lparr>indexWorldId = world_id w, rows = [(0, True)], freeRows = []\<rparr>,
            entityMasks := [[1]],
            entityComponents := [e \<mapsto> {IsExcluded}],
            bitflag := 2,
            componentRecords :=
              [IsExcluded \<mapsto>
                 \<lparr>recBitflag = 1, recWord = 0, recStore = Map.empty,
                  recEntities = {e}, changedSubscriptions = {}\<rparr>]\<rparr>,
          components := {IsExcluded}\<rparr>)"
  unfolding cl_def e_def
  by (simp add: reset_cleared_def spec_createEntity_def spec_createEntityIndex_def
      spec_deps_def allocateEntity_def addComponent_def registerComponent_def newRecord_def
      carries_def bitSet_def maskAt_def putMask_def nth_or_def put_at_def markAll_empty
      createFastSetFunction_def new_Function_def Object_keys_def Let_def IsExcluded_schema)

lemma reset_spec_shared:
  fixes v :: spec_world
  defines "e \<equiv> Entity 0 (world_id v) 0"
  shows "shared (World_reset spec_deps v) =
      (shared (reset_cleared spec_deps v))\<lparr>ctx := (ctx (shared (reset_cleared spec_deps v)))
           \<lparr>entityIndex := \<lparr>indexWorldId = world_id v, rows = [(0, True)], freeRows = []\<rparr>,
            entityMasks := [[1]],
            entityComponents := [e \<mapsto> {IsExcluded}],
            bitflag := 2,
            componentRecords :=
              [IsExcluded \<mapsto>
                 \<lparr>recBitflag = 1, recWord = 0, recStore = Map.empty,
                  recEntities = {e}, changedSubscriptions = {}\<rparr>],
            worldEntity := Some e\<rparr>,
          components := {IsExcluded}\<rparr>"
  unfolding reset_creates e_def
  by (simp add: on_ctx_def call_createEntity_def invoke_shared invoke_fst spec_deps_def
      reset_world_entity_created [unfolded spec_deps_def])

text \<open>
  Claim C6. \<^verbatim>\<open>world.reset()\<close> keeps the world's id and its initialisation flag. It clears
  the state of the world (a fresh entity index, \<^verbatim>\<open>entityMasks = [[]]\<close>, \<^verbatim>\<open>bitflag = 1\<close>,
  the component records, the components set, the queries, the query hash map, the dirty
  queries, the relation target entities, the tracking snapshots, the dirty masks and the
  changed masks empty) and then makes one call, \<^verbatim>\<open>createEntity(this, IsExcluded)\<close>, on that
  cleared state; the entity it returns becomes the world entity, and the state of the world
  is the state that call leaves. With the entity module as the specification describes it,
  the world entity carries \<open>IsExcluded\<close> and is the only alive entity; the queries, the
  query hash map, the dirty queries, the relation target entities, the tracking snapshots,
  the dirty masks and the changed masks are empty after \<^verbatim>\<open>reset\<close>, and the component
  records, the components set, the masks and the bitflag hold what registering \<open>IsExcluded\<close>
  for the new world entity has put there, and nothing else.
\<close>

theorem reset_effects:
  assumes "fresh_index_empty D"
  shows "world_id (World_reset D w) = world_id w
       \<and> isInitialized (World_reset D w) = isInitialized w
       \<and> (\<exists>cleared e sh.
            ctx cleared =
              \<lparr>entityIndex = createEntityIndex D (world_id w),
               entityMasks = [[]],
               entityComponents = Map.empty,
               bitflag = 1,
               componentRecords = Map.empty,
               queries = {},
               queriesHashMap = Map.empty,
               notQueries = {},
               dirtyQueries = {},
               relationTargetEntities = {},
               dirtyMasks = Map.empty,
               trackingSnapshots = Map.empty,
               changedMasks = Map.empty,
               worldEntity = worldEntity (ctx (shared w))\<rparr>
          \<and> components cleared = {}
          \<and> universe cleared = universe (shared w)
          \<and> heap cleared = heap (shared w)
          \<and> createEntity D (world_id w) [Comp IsExcluded] cleared = (e, sh)
          \<and> shared (World_reset D w) = sh\<lparr>ctx := (ctx sh)\<lparr>worldEntity := Some e\<rparr>\<rparr>
          \<and> calls (World_reset D w) = calls w @ [CreateEntity [Comp IsExcluded] e])
       \<and> (\<exists>e. worldEntity (ctx (shared (World_reset spec_deps v))) = Some e
          \<and> carries (shared (World_reset spec_deps v)) e IsExcluded
          \<and> spec_getAliveEntities (entityIndex (ctx (shared (World_reset spec_deps v)))) = [e]
          \<and> entityMasks (ctx (shared (World_reset spec_deps v))) = [[1]]
          \<and> bitflag (ctx (shared (World_reset spec_deps v))) = 2
          \<and> entityComponents (ctx (shared (World_reset spec_deps v))) = [e \<mapsto> {IsExcluded}]
          \<and> dom (componentRecords (ctx (shared (World_reset spec_deps v)))) = {IsExcluded}
          \<and> components (shared (World_reset spec_deps v)) = {IsExcluded}
          \<and> queries (ctx (shared (World_reset spec_deps v))) = {}
          \<and> queriesHashMap (ctx (shared (World_reset spec_deps v))) = Map.empty
          \<and> notQueries (ctx (shared (World_reset spec_deps v))) = {}
          \<and> dirtyQueries (ctx (shared (World_reset spec_deps v))) = {}
          \<and> relationTargetEntities (ctx (shared (World_reset spec_deps v))) = {}
          \<and> trackingSnapshots (ctx (shared (World_reset spec_deps v))) = Map.empty
          \<and> dirtyMasks (ctx (shared (World_reset spec_deps v))) = Map.empty
          \<and> changedMasks (ctx (shared (World_reset spec_deps v))) = Map.empty
          \<and> universe (shared (World_reset spec_deps v)) = universe (shared v)
          \<and> heap (shared (World_reset spec_deps v)) = heap (shared v))"
proof -
  let ?cl = "shared (reset_cleared D w)"
  obtain e sh where c: "createEntity D (world_id w) [Comp IsExcluded] ?cl = (e, sh)"
    by (cases "createEntity D (world_id w) [Comp IsExcluded] ?cl")
  have eq: "World_reset D w =
      (reset_cleared D w)\<lparr>shared := sh\<lparr>ctx := (ctx sh)\<lparr>worldEntity := Some e\<rparr>\<rparr>,
                           calls := calls w @ [CreateEntity [Comp IsExcluded] e]\<rparr>"
  proof -
    have cs: "calls (reset_cleared D w) = calls w" "world_id (reset_cleared D w) = world_id w"
      by (simp_all add: reset_cleared_def)
    show ?thesis
      unfolding reset_skip_destroy [OF assms]
      by (simp add: call_createEntity_def invoke_def on_ctx_def c cs)
  qed
  have ids: "world_id (World_reset D w) = world_id w"
    "isInitialized (World_reset D w) = isInitialized w"
    unfolding eq by (simp_all add: reset_cleared_def)
  have seq: "\<exists>cleared e sh.
            ctx cleared =
              \<lparr>entityIndex = createEntityIndex D (world_id w),
               entityMasks = [[]],
               entityComponents = Map.empty,
               bitflag = 1,
               componentRecords = Map.empty,
               queries = {},
               queriesHashMap = Map.empty,
               notQueries = {},
               dirtyQueries = {},
               relationTargetEntities = {},
               dirtyMasks = Map.empty,
               trackingSnapshots = Map.empty,
               changedMasks = Map.empty,
               worldEntity = worldEntity (ctx (shared w))\<rparr>
          \<and> components cleared = {}
          \<and> universe cleared = universe (shared w)
          \<and> heap cleared = heap (shared w)
          \<and> createEntity D (world_id w) [Comp IsExcluded] cleared = (e, sh)
          \<and> shared (World_reset D w) = sh\<lparr>ctx := (ctx sh)\<lparr>worldEntity := Some e\<rparr>\<rparr>
          \<and> calls (World_reset D w) = calls w @ [CreateEntity [Comp IsExcluded] e]"
    apply (rule exI [of _ ?cl], rule exI [of _ e], rule exI [of _ sh])
    unfolding eq using c by (simp add: reset_cleared_def)
  let ?v' = "World_reset spec_deps v"
  let ?e = "Entity 0 (world_id v) 0"
  note sv = reset_spec_shared [of v]
  have model: "\<exists>e. worldEntity (ctx (shared ?v')) = Some e
          \<and> carries (shared ?v') e IsExcluded
          \<and> spec_getAliveEntities (entityIndex (ctx (shared ?v'))) = [e]
          \<and> entityMasks (ctx (shared ?v')) = [[1]]
          \<and> bitflag (ctx (shared ?v')) = 2
          \<and> entityComponents (ctx (shared ?v')) = [e \<mapsto> {IsExcluded}]
          \<and> dom (componentRecords (ctx (shared ?v'))) = {IsExcluded}
          \<and> components (shared ?v') = {IsExcluded}
          \<and> queries (ctx (shared ?v')) = {}
          \<and> queriesHashMap (ctx (shared ?v')) = Map.empty
          \<and> notQueries (ctx (shared ?v')) = {}
          \<and> dirtyQueries (ctx (shared ?v')) = {}
          \<and> relationTargetEntities (ctx (shared ?v')) = {}
          \<and> trackingSnapshots (ctx (shared ?v')) = Map.empty
          \<and> dirtyMasks (ctx (shared ?v')) = Map.empty
          \<and> changedMasks (ctx (shared ?v')) = Map.empty
          \<and> universe (shared ?v') = universe (shared v)
          \<and> heap (shared ?v') = heap (shared v)"
    apply (rule exI [of _ ?e])
    unfolding sv
    by (simp add: reset_cleared_def carries_def bitSet_def maskAt_def nth_or_def
        spec_getAliveEntities_def enumerate_eq_zip)
  show ?thesis using ids seq model by blast
qed

section \<open>The world entity: claim C5\<close>

text \<open>
  Claim C5, as amended. \<^verbatim>\<open>init\<close> (on a world not yet initialized) and \<^verbatim>\<open>reset\<close> end with
  a call of \<^verbatim>\<open>createEntity\<close> whose first trait is \<open>IsExcluded\<close>, and the entity it returns
  becomes the world entity; with the entity and query modules as the specification
  describes them, that entity carries \<open>IsExcluded\<close>, and an entity that carries \<open>IsExcluded\<close>
  is in the result of no query, whether it is issued by key or by parameters. After any
  sequence of calls of the methods of a created world, none of which is \<^verbatim>\<open>world.remove\<close>
  of \<open>IsExcluded\<close> itself, the world entity (if the world has one) is in the result of no
  query.
\<close>

theorem world_entity_excluded_amended:
  "(\<not> isInitialized w \<longrightarrow>
      (\<exists>e. worldEntity (ctx (shared (World_init spec_deps comps w))) = Some e
         \<and> last (calls (World_init spec_deps comps w)) =
             CreateEntity (Comp IsExcluded # componentsArray comps) e
         \<and> carries (shared (World_init spec_deps comps w)) e IsExcluded
         \<and> (\<forall>args. e \<notin> set (fst (World_query spec_deps args (World_init spec_deps comps w))))))
   \<and> (\<exists>e. worldEntity (ctx (shared (World_reset spec_deps w))) = Some e
         \<and> last (calls (World_reset spec_deps w)) = CreateEntity [Comp IsExcluded] e
         \<and> carries (shared (World_reset spec_deps w)) e IsExcluded
         \<and> (\<forall>args. e \<notin> set (fst (World_query spec_deps args (World_reset spec_deps w)))))
   \<and> (\<forall>e args. carries (shared w) e IsExcluded \<longrightarrow>
         e \<notin> set (fst (World_query spec_deps args w)))
   \<and> (\<forall>ops this cs u h e args.
         list_all leaves_tag ops \<longrightarrow>
         worldEntity (ctx (shared (fold (exec spec_deps) ops
            (createWorld spec_deps this cs u h)))) = Some e \<longrightarrow>
         e \<notin> set (fst (World_query spec_deps args
            (fold (exec spec_deps) ops (createWorld spec_deps this cs u h)))))"
proof (intro conjI impI allI)
  assume "\<not> isInitialized w"
  from init_creates [OF this, of comps] obtain w4 where
    eq: "World_init spec_deps comps w =
      on_ctx (\<lambda>x. x\<lparr>worldEntity := Some (fst (call_createEntity spec_deps (world_id w)
                      (Comp IsExcluded # componentsArray comps) w4))\<rparr>)
       (snd (call_createEntity spec_deps (world_id w) (Comp IsExcluded # componentsArray comps) w4))"
    by blast
  let ?e = "fst (call_createEntity spec_deps (world_id w) (Comp IsExcluded # componentsArray comps) w4)"
  have "worldEntity (ctx (shared (World_init spec_deps comps w))) = Some ?e"
    unfolding eq by (rule created_world_entity)
  moreover have "last (calls (World_init spec_deps comps w)) =
      CreateEntity (Comp IsExcluded # componentsArray comps) ?e"
    unfolding eq by (rule created_world_entity)
  moreover have c: "carries (shared (World_init spec_deps comps w)) ?e IsExcluded"
    unfolding eq by (rule created_world_entity)
  moreover have "\<forall>args. ?e \<notin> set (fst (World_query spec_deps args (World_init spec_deps comps w)))"
    using query_excludes [OF c] by blast
  ultimately show "\<exists>e. worldEntity (ctx (shared (World_init spec_deps comps w))) = Some e
         \<and> last (calls (World_init spec_deps comps w)) =
             CreateEntity (Comp IsExcluded # componentsArray comps) e
         \<and> carries (shared (World_init spec_deps comps w)) e IsExcluded
         \<and> (\<forall>args. e \<notin> set (fst (World_query spec_deps args (World_init spec_deps comps w))))"
    by blast
next
  let ?e = "fst (call_createEntity spec_deps (world_id w) [Comp IsExcluded] (reset_cleared spec_deps w))"
  have "worldEntity (ctx (shared (World_reset spec_deps w))) = Some ?e"
    unfolding reset_creates by (rule created_world_entity)
  moreover have "last (calls (World_reset spec_deps w)) = CreateEntity [Comp IsExcluded] ?e"
    unfolding reset_creates by (rule created_world_entity)
  moreover have c: "carries (shared (World_reset spec_deps w)) ?e IsExcluded"
    unfolding reset_creates by (rule created_world_entity)
  moreover have "\<forall>args. ?e \<notin> set (fst (World_query spec_deps args (World_reset spec_deps w)))"
    using query_excludes [OF c] by blast
  ultimately show "\<exists>e. worldEntity (ctx (shared (World_reset spec_deps w))) = Some e
         \<and> last (calls (World_reset spec_deps w)) = CreateEntity [Comp IsExcluded] e
         \<and> carries (shared (World_reset spec_deps w)) e IsExcluded
         \<and> (\<forall>args. e \<notin> set (fst (World_query spec_deps args (World_reset spec_deps w))))"
    by blast
next
  fix e args
  assume "carries (shared w) e IsExcluded"
  then show "e \<notin> set (fst (World_query spec_deps args w))" by (rule query_excludes)
next
  fix ops this cs u h e args
  assume "list_all leaves_tag ops"
    and "worldEntity (ctx (shared (fold (exec spec_deps) ops
           (createWorld spec_deps this cs u h)))) = Some e"
  then show "e \<notin> set (fst (World_query spec_deps args
      (fold (exec spec_deps) ops (createWorld spec_deps this cs u h))))"
    by (rule world_entity_stays_excluded)
qed

section \<open>The claims on example worlds\<close>

lemmas eval_defs =
  spec_defs call_defs invoke_def on_ctx_def on_universe_def componentsArray_def
  allocateEntity_def addComponent_def registerComponent_def newRecord_def carries_def
  bitSet_def maskAt_def putMask_def nth_or_def put_at_def array_put_def markAll_def
  createFastSetFunction_def new_Function_def plain_key_def identifier_start_def
  identifier_part_def Object_keys_def Let_def IsExcluded_schema
  destroyOne_def freeEntity_def clearRow_def markRow_def splice_def indexOf_def
  World_entities_def enumerate_eq_zip


lemma ex_tracked_hash: "createQueryHash spec_deps ex_tracked = ''3,0,1,;''"
  by (simp add: spec_deps_def spec_createQueryHash_def ex_tracked_def ex_trait_def)

lemma ex_trait_generated:
  "createFastSetFunction (cschema ex_trait) = Some (fast_set_body [''x''])"
  by (simp add: createFastSetFunction_def new_Function_def plain_key_def identifier_start_def
      Object_keys_def ex_trait_def Let_def)

lemma ex_spawned_state:
  "ex_spawned =
     \<lparr>self = 7, world_id = 0, isInitialized = True,
      shared =
        \<lparr>ctx =
           \<lparr>entityIndex = \<lparr>indexWorldId = 0, rows = [(0, True), (0, True)], freeRows = []\<rparr>,
            entityMasks = [[1, 2]],
            entityComponents = [Entity 0 0 0 \<mapsto> {IsExcluded}, Entity 0 0 1 \<mapsto> {ex_trait}],
            bitflag = 4,
            componentRecords =
              [IsExcluded \<mapsto>
                 \<lparr>recBitflag = 1, recWord = 0, recStore = Map.empty,
                  recEntities = {Entity 0 0 0}, changedSubscriptions = {}\<rparr>,
               ex_trait \<mapsto>
                 \<lparr>recBitflag = 2, recWord = 0, recStore = [''x'' \<mapsto> [JUndefined, JNum 0]],
                  recEntities = {Entity 0 0 1}, changedSubscriptions = {}\<rparr>],
            queries = {}, queriesHashMap = Map.empty, notQueries = {},
            dirtyQueries = {}, relationTargetEntities = {},
            dirtyMasks = Map.empty, trackingSnapshots = Map.empty,
            changedMasks = Map.empty, worldEntity = Some (Entity 0 0 0)\<rparr>,
         components = {IsExcluded, ex_trait},
         universe =
           \<lparr>worldIndex = \<lparr>nextWorldId = 1, freeWorldIds = []\<rparr>,
            worlds = [Some 7], cachedQueries = []\<rparr>,
         heap = \<lparr>queryObjects = [], trackingCursor = 0\<rparr>\<rparr>,
      calls = [AllocateWorldId 0, CreateEntity [Comp IsExcluded] (Entity 0 0 0),
               CreateEntity [Comp ex_trait] (Entity 0 0 1)]\<rparr>"
  unfolding ex_spawned_def ex_world_state
  apply (simp add: World_spawn_def eval_defs ex_trait_generated)
  apply (simp add: ex_trait_def IsExcluded_def arr_set_def get_prop_def insert_commute
      plain_key_def identifier_start_def)
  done

lemma ex_busy_state:
  "ex_busy =
     \<lparr>self = 7, world_id = 0, isInitialized = True,
      shared =
        \<lparr>ctx =
           \<lparr>entityIndex = \<lparr>indexWorldId = 0, rows = [(0, True), (0, True)], freeRows = []\<rparr>,
            entityMasks = [[1, 2]],
            entityComponents = [Entity 0 0 0 \<mapsto> {IsExcluded}, Entity 0 0 1 \<mapsto> {ex_trait}],
            bitflag = 4,
            componentRecords =
              [IsExcluded \<mapsto>
                 \<lparr>recBitflag = 1, recWord = 0, recStore = Map.empty,
                  recEntities = {Entity 0 0 0}, changedSubscriptions = {}\<rparr>,
               ex_trait \<mapsto>
                 \<lparr>recBitflag = 2, recWord = 0, recStore = [''x'' \<mapsto> [JUndefined, JNum 0]],
                  recEntities = {Entity 0 0 1}, changedSubscriptions = {}\<rparr>],
            queries = {0}, queriesHashMap = [''3,0,1,;'' \<mapsto> 0], notQueries = {0},
            dirtyQueries = {0}, relationTargetEntities = {Wildcard},
            dirtyMasks = [0 \<mapsto> []], trackingSnapshots = [0 \<mapsto> [[1, 2]]],
            changedMasks = [0 \<mapsto> []], worldEntity = Some (Entity 0 0 0)\<rparr>,
         components = {IsExcluded, ex_trait},
         universe =
           \<lparr>worldIndex = \<lparr>nextWorldId = 1, freeWorldIds = []\<rparr>,
            worlds = [Some 7], cachedQueries = []\<rparr>,
         heap = \<lparr>queryObjects = [\<lparr>parameters = ex_tracked, subscriptions = {}\<rparr>],
                 trackingCursor = 0\<rparr>\<rparr>,
      calls = [AllocateWorldId 0, CreateEntity [Comp IsExcluded] (Entity 0 0 0),
               CreateEntity [Comp ex_trait] (Entity 0 0 1),
               NewQuery ex_tracked 0, RunQuery 0]\<rparr>"
  unfolding ex_busy_def
  apply (simp add: ex_spawned_state)
  apply (simp add: World_query_def ex_tracked_hash Let_def)
  apply (simp add: eval_defs resetTracker_def ex_tracked_def)
  done

lemma ex_trait_accessors:
  "createGetFunction (cschema ex_trait) =
     Some (\<lambda>index store. get_fields [''x''] index store Map.empty)"
  "createFastSetWithChangeDetectionFunction (cschema ex_trait) =
     Some (\<lambda>index store val. change_body [''x''] index store val False)"
  by (simp_all add: createGetFunction_def createFastSetWithChangeDetectionFunction_def
      new_Function_def plain_key_def identifier_start_def Object_keys_def ex_trait_def Let_def)

lemma ex_added_state:
  "ex_added =
     \<lparr>self = 7, world_id = 0, isInitialized = True,
      shared =
        \<lparr>ctx =
           \<lparr>entityIndex = \<lparr>indexWorldId = 0, rows = [(0, True)], freeRows = []\<rparr>,
            entityMasks = [[3]],
            entityComponents = [Entity 0 0 0 \<mapsto> {IsExcluded, ex_trait}],
            bitflag = 4,
            componentRecords =
              [IsExcluded \<mapsto>
                 \<lparr>recBitflag = 1, recWord = 0, recStore = Map.empty,
                  recEntities = {Entity 0 0 0}, changedSubscriptions = {}\<rparr>,
               ex_trait \<mapsto>
                 \<lparr>recBitflag = 2, recWord = 0, recStore = [''x'' \<mapsto> [JNum 0]],
                  recEntities = {Entity 0 0 0}, changedSubscriptions = {}\<rparr>],
            queries = {}, queriesHashMap = Map.empty, notQueries = {},
            dirtyQueries = {}, relationTargetEntities = {},
            dirtyMasks = Map.empty, trackingSnapshots = Map.empty,
            changedMasks = Map.empty, worldEntity = Some (Entity 0 0 0)\<rparr>,
         components = {IsExcluded, ex_trait},
         universe =
           \<lparr>worldIndex = \<lparr>nextWorldId = 1, freeWorldIds = []\<rparr>,
            worlds = [Some 7], cachedQueries = []\<rparr>,
         heap = \<lparr>queryObjects = [], trackingCursor = 0\<rparr>\<rparr>,
      calls = [AllocateWorldId 0, CreateEntity [Comp IsExcluded] (Entity 0 0 0),
               EntityAdd (Entity 0 0 0) [Comp ex_trait]]\<rparr>"
  unfolding ex_added_def ex_world_state
  apply (simp add: World_add_def on_worldEntity_def eval_defs ex_trait_generated)
  apply (simp add: ex_trait_def IsExcluded_def arr_set_def get_prop_def insert_commute
      plain_key_def identifier_start_def)
  done

text \<open>
  Claim C9 on a world just created and a key that was never stored.
\<close>

theorem query_unknown_key_witness:
  "queriesHashMap (ctx (shared ex_world)) ''nope'' = None
   \<and> World_query spec_deps (Key ''nope'') ex_world = ([], ex_world)"
proof -
  have h: "queriesHashMap (ctx (shared ex_world)) ''nope'' = None"
    by (simp add: ex_world_state)
  show ?thesis using h query_unknown_key [OF h, of spec_deps] by simp
qed

text \<open>
  Claim C10 on a world just created, initialised a second time with a trait.
\<close>

theorem init_again_witness:
  "isInitialized ex_world \<and> World_init spec_deps (Some (Many [Comp ex_trait])) ex_world = ex_world"
proof -
  have h: "isInitialized ex_world" by (simp add: ex_world_state)
  show ?thesis using h init_again [OF h, of spec_deps "Some (Many [Comp ex_trait])"] by simp
qed

text \<open>
  Claim C8 on the first world of a universe. The world has not the example trait, as its
  world entity has not; after \<^verbatim>\<open>world.add\<close> it has, and \<^verbatim>\<open>world.get\<close> returns the
  default; after \<^verbatim>\<open>world.set\<close>, \<^verbatim>\<open>world.get\<close> returns the value set; after
  \<^verbatim>\<open>world.remove\<close> the world has the trait no more. The world entity is alive, an entity
  of another generation is not. On the world before its constructor has run, whose world
  entity is \<^verbatim>\<open>null\<close>, \<^verbatim>\<open>world.add\<close> throws.
\<close>

theorem world_entity_delegation_witness:
  "worldEntity (ctx (shared ex_world)) = Some (Entity 0 0 0)
   \<and> worldEntity (ctx (shared ex_added)) = Some (Entity 0 0 0)
   \<and> fst (World_has spec_deps (OfComponent ex_trait) ex_world) = Inr False
   \<and> ex_added = snd (World_add spec_deps [Comp ex_trait] ex_world)
   \<and> fst (World_has spec_deps (OfComponent ex_trait) ex_added) = Inr True
   \<and> fst (World_get spec_deps ex_trait ex_added) = Inr (Some [''x'' \<mapsto> JNum 0])
   \<and> fst (World_get spec_deps ex_trait
        (snd (World_set spec_deps ex_trait [''x'' \<mapsto> JNum 7] ex_added))) =
       Inr (Some [''x'' \<mapsto> JNum 7])
   \<and> fst (World_has spec_deps (OfComponent ex_trait)
        (snd (World_remove spec_deps [ex_trait] ex_added))) = Inr False
   \<and> World_has spec_deps (OfEntity (Entity 0 0 0)) ex_added = (Inr True, ex_added)
   \<and> World_has spec_deps (OfEntity (Entity 1 0 0)) ex_added = (Inr False, ex_added)
   \<and> worldEntity (ctx (shared ex_blank)) = None
   \<and> World_add spec_deps [Comp ex_trait] ex_blank = (Inl TypeError, ex_blank)"
proof -
  let ?e = "Entity 0 0 0"
  have h0: "worldEntity (ctx (shared ex_world)) = Some ?e"
    by (simp add: ex_world_state)
  have h1: "worldEntity (ctx (shared ex_added)) = Some ?e"
    by (simp add: ex_added_state)
  have hb: "worldEntity (ctx (shared ex_blank)) = None"
    by (simp add: ex_blank_state)
  have ne: "ex_trait \<noteq> IsExcluded" by (simp add: ex_trait_def IsExcluded_def)
  note t0 = world_entity_delegation [of ex_world spec_deps]
  note t1 = world_entity_delegation [of ex_added spec_deps]
  note tb = world_entity_delegation [of ex_blank spec_deps]
  from t0 h0 have has0: "fst (World_has spec_deps (OfComponent ex_trait) ex_world) =
      Inr (fst (Entity_has spec_deps ?e ex_trait (shared ex_world)))"
    by simp
  have v0: "fst (Entity_has spec_deps ?e ex_trait (shared ex_world)) = False"
    using ne by (simp add: spec_deps_def spec_Entity_has_def ex_world_state carries_def)
  have add0: "ex_added = snd (World_add spec_deps [Comp ex_trait] ex_world)"
    by (simp add: ex_added_def)
  from t1 h1 have has1: "fst (World_has spec_deps (OfComponent ex_trait) ex_added) =
      Inr (fst (Entity_has spec_deps ?e ex_trait (shared ex_added)))"
    by simp
  have v1: "fst (Entity_has spec_deps ?e ex_trait (shared ex_added)) = True"
    using ne
    by (simp add: spec_deps_def spec_Entity_has_def ex_added_state carries_def bitSet_def
        maskAt_def nth_or_def)
  from t1 h1 have get1: "fst (World_get spec_deps ex_trait ex_added) =
      Inr (fst (Entity_get spec_deps ?e ex_trait (shared ex_added)))"
    by simp
  have v2: "fst (Entity_get spec_deps ?e ex_trait (shared ex_added)) = Some [''x'' \<mapsto> JNum 0]"
    using ne
    by (simp add: spec_deps_def spec_Entity_get_def ex_added_state carries_def bitSet_def
        maskAt_def nth_or_def ex_trait_accessors arr_get_def)
  define w2 where "w2 = snd (World_set spec_deps ex_trait [''x'' \<mapsto> JNum 7] ex_added)"
  from t1 h1 have set1: "shared w2 =
      snd (Entity_set spec_deps ?e ex_trait [''x'' \<mapsto> JNum 7] (shared ex_added))"
    unfolding w2_def by simp
  have s2: "shared w2 =
      (shared ex_added)\<lparr>ctx := (ctx (shared ex_added))\<lparr>componentRecords :=
         [IsExcluded \<mapsto>
            \<lparr>recBitflag = 1, recWord = 0, recStore = Map.empty,
             recEntities = {Entity 0 0 0}, changedSubscriptions = {}\<rparr>,
          ex_trait \<mapsto>
            \<lparr>recBitflag = 2, recWord = 0, recStore = [''x'' \<mapsto> [JNum 7]],
             recEntities = {Entity 0 0 0}, changedSubscriptions = {}\<rparr>]\<rparr>\<rparr>"
    unfolding set1 using ne
    by (simp add: spec_deps_def spec_Entity_set_def setComponent_def ex_added_state carries_def
        bitSet_def maskAt_def nth_or_def ex_trait_accessors arr_get_def arr_set_def get_prop_def
        strict_neq_def markAll_def fun_eq_iff)
  have h2: "worldEntity (ctx (shared w2)) = Some ?e"
    by (simp add: s2 ex_added_state)
  from world_entity_delegation [of w2 spec_deps] h2
  have get2: "fst (World_get spec_deps ex_trait w2) =
      Inr (fst (Entity_get spec_deps ?e ex_trait (shared w2)))"
    by simp
  have v3: "fst (Entity_get spec_deps ?e ex_trait (shared w2)) = Some [''x'' \<mapsto> JNum 7]"
    using ne
    by (simp add: s2 spec_deps_def spec_Entity_get_def ex_added_state carries_def bitSet_def
        maskAt_def nth_or_def ex_trait_accessors arr_get_def)
  define w3 where "w3 = snd (World_remove spec_deps [ex_trait] ex_added)"
  from t1 h1 have rem1: "shared w3 =
      snd (Entity_remove spec_deps ?e [ex_trait] (shared ex_added))"
    unfolding w3_def by simp
  have s3: "worldEntity (ctx (shared w3)) = Some ?e"
    "componentRecords (ctx (shared w3)) ex_trait =
       Some \<lparr>recBitflag = 2, recWord = 0, recStore = [''x'' \<mapsto> [JNum 0]],
             recEntities = {}, changedSubscriptions = {}\<rparr>"
    "entityMasks (ctx (shared w3)) = [[1]]"
    unfolding rem1 using ne
    by (simp_all add: spec_deps_def spec_Entity_remove_def removeComponent_def ex_added_state
        carries_def bitSet_def maskAt_def putMask_def nth_or_def put_at_def markAll_def Let_def)
  from world_entity_delegation [of w3 spec_deps] s3(1)
  have has3: "fst (World_has spec_deps (OfComponent ex_trait) w3) =
      Inr (fst (Entity_has spec_deps ?e ex_trait (shared w3)))"
    by simp
  have v4: "fst (Entity_has spec_deps ?e ex_trait (shared w3)) = False"
    by (simp add: spec_deps_def spec_Entity_has_def carries_def s3 bitSet_def maskAt_def
        nth_or_def)
  from t1 have alive: "World_has spec_deps (OfEntity x) ex_added =
      (Inr (isEntityAlive spec_deps (entityIndex (ctx (shared ex_added))) x), ex_added)" for x
    by blast
  have v5: "isEntityAlive spec_deps (entityIndex (ctx (shared ex_added))) (Entity 0 0 0) = True"
    "isEntityAlive spec_deps (entityIndex (ctx (shared ex_added))) (Entity 1 0 0) = False"
    by (simp_all add: spec_deps_def spec_isEntityAlive_def ex_added_state nth_or_def)
  from tb hb have null: "World_add spec_deps [Comp ex_trait] ex_blank = (Inl TypeError, ex_blank)"
    by simp
  show ?thesis
    using h0 h1 hb add0 null v5
    by (simp add: has0 v0 has1 v1 get1 v2 get2 [unfolded w2_def] v3 [unfolded w2_def]
        has3 [unfolded w3_def] v4 [unfolded w3_def] alive)
qed

lemma ex_added_shared:
  "shared ex_added = addComponent (Entity 0 0 0) ex_trait Map.empty (shared ex_world)"
proof -
  have "worldEntity (ctx (shared ex_world)) = Some (Entity 0 0 0)"
    by (simp add: ex_world_state)
  then show ?thesis
    by (simp add: ex_added_def World_add_def on_worldEntity_def split_beta
        call_Entity_add_def invoke_shared spec_deps_def spec_Entity_add_def)
qed

text \<open>
  The amended claim C5 on the first world of a universe: its constructor makes the world entity, the
  only alive entity, and a query that every entity would match returns nothing. After
  \<^verbatim>\<open>world.add(trait)\<close> the world entity carries the trait, and the query for that trait
  still returns nothing.
\<close>

theorem world_entity_excluded_amended_witness:
  "\<not> isInitialized ex_blank
   \<and> ex_world = World_init spec_deps None ex_blank
   \<and> worldEntity (ctx (shared ex_world)) = Some (Entity 0 0 0)
   \<and> carries (shared ex_world) (Entity 0 0 0) IsExcluded
   \<and> spec_getAliveEntities (entityIndex (ctx (shared ex_world))) = [Entity 0 0 0]
   \<and> Entity 0 0 0 \<notin> set (fst (World_query spec_deps (Parameters [Not ex_trait]) ex_world))
   \<and> fst (World_query spec_deps (Parameters []) ex_world) = []
   \<and> list_all leaves_tag [Add [Comp ex_trait]]
   \<and> ex_added = fold (exec spec_deps) [Add [Comp ex_trait]]
       (createWorld spec_deps 7 None ex_universe ex_heap)
   \<and> worldEntity (ctx (shared ex_added)) = Some (Entity 0 0 0)
   \<and> carries (shared ex_added) (Entity 0 0 0) ex_trait
   \<and> fst (World_query spec_deps (Parameters [All ex_trait]) ex_added) = []"
proof -
  note T = world_entity_excluded_amended [of ex_blank None]
  have h: "\<not> isInitialized ex_blank" by (simp add: ex_blank_state)
  have we: "worldEntity (ctx (shared ex_world)) = Some (Entity 0 0 0)"
    by (simp add: ex_world_state)
  from T h obtain e where
    e: "worldEntity (ctx (shared (World_init spec_deps None ex_blank))) = Some e"
      "carries (shared (World_init spec_deps None ex_blank)) e IsExcluded"
      "\<forall>args. e \<notin> set (fst (World_query spec_deps args (World_init spec_deps None ex_blank)))"
    by blast
  from e(1) we have "e = Entity 0 0 0" by (simp add: ex_world_init)
  with e have c: "carries (shared ex_world) (Entity 0 0 0) IsExcluded"
    and q: "Entity 0 0 0 \<notin> set (fst (World_query spec_deps args ex_world))" for args
    by (simp_all add: ex_world_init)
  have alive: "spec_getAliveEntities (entityIndex (ctx (shared ex_world))) = [Entity 0 0 0]"
    by (simp add: ex_world_state spec_getAliveEntities_def enumerate_eq_zip)
  have "set (fst (World_query spec_deps (Parameters []) ex_world)) \<subseteq> {Entity 0 0 0}"
    using alive
    by (auto simp: World_query_def Let_def split_beta call_Query_run_def call_Query_new_def
        invoke_fst invoke_shared on_ctx_def spec_deps_def spec_Query_run_def spec_Query_new_def
        split: option.splits if_splits)
  with q [of "Parameters []"] have none: "fst (World_query spec_deps (Parameters []) ex_world) = []"
    by (cases "fst (World_query spec_deps (Parameters []) ex_world)") auto
  have ops: "list_all leaves_tag [Add [Comp ex_trait]]" by simp
  have added: "ex_added = fold (exec spec_deps) [Add [Comp ex_trait]]
      (createWorld spec_deps 7 None ex_universe ex_heap)"
    by (simp add: ex_added_def ex_world_def)
  have we': "worldEntity (ctx (shared ex_added)) = Some (Entity 0 0 0)"
    by (simp add: ex_added_shared addComponent_worldEntity we)
  have c': "carries (shared ex_added) (Entity 0 0 0) ex_trait"
    unfolding ex_added_shared by (rule addComponent_carries)
  from T have "list_all leaves_tag [Add [Comp ex_trait]] \<longrightarrow>
      worldEntity (ctx (shared (fold (exec spec_deps) [Add [Comp ex_trait]]
        (createWorld spec_deps 7 None ex_universe ex_heap)))) = Some (Entity 0 0 0) \<longrightarrow>
      Entity 0 0 0 \<notin> set (fst (World_query spec_deps (Parameters [All ex_trait])
        (fold (exec spec_deps) [Add [Comp ex_trait]]
          (createWorld spec_deps 7 None ex_universe ex_heap))))"
    by blast
  with ops we' have q': "Entity 0 0 0 \<notin> set (fst (World_query spec_deps
      (Parameters [All ex_trait]) ex_added))"
    unfolding added by blast
  have alive': "spec_getAliveEntities (entityIndex (ctx (shared ex_added))) = [Entity 0 0 0]"
    using alive by (simp add: ex_added_shared addComponent_entityIndex)
  have "set (fst (World_query spec_deps (Parameters [All ex_trait]) ex_added)) \<subseteq> {Entity 0 0 0}"
    using alive'
    by (auto simp: World_query_def Let_def split_beta call_Query_run_def call_Query_new_def
        invoke_fst invoke_shared on_ctx_def spec_deps_def spec_Query_run_def spec_Query_new_def
        split: option.splits if_splits)
  with q' have none': "fst (World_query spec_deps (Parameters [All ex_trait]) ex_added) = []"
    by (cases "fst (World_query spec_deps (Parameters [All ex_trait]) ex_added)") auto
  show ?thesis
    using h we c alive q [of "Parameters [Not ex_trait]"] none ops added we' c' none' ex_world_init
    by blast
qed

lemma ex_untagged_state:
  "ex_untagged =
     \<lparr>self = 7, world_id = 0, isInitialized = True,
      shared =
        \<lparr>ctx =
           \<lparr>entityIndex = \<lparr>indexWorldId = 0, rows = [(0, True)], freeRows = []\<rparr>,
            entityMasks = [[0]],
            entityComponents = [Entity 0 0 0 \<mapsto> {}],
            bitflag = 2,
            componentRecords =
              [IsExcluded \<mapsto>
                 \<lparr>recBitflag = 1, recWord = 0, recStore = Map.empty,
                  recEntities = {}, changedSubscriptions = {}\<rparr>],
            queries = {}, queriesHashMap = Map.empty, notQueries = {},
            dirtyQueries = {}, relationTargetEntities = {},
            dirtyMasks = Map.empty, trackingSnapshots = Map.empty,
            changedMasks = Map.empty, worldEntity = Some (Entity 0 0 0)\<rparr>,
         components = {IsExcluded},
         universe =
           \<lparr>worldIndex = \<lparr>nextWorldId = 1, freeWorldIds = []\<rparr>,
            worlds = [Some 7], cachedQueries = []\<rparr>,
         heap = \<lparr>queryObjects = [], trackingCursor = 0\<rparr>\<rparr>,
      calls = [AllocateWorldId 0, CreateEntity [Comp IsExcluded] (Entity 0 0 0),
               EntityRemove (Entity 0 0 0) [IsExcluded]]\<rparr>"
  unfolding ex_untagged_def ex_world_state
  by (simp add: World_remove_def on_worldEntity_def eval_defs removeComponent_def fun_eq_iff)

text \<open>
  Claim C5 as stated fails. \<^verbatim>\<open>world.remove(IsExcluded)\<close> takes the tag off the world
  entity, which stays the world entity; the query with no parameters then returns it.
\<close>

theorem world_entity_excluded_counterexample:
  "worldEntity (ctx (shared ex_world)) = Some (Entity 0 0 0)
   \<and> ex_untagged = exec spec_deps (Remove [IsExcluded]) ex_world
   \<and> worldEntity (ctx (shared ex_untagged)) = Some (Entity 0 0 0)
   \<and> fst (World_query spec_deps (Parameters []) ex_untagged) = [Entity 0 0 0]"
proof -
  have h: "createQueryHash spec_deps [] = []"
    by (simp add: spec_deps_def spec_createQueryHash_def)
  have d: "fst (World_query spec_deps (Parameters []) ex_untagged) = [Entity 0 0 0]"
    unfolding ex_untagged_state
    apply (simp add: World_query_def h Let_def)
    apply (simp add: eval_defs)
    done
  have a: "worldEntity (ctx (shared ex_world)) = Some (Entity 0 0 0)"
    by (simp add: ex_world_state)
  have b: "ex_untagged = exec spec_deps (Remove [IsExcluded]) ex_world"
    by (simp add: ex_untagged_def)
  have c: "worldEntity (ctx (shared ex_untagged)) = Some (Entity 0 0 0)"
    by (simp add: ex_untagged_state)
  show ?thesis using a b c d by blast
qed






text \<open>
  Claim C7 on a world with two alive entities, its world entity and a spawned one: both are
  destroyed, and after \<^verbatim>\<open>destroy\<close> the entity index has no alive entity.
\<close>

theorem destroy_effects_witness:
  "fresh_index_empty spec_deps
   \<and> entities_keep_universe spec_deps
   \<and> count_list (worlds (universe (shared ex_busy))) (Some (self ex_busy)) \<le> 1
   \<and> getAliveEntities spec_deps (entityIndex (ctx (shared ex_busy))) =
       [Entity 0 0 0, Entity 0 0 1]
   \<and> heap (shared (World_destroy spec_deps ex_busy)) = heap (shared ex_busy)
   \<and> entityIndex (ctx (shared (World_destroy spec_deps ex_busy))) =
       \<lparr>indexWorldId = 0, rows = [(1, False)], freeRows = [0]\<rparr>
   \<and> getAliveEntities spec_deps (entityIndex (ctx (shared (World_destroy spec_deps ex_busy)))) = []
   \<and> calls (World_destroy spec_deps ex_busy) =
       calls ex_busy @ [DestroyEntity (Entity 0 0 0), DestroyEntity (Entity 0 0 1),
                        CreateEntity [Comp IsExcluded] (Entity 0 0 0),
                        ReleaseWorldId 0, DestroyEntity (Entity 0 0 0)]
   \<and> isInitialized (World_destroy spec_deps ex_busy) = False
   \<and> worldEntity (ctx (shared (World_destroy spec_deps ex_busy))) = None
   \<and> worldIndex (universe (shared (World_destroy spec_deps ex_busy))) =
       \<lparr>nextWorldId = 1, freeWorldIds = [0]\<rparr>
   \<and> Some 7 \<notin> set (worlds (universe (shared (World_destroy spec_deps ex_busy))))"
proof -
  have once: "count_list (worlds (universe (shared ex_busy))) (Some (self ex_busy)) \<le> 1"
    by (simp add: ex_busy_state)
  note t = destroy_effects [OF spec_fresh_index_empty spec_entities_keep_universe once]
  have ents: "getAliveEntities spec_deps (entityIndex (ctx (shared ex_busy))) =
      [Entity 0 0 0, Entity 0 0 1]"
    by (simp add: spec_deps_def spec_getAliveEntities_def ex_busy_state enumerate_eq_zip)
  have rel: "releaseWorldId spec_deps (worldIndex (universe (shared ex_busy))) (world_id ex_busy) =
      \<lparr>nextWorldId = 1, freeWorldIds = [0]\<rparr>"
    by (simp add: spec_deps_def spec_releaseWorldId_def ex_busy_state)
  have s: "self ex_busy = 7" by (simp add: ex_busy_state)
  from t have seq: "(let alive = getAliveEntities spec_deps (entityIndex (ctx (shared ex_busy)));
              sh1 = fold (\<lambda>entity sh. snd (destroyEntity spec_deps (world_id ex_busy) entity sh))
                      alive (shared ex_busy);
              (e, sh2) = createEntity spec_deps (world_id ex_busy) [Comp IsExcluded]
                           (shared (reset_cleared spec_deps (ex_busy\<lparr>shared := sh1\<rparr>)));
              u = universe sh2;
              sh3 = sh2\<lparr>ctx := (ctx sh2)\<lparr>worldEntity := Some e\<rparr>,
                        universe := u\<lparr>worldIndex := releaseWorldId spec_deps (worldIndex u) (world_id ex_busy),
                                      worlds := splice (worlds u) (indexOf (worlds u) (self ex_busy)) 1\<rparr>\<rparr>;
              sh4 = snd (destroyEntity spec_deps (world_id ex_busy) e sh3)
          in shared (World_destroy spec_deps ex_busy) = sh4\<lparr>ctx := (ctx sh4)\<lparr>worldEntity := None\<rparr>\<rparr>
           \<and> calls (World_destroy spec_deps ex_busy) =
               calls ex_busy @ map DestroyEntity alive
                 @ [CreateEntity [Comp IsExcluded] e, ReleaseWorldId (world_id ex_busy), DestroyEntity e])"
    by blast
  have sh1: "fold (\<lambda>entity sh. snd (destroyEntity spec_deps (world_id ex_busy) entity sh))
      [Entity 0 0 0, Entity 0 0 1] (shared ex_busy) = sh1 \<Longrightarrow>
      heap sh1 = heap (shared ex_busy) \<and> universe sh1 = universe (shared ex_busy)" for sh1
    by (auto simp: spec_deps_def spec_destroyEntity_def destroyOne_def Let_def)
  define sh1 where "sh1 = fold (\<lambda>entity sh. snd (destroyEntity spec_deps (world_id ex_busy) entity sh))
      [Entity 0 0 0, Entity 0 0 1] (shared ex_busy)"
  have sh1_frame: "heap sh1 = heap (shared ex_busy)" "universe sh1 = universe (shared ex_busy)"
    using sh1 [of sh1] by (simp_all add: sh1_def)
  have ce: "createEntity spec_deps (world_id ex_busy) [Comp IsExcluded]
             (shared (reset_cleared spec_deps (ex_busy\<lparr>shared := sh1\<rparr>))) =
      (Entity 0 0 0,
       (shared (reset_cleared spec_deps (ex_busy\<lparr>shared := sh1\<rparr>)))
         \<lparr>ctx := (ctx (shared (reset_cleared spec_deps (ex_busy\<lparr>shared := sh1\<rparr>))))
           \<lparr>entityIndex := \<lparr>indexWorldId = 0, rows = [(0, True)], freeRows = []\<rparr>,
            entityMasks := [[1]],
            entityComponents := [Entity 0 0 0 \<mapsto> {IsExcluded}],
            bitflag := 2,
            componentRecords :=
              [IsExcluded \<mapsto>
                 \<lparr>recBitflag = 1, recWord = 0, recStore = Map.empty,
                  recEntities = {Entity 0 0 0}, changedSubscriptions = {}\<rparr>]\<rparr>,
          components := {IsExcluded}\<rparr>)"
    using reset_world_entity_created [of "ex_busy\<lparr>shared := sh1\<rparr>"]
    by (simp add: spec_deps_def ex_busy_state)
  have fin: "shared (World_destroy spec_deps ex_busy) =
      \<lparr>ctx =
         \<lparr>entityIndex = \<lparr>indexWorldId = 0, rows = [(1, False)], freeRows = [0]\<rparr>,
          entityMasks = [[0]],
          entityComponents = Map.empty,
          bitflag = 2,
          componentRecords =
            [IsExcluded \<mapsto>
               \<lparr>recBitflag = 1, recWord = 0, recStore = Map.empty,
                recEntities = {}, changedSubscriptions = {}\<rparr>],
          queries = {}, queriesHashMap = Map.empty, notQueries = {},
          dirtyQueries = {}, relationTargetEntities = {},
          dirtyMasks = Map.empty, trackingSnapshots = Map.empty,
          changedMasks = Map.empty, worldEntity = None\<rparr>,
       components = {IsExcluded},
       universe =
         \<lparr>worldIndex = \<lparr>nextWorldId = 1, freeWorldIds = [0]\<rparr>,
          worlds = [], cachedQueries = []\<rparr>,
       heap = heap (shared ex_busy)\<rparr>"
    and cs: "calls (World_destroy spec_deps ex_busy) =
       calls ex_busy @ [DestroyEntity (Entity 0 0 0), DestroyEntity (Entity 0 0 1),
                        CreateEntity [Comp IsExcluded] (Entity 0 0 0),
                        ReleaseWorldId 0, DestroyEntity (Entity 0 0 0)]"
    using seq unfolding ents Let_def sh1_def [symmetric] ce
    by (simp_all add: reset_cleared_def sh1_frame ex_busy_state spec_deps_def
        spec_destroyEntity_def destroyOne_def spec_isEntityAlive_def freeEntity_def clearRow_def
        markRow_def nth_or_def put_at_def spec_releaseWorldId_def splice_def indexOf_def
        fun_eq_iff)
  from t have "isInitialized (World_destroy spec_deps ex_busy) = False"
    and "worldEntity (ctx (shared (World_destroy spec_deps ex_busy))) = None"
    and "worldIndex (universe (shared (World_destroy spec_deps ex_busy))) =
           releaseWorldId spec_deps (worldIndex (universe (shared ex_busy))) (world_id ex_busy)"
    and "Some (self ex_busy) \<notin> set (worlds (universe (shared (World_destroy spec_deps ex_busy))))"
    by blast+
  moreover have "heap (shared (World_destroy spec_deps ex_busy)) = heap (shared ex_busy)"
    and idx: "entityIndex (ctx (shared (World_destroy spec_deps ex_busy))) =
       \<lparr>indexWorldId = 0, rows = [(1, False)], freeRows = [0]\<rparr>"
    by (simp_all add: fin)
  moreover have "getAliveEntities spec_deps
      (entityIndex (ctx (shared (World_destroy spec_deps ex_busy)))) = []"
    unfolding idx by (simp add: spec_deps_def spec_getAliveEntities_def enumerate_eq_zip)
  ultimately show ?thesis
    using spec_fresh_index_empty spec_entities_keep_universe once ents cs rel s
    by simp
qed

text \<open>
  Claim C6 on a world in which every collection holds something: after \<^verbatim>\<open>reset\<close> the
  world keeps its id and is still initialized, the world entity is the only alive entity,
  only \<open>IsExcluded\<close> is registered, and the other collections are empty.
\<close>

theorem reset_effects_witness:
  "fresh_index_empty spec_deps
   \<and> isInitialized ex_busy
   \<and> spec_getAliveEntities (entityIndex (ctx (shared ex_busy))) = [Entity 0 0 0, Entity 0 0 1]
   \<and> entityMasks (ctx (shared ex_busy)) = [[1, 2]]
   \<and> bitflag (ctx (shared ex_busy)) = 4
   \<and> dom (componentRecords (ctx (shared ex_busy))) = {IsExcluded, ex_trait}
   \<and> components (shared ex_busy) = {IsExcluded, ex_trait}
   \<and> queries (ctx (shared ex_busy)) = {0}
   \<and> queriesHashMap (ctx (shared ex_busy)) = [''3,0,1,;'' \<mapsto> 0]
   \<and> dirtyQueries (ctx (shared ex_busy)) = {0}
   \<and> relationTargetEntities (ctx (shared ex_busy)) = {Wildcard}
   \<and> trackingSnapshots (ctx (shared ex_busy)) = [0 \<mapsto> [[1, 2]]]
   \<and> dirtyMasks (ctx (shared ex_busy)) = [0 \<mapsto> []]
   \<and> changedMasks (ctx (shared ex_busy)) = [0 \<mapsto> []]
   \<and> world_id (World_reset spec_deps ex_busy) = 0
   \<and> isInitialized (World_reset spec_deps ex_busy)
   \<and> calls (World_reset spec_deps ex_busy) =
       calls ex_busy @ [CreateEntity [Comp IsExcluded] (Entity 0 0 0)]
   \<and> worldEntity (ctx (shared (World_reset spec_deps ex_busy))) = Some (Entity 0 0 0)
   \<and> carries (shared (World_reset spec_deps ex_busy)) (Entity 0 0 0) IsExcluded
   \<and> spec_getAliveEntities (entityIndex (ctx (shared (World_reset spec_deps ex_busy)))) =
       [Entity 0 0 0]
   \<and> dom (componentRecords (ctx (shared (World_reset spec_deps ex_busy)))) = {IsExcluded}
   \<and> components (shared (World_reset spec_deps ex_busy)) = {IsExcluded}
   \<and> queries (ctx (shared (World_reset spec_deps ex_busy))) = {}
   \<and> queriesHashMap (ctx (shared (World_reset spec_deps ex_busy))) = Map.empty
   \<and> dirtyQueries (ctx (shared (World_reset spec_deps ex_busy))) = {}
   \<and> relationTargetEntities (ctx (shared (World_reset spec_deps ex_busy))) = {}
   \<and> trackingSnapshots (ctx (shared (World_reset spec_deps ex_busy))) = Map.empty
   \<and> dirtyMasks (ctx (shared (World_reset spec_deps ex_busy))) = Map.empty
   \<and> changedMasks (ctx (shared (World_reset spec_deps ex_busy))) = Map.empty"
proof -
  note t = reset_effects [OF spec_fresh_index_empty, of ex_busy ex_busy]
  have before:
    "isInitialized ex_busy"
    "world_id ex_busy = 0"
    "spec_getAliveEntities (entityIndex (ctx (shared ex_busy))) = [Entity 0 0 0, Entity 0 0 1]"
    "entityMasks (ctx (shared ex_busy)) = [[1, 2]]"
    "bitflag (ctx (shared ex_busy)) = 4"
    "dom (componentRecords (ctx (shared ex_busy))) = {IsExcluded, ex_trait}"
    "components (shared ex_busy) = {IsExcluded, ex_trait}"
    "queries (ctx (shared ex_busy)) = {0}"
    "queriesHashMap (ctx (shared ex_busy)) = [''3,0,1,;'' \<mapsto> 0]"
    "dirtyQueries (ctx (shared ex_busy)) = {0}"
    "relationTargetEntities (ctx (shared ex_busy)) = {Wildcard}"
    "trackingSnapshots (ctx (shared ex_busy)) = [0 \<mapsto> [[1, 2]]]"
    "dirtyMasks (ctx (shared ex_busy)) = [0 \<mapsto> []]"
    "changedMasks (ctx (shared ex_busy)) = [0 \<mapsto> []]"
    by (simp_all add: ex_busy_state spec_getAliveEntities_def enumerate_eq_zip insert_commute)
  from t have ids: "world_id (World_reset spec_deps ex_busy) = world_id ex_busy"
    "isInitialized (World_reset spec_deps ex_busy) = isInitialized ex_busy"
    by blast+
  from t obtain cleared e sh where
    cl: "ctx cleared =
              \<lparr>entityIndex = createEntityIndex spec_deps (world_id ex_busy),
               entityMasks = [[]],
               entityComponents = Map.empty,
               bitflag = 1,
               componentRecords = Map.empty,
               queries = {},
               queriesHashMap = Map.empty,
               notQueries = {},
               dirtyQueries = {},
               relationTargetEntities = {},
               dirtyMasks = Map.empty,
               trackingSnapshots = Map.empty,
               changedMasks = Map.empty,
               worldEntity = worldEntity (ctx (shared ex_busy))\<rparr>"
    and ce: "createEntity spec_deps (world_id ex_busy) [Comp IsExcluded] cleared = (e, sh)"
    and cs: "calls (World_reset spec_deps ex_busy) = calls ex_busy @ [CreateEntity [Comp IsExcluded] e]"
    by blast
  have "fst (createEntity spec_deps (world_id ex_busy) [Comp IsExcluded] cleared) = Entity 0 0 0"
    by (simp add: spec_deps_def spec_createEntity_def split_beta cl [unfolded spec_deps_def, simplified]
        allocateEntity_def spec_createEntityIndex_def before)
  with ce have e0: "e = Entity 0 0 0" by simp
  from t obtain e' where
    m: "worldEntity (ctx (shared (World_reset spec_deps ex_busy))) = Some e'"
      "carries (shared (World_reset spec_deps ex_busy)) e' IsExcluded"
      "spec_getAliveEntities (entityIndex (ctx (shared (World_reset spec_deps ex_busy)))) = [e']"
      "dom (componentRecords (ctx (shared (World_reset spec_deps ex_busy)))) = {IsExcluded}"
      "components (shared (World_reset spec_deps ex_busy)) = {IsExcluded}"
      "queries (ctx (shared (World_reset spec_deps ex_busy))) = {}"
      "queriesHashMap (ctx (shared (World_reset spec_deps ex_busy))) = Map.empty"
      "dirtyQueries (ctx (shared (World_reset spec_deps ex_busy))) = {}"
      "relationTargetEntities (ctx (shared (World_reset spec_deps ex_busy))) = {}"
      "trackingSnapshots (ctx (shared (World_reset spec_deps ex_busy))) = Map.empty"
      "dirtyMasks (ctx (shared (World_reset spec_deps ex_busy))) = Map.empty"
      "changedMasks (ctx (shared (World_reset spec_deps ex_busy))) = Map.empty"
    by blast
  have "worldEntity (ctx (shared (World_reset spec_deps ex_busy))) = Some (Entity 0 0 0)"
    by (simp add: reset_spec_shared before)
  with m(1) have e1: "e' = Entity 0 0 0" by simp
  show ?thesis
    using spec_fresh_index_empty before ids cs m unfolding e0 e1 by simp
qed

end
